(* ===== verification/JS_Prelude.thy ===== *)
theory JS_Prelude
  imports Complex_Main "HOL-Library.Multiset"
begin

text \<open>
  The JavaScript notions that \<^verbatim>\<open>src/frontend/src/App.js\<close> relies on without
  defining them, shared by every component theory:
  \<^item> identifiers as the backend sends them (a JSON number or a JSON string), their
    truthiness and their string form (the coercion applied when an identifier is used
    as a property key or is interpolated into a URL);
  \<^item> \<^verbatim>\<open>String.prototype.trim\<close> on ASCII white space;
  \<^item> the numbers a counter can hold: a non-negative integer that stops growing at
    \<open>2 ^ 53\<close> (where adding one to a double no longer changes it), or \<^verbatim>\<open>NaN\<close>;
  \<^item> the two ways a promise settles.
  The collections \<open>js_eval\<close> (equations that evaluate these notions on literals) and
  \<open>handler_defs\<close> (unfoldings of the handlers, filled by the component theories) carry
  the proofs of the witnesses.
\<close>

named_theorems js_eval "equations that evaluate the JavaScript primitives on literals"
named_theorems handler_defs "unfoldings of the handlers into the state primitives"
named_theorems frame_simps "fields of the state that an operation leaves unchanged"

section \<open>Generic list and map facts\<close>

lemma dropWhile_all_iff: "(\<forall>x \<in> set (dropWhile P xs). P x) \<longleftrightarrow> dropWhile P xs = []"
  using hd_dropWhile [of P xs] by (cases "dropWhile P xs") (auto dest: set_dropWhileD)

lemma foldl_snoc_step: "foldl f a (xs @ [x]) = f (foldl f a xs) x"
  by simp

lemma count_list_filter_same:
  "count_list (filter P xs) k = (if P k then count_list xs k else 0)"
  by (induction xs) auto

lemma count_list_pos_iff: "0 < count_list xs k \<longleftrightarrow> k \<in> set xs"
  by (induction xs) auto

lemma count_list_le_length: "count_list xs k \<le> length xs"
  by (induction xs) auto

lemma count_list_mset: "mset xs = mset ys \<Longrightarrow> count_list xs k = count_list ys k"
  by (metis count_mset)

lemma map_upd_other: "k \<noteq> k' \<Longrightarrow> (m(k \<mapsto> v)) k' = m k'"
  by simp

section \<open>Identifiers\<close>

text \<open>
  An identifier arrives in a JSON document, so it is a number or a string. The client
  never computes with it: it tests its truthiness (\<^verbatim>\<open>showRespondModal && ...\<close>),
  uses it as a property key (\<^verbatim>\<open>reactionsMap[listing.id]\<close>) and interpolates it into
  a path (\<^verbatim>\<open>`/urgent/${urgentId}/respond-with-listing`\<close>). The last two apply
  \<^verbatim>\<open>ToString\<close>, which for a non-negative integer below \<open>10 ^ 21\<close> is its decimal
  numeral. Negative and fractional identifiers are not modelled.
\<close>

datatype ident = NumId nat | StrId string

fun truthy_id :: "ident \<Rightarrow> bool" where
  "truthy_id (NumId n) = (n \<noteq> 0)"
| "truthy_id (StrId s) = (s \<noteq> [])"

definition digit_char :: "nat \<Rightarrow> char" where
  "digit_char d = ''0123456789'' ! d"

definition digit_val :: "char \<Rightarrow> nat" where
  "digit_val c = of_char c - 48"

fun show_nat :: "nat \<Rightarrow> string" where
  "show_nat n =
     (if n < 10 then [digit_char n] else show_nat (n div 10) @ [digit_char (n mod 10)])"

declare show_nat.simps [simp del]

definition read_nat :: "string \<Rightarrow> nat" where
  "read_nat s = foldl (\<lambda>a c. 10 * a + digit_val c) 0 s"

fun to_string_id :: "ident \<Rightarrow> string" where
  "to_string_id (NumId n) = show_nat n"
| "to_string_id (StrId s) = s"

lemmas [js_eval] = digit_char_def digit_val_def show_nat.simps read_nat_def

lemma digit_val_digit_char: "d < 10 \<Longrightarrow> digit_val (digit_char d) = d"
proof -
  assume "d < 10"
  then have "d \<in> {0, 1, 2, 3, 4, 5, 6, 7, 8, 9}" by auto
  then show ?thesis by (auto simp: digit_val_def digit_char_def)
qed

lemma read_nat_snoc: "read_nat (s @ [c]) = 10 * read_nat s + digit_val c"
  by (simp add: read_nat_def)

lemma show_nat_not_Nil: "show_nat n \<noteq> []"
  by (subst show_nat.simps) simp

lemma read_show_nat: "read_nat (show_nat n) = n"
proof (induction n rule: show_nat.induct)
  case (1 n)
  show ?case
  proof (cases "n < 10")
    case True
    then show ?thesis
      by (subst show_nat.simps) (simp add: read_nat_def digit_val_digit_char)
  next
    case False
    with "1.IH" have "read_nat (show_nat (n div 10)) = n div 10" by simp
    with False show ?thesis
      by (subst show_nat.simps) (simp add: read_nat_snoc digit_val_digit_char)
  qed
qed

lemma show_nat_eq_iff [simp]: "show_nat n = show_nat m \<longleftrightarrow> n = m"
  by (metis read_show_nat)

lemma to_string_id_NumId_eq_iff [simp]:
  "to_string_id (NumId n) = to_string_id (NumId m) \<longleftrightarrow> n = m"
  by simp

lemma to_string_id_StrId_eq_iff [simp]:
  "to_string_id (StrId s) = to_string_id (StrId t) \<longleftrightarrow> s = t"
  by simp

section \<open>Trimming\<close>

text \<open>
  \<^verbatim>\<open>trim\<close> removes white space and line terminators at both ends. Strings are
  modelled as byte strings, so only the ASCII ones are covered: tab, line feed, vertical
  tab, form feed, carriage return and space.
\<close>

definition is_space :: "char \<Rightarrow> bool" where
  "is_space c \<longleftrightarrow> c \<in> set [CHR 0x09, CHR 0x0A, CHR 0x0B, CHR 0x0C, CHR 0x0D, CHR '' '']"

definition js_trim :: "string \<Rightarrow> string" where
  "js_trim s = rev (dropWhile is_space (rev (dropWhile is_space s)))"

lemmas [js_eval] = is_space_def js_trim_def

lemma js_trim_Nil_iff: "js_trim s = [] \<longleftrightarrow> (\<forall>c \<in> set s. is_space c)"
  by (simp add: js_trim_def dropWhile_all_iff)

lemma js_trim_Nil [simp]: "js_trim [] = []"
  by (simp add: js_trim_def)

section \<open>Numbers in counters\<close>

text \<open>
  A counter starts at 0 and is only ever incremented, so its value is a non-negative
  integer or, when \<^verbatim>\<open>++\<close> was applied to something that is no number, \<^verbatim>\<open>NaN\<close>.
  Numbers are doubles: \<open>2 ^ 53 + 1\<close> rounds back to \<open>2 ^ 53\<close>, so a counter saturates
  there.
\<close>

datatype jsnum = Num nat | NaN

definition max_exact :: nat where
  "max_exact = 2 ^ 53"

fun js_incr :: "jsnum \<Rightarrow> jsnum" where
  "js_incr (Num n) = Num (if n < max_exact then Suc n else n)"
| "js_incr NaN = NaN"

lemma js_incr_min: "js_incr (Num (min n max_exact)) = Num (min (Suc n) max_exact)"
  by (simp add: min_def)

lemma js_incr_exact: "n < max_exact \<Longrightarrow> js_incr (Num n) = Num (Suc n)"
  by simp

section \<open>Settled promises\<close>

text \<open>
  An awaited call ends in one of two ways: the promise is fulfilled with a value, or it
  is rejected with an error, of which the client only ever reads the message.
\<close>

datatype 'a outcome = Resolved 'a | Rejected string

end
