(* ===== verification/Reactions.thy ===== *)
theory Reactions
  imports JS_Prelude
begin

text \<open>
  The reaction aggregator: the body of the inner \<^verbatim>\<open>try\<close> of \<^verbatim>\<open>refreshData\<close>
  (\<^verbatim>\<open>App.js\<close>, lines 134 to 139), which turns the raw reaction events of one listing
  into its counters. The counters object is a map from property names to numbers; the
  loop body is \<open>count_reaction\<close>, the loop is \<open>aggregate\<close>. The test
  \<^verbatim>\<open>counts[r.reaction_type] !== undefined\<close> reads through the prototype chain, so it
  also succeeds for the names every object inherits; \<open>defined_in\<close> and \<open>increment\<close>
  say what the test and \<^verbatim>\<open>++\<close> do then. The lemmas give the closed form of the
  loop (\<open>counts_spec\<close>), from which the counting, ordering and unknown-type properties
  follow.
\<close>

section \<open>Events and counters\<close>

record reaction =
  reaction_type :: string

type_synonym counts = "string \<rightharpoonup> jsnum"

definition known_types :: "string list" where
  "known_types = [''like'', ''helpful'', ''available'', ''unavailable'']"

definition zero_counts :: counts where
  "zero_counts = [''like'' \<mapsto> Num 0, ''helpful'' \<mapsto> Num 0, ''available'' \<mapsto> Num 0,
     ''unavailable'' \<mapsto> Num 0]"

text \<open>
  The function-valued properties of \<^verbatim>\<open>Object.prototype\<close>, which an object literal
  inherits. Reading one of them gives a function, never \<^verbatim>\<open>undefined\<close>; applying
  \<^verbatim>\<open>++\<close> to it stores \<^verbatim>\<open>NaN\<close> as an own property. \<^verbatim>\<open>__proto__\<close> is inherited too,
  but it is an accessor whose setter ignores a number.
\<close>

definition object_prototype_methods :: "string list" where
  "object_prototype_methods = [''constructor'', ''hasOwnProperty'', ''isPrototypeOf'',
     ''propertyIsEnumerable'', ''toLocaleString'', ''toString'', ''valueOf'',
     ''__defineGetter__'', ''__defineSetter__'', ''__lookupGetter__'', ''__lookupSetter__'']"

definition defined_in :: "counts \<Rightarrow> string \<Rightarrow> bool" where
  "defined_in c k \<longleftrightarrow> c k \<noteq> None \<or> k \<in> set object_prototype_methods \<or> k = ''__proto__''"

definition increment :: "counts \<Rightarrow> string \<Rightarrow> counts" where
  "increment c k =
     (case c k of
        Some v \<Rightarrow> c(k \<mapsto> js_incr v)
      | None \<Rightarrow> if k = ''__proto__'' then c else c(k \<mapsto> NaN))"

section \<open>The loop\<close>

definition count_reaction :: "counts \<Rightarrow> reaction \<Rightarrow> counts" where
  "count_reaction c r =
     (if defined_in c (reaction_type r) then increment c (reaction_type r) else c)"

definition aggregate :: "reaction list \<Rightarrow> counts" where
  "aggregate rs = foldl count_reaction zero_counts rs"

text \<open>The counters are well formed when each of the four known types holds a number.\<close>

definition counts_wf :: "counts \<Rightarrow> bool" where
  "counts_wf c =
     list_all (\<lambda>k. case c k of Some (Num n) \<Rightarrow> n \<le> max_exact | _ \<Rightarrow> False) known_types"

section \<open>Reference: counting occurrences\<close>

definition occurrences :: "reaction list \<Rightarrow> string \<Rightarrow> nat" where
  "occurrences rs k = count_list (map reaction_type rs) k"

definition counts_spec :: "reaction list \<Rightarrow> counts" where
  "counts_spec rs k =
     (if k \<in> set known_types then Some (Num (min (occurrences rs k) max_exact))
      else if k \<in> set object_prototype_methods \<and> 0 < occurrences rs k then Some NaN
      else None)"

lemmas reaction_defs =
  known_types_def zero_counts_def object_prototype_methods_def defined_in_def increment_def
  count_reaction_def aggregate_def occurrences_def max_exact_def

lemma occurrences_Nil [simp]: "occurrences [] k = 0"
  by (simp add: occurrences_def)

lemma occurrences_snoc [simp]:
  "occurrences (rs @ [r]) k = occurrences rs k + (if reaction_type r = k then 1 else 0)"
  by (simp add: occurrences_def)

lemma occurrences_le_length: "occurrences rs k \<le> length rs"
  using count_list_le_length [of "map reaction_type rs" k] by (simp add: occurrences_def)

lemma occurrences_mset: "mset rs = mset rs' \<Longrightarrow> occurrences rs k = occurrences rs' k"
  unfolding occurrences_def by (rule count_list_mset) (metis mset_map)

lemma occurrences_filter_known:
  "k \<in> set known_types \<Longrightarrow>
     occurrences (filter (\<lambda>r. reaction_type r \<in> set known_types) rs) k = occurrences rs k"
  by (induction rs) (auto simp: occurrences_def)

lemma known_not_inherited:
  "k \<in> set known_types \<Longrightarrow> k \<notin> set object_prototype_methods \<and> k \<noteq> ''__proto__''"
  by (auto simp: known_types_def object_prototype_methods_def)

lemma proto_not_method: "''__proto__'' \<notin> set object_prototype_methods"
  by (simp add: object_prototype_methods_def)

lemma counts_spec_Nil: "counts_spec [] = zero_counts"
  by (rule ext) (simp add: counts_spec_def zero_counts_def known_types_def)

lemma count_reaction_spec: "count_reaction (counts_spec rs) r = counts_spec (rs @ [r])"
proof (rule ext)
  fix k
  show "count_reaction (counts_spec rs) r k = counts_spec (rs @ [r]) k"
    using known_not_inherited [of k] known_not_inherited [of "reaction_type r"]
      proto_not_method
    by (auto simp: count_reaction_def defined_in_def increment_def counts_spec_def
        js_incr_min split: option.splits)
qed

lemma foldl_count_reaction_spec:
  "foldl count_reaction (counts_spec rs0) rs = counts_spec (rs0 @ rs)"
  by (induction rs arbitrary: rs0) (simp_all add: count_reaction_spec)

lemma aggregate_counts_spec: "aggregate rs = counts_spec rs"
  using foldl_count_reaction_spec [of "[]" rs] by (simp add: aggregate_def counts_spec_Nil)

lemma aggregate_Nil [simp]: "aggregate [] = zero_counts"
  by (simp add: aggregate_def)

lemma aggregate_snoc: "aggregate (rs @ [r]) = count_reaction (aggregate rs) r"
  by (simp add: aggregate_def)

lemma counts_wf_spec: "counts_wf (counts_spec rs)"
  by (simp add: counts_wf_def counts_spec_def list_all_iff)

lemma counts_wf_zero [simp]: "counts_wf zero_counts"
  using counts_wf_spec [of "[]"] by (simp add: counts_spec_Nil)

lemma counts_wf_aggregate [simp]: "counts_wf (aggregate rs)"
  by (simp add: aggregate_counts_spec counts_wf_spec)

lemma counts_wf_known:
  assumes "counts_wf c" and "k \<in> set known_types"
  shows "\<exists>n. c k = Some (Num n) \<and> n \<le> max_exact"
proof -
  from assms have "case c k of Some (Num n) \<Rightarrow> n \<le> max_exact | _ \<Rightarrow> False"
    by (simp add: counts_wf_def list_all_iff)
  then show ?thesis by (cases "c k") (auto split: jsnum.splits)
qed

section \<open>Properties\<close>

text \<open>
  C6. The loop has a closed form. After the reaction events \<open>rs\<close> of one listing have been
  counted, each of the four known types holds the number of events of that type (capped
  at \<open>2 ^ 53\<close>, where a double stops counting), an inherited method name that occurred as
  a type holds \<^verbatim>\<open>NaN\<close>, and no other property exists.
\<close>

theorem aggregate_closed_form:
  "aggregate rs k =
     (if k \<in> set known_types then Some (Num (min (occurrences rs k) max_exact))
      else if k \<in> set object_prototype_methods \<and> 0 < occurrences rs k then Some NaN
      else None)"
  by (simp add: aggregate_counts_spec counts_spec_def)

text \<open>
  C7. For fewer than \<open>2 ^ 53\<close> events, the counter of each known reaction type equals the
  number of events of that type; events of other types are not counted.
\<close>

theorem aggregate_counts_events:
  assumes "k \<in> set known_types" and "length rs < max_exact"
  shows "aggregate rs k = Some (Num (occurrences rs k))"
proof -
  from assms(2) occurrences_le_length [of rs k] have "occurrences rs k \<le> max_exact"
    by simp
  with assms(1) show ?thesis
    by (simp add: aggregate_counts_spec counts_spec_def min_def)
qed

theorem aggregate_counts_events_witness:
  "aggregate [\<lparr>reaction_type = ''like''\<rparr>, \<lparr>reaction_type = ''like''\<rparr>,
      \<lparr>reaction_type = ''helpful''\<rparr>, \<lparr>reaction_type = ''wow''\<rparr>] ''like'' = Some (Num 2)"
  using aggregate_counts_events [of "''like''" "[\<lparr>reaction_type = ''like''\<rparr>,
      \<lparr>reaction_type = ''like''\<rparr>, \<lparr>reaction_type = ''helpful''\<rparr>, \<lparr>reaction_type = ''wow''\<rparr>]"]
  by (simp add: known_types_def max_exact_def occurrences_def)

text \<open>
  C33. The result does not depend on the order of the events: two lists with the same
  events, in any order, give the same counters.
\<close>

theorem aggregate_order_independent:
  assumes "mset rs = mset rs'"
  shows "aggregate rs = aggregate rs'"
proof (rule ext)
  fix k
  from assms have "occurrences rs k = occurrences rs' k" by (rule occurrences_mset)
  then show "aggregate rs k = aggregate rs' k"
    by (simp add: aggregate_counts_spec counts_spec_def)
qed

theorem aggregate_order_independent_witness:
  "aggregate [\<lparr>reaction_type = ''like''\<rparr>, \<lparr>reaction_type = ''helpful''\<rparr>] =
   aggregate [\<lparr>reaction_type = ''helpful''\<rparr>, \<lparr>reaction_type = ''like''\<rparr>]"
  using aggregate_order_independent [of "[\<lparr>reaction_type = ''like''\<rparr>,
      \<lparr>reaction_type = ''helpful''\<rparr>]" "[\<lparr>reaction_type = ''helpful''\<rparr>,
      \<lparr>reaction_type = ''like''\<rparr>]"]
  by (simp add: add_mset_commute)

text \<open>
  C34. An event whose type is the name of a method every object inherits (such as
  \<^verbatim>\<open>constructor\<close>) is not ignored: it passes the test of the loop and leaves \<^verbatim>\<open>NaN\<close>
  under that name in the counters object. The four displayed counters are not affected.
\<close>

theorem aggregate_inherited_name:
  assumes "reaction_type r \<in> set object_prototype_methods"
  shows "aggregate (rs @ [r]) (reaction_type r) = Some NaN
     \<and> (\<forall>k. k \<in> set known_types \<longrightarrow> aggregate (rs @ [r]) k = aggregate rs k)"
  using assms known_not_inherited [of "reaction_type r"]
  by (auto simp: aggregate_counts_spec counts_spec_def)

theorem aggregate_inherited_name_witness:
  "aggregate [\<lparr>reaction_type = ''like''\<rparr>, \<lparr>reaction_type = ''constructor''\<rparr>] ''constructor''
     = Some NaN
   \<and> aggregate [\<lparr>reaction_type = ''like''\<rparr>, \<lparr>reaction_type = ''constructor''\<rparr>] ''like''
     = Some (Num 1)"
  using aggregate_inherited_name [of "\<lparr>reaction_type = ''constructor''\<rparr>"
      "[\<lparr>reaction_type = ''like''\<rparr>]"]
  by (simp add: reaction_defs)

section \<open>Well-formedness and bounds\<close>

lemma counts_wf_increment:
  assumes "counts_wf c" and "defined_in c k"
  shows "counts_wf (increment c k)"
proof -
  have "case increment c k k' of Some (Num n) \<Rightarrow> n \<le> max_exact | _ \<Rightarrow> False"
    if "k' \<in> set known_types" for k'
    using counts_wf_known [OF assms(1) that]
    by (auto simp: increment_def split: option.splits)
  then show ?thesis by (simp add: counts_wf_def list_all_iff)
qed

text \<open>
  C39. Counting keeps the counters well formed. When each of the four known types holds a
  number of at most \<open>2 ^ 53\<close>, it does so after one more event has been counted,
  whatever the type of the event.
\<close>

theorem count_reaction_wf:
  assumes "counts_wf c"
  shows "counts_wf (count_reaction c r)"
  using assms by (simp add: count_reaction_def counts_wf_increment)

theorem count_reaction_wf_witness:
  "counts_wf (count_reaction zero_counts \<lparr>reaction_type = ''valueOf''\<rparr>)
     \<and> count_reaction zero_counts \<lparr>reaction_type = ''valueOf''\<rparr> ''valueOf'' = Some NaN"
  using count_reaction_wf [OF counts_wf_zero, of "\<lparr>reaction_type = ''valueOf''\<rparr>"]
  by (simp add: count_reaction_def defined_in_def increment_def object_prototype_methods_def
      zero_counts_def)

text \<open>
  C38. The counters are bounded. The counter of a known reaction type is at most the
  number of events counted and never more than \<open>2 ^ 53\<close>, where it stays: a counter
  cannot overflow or go back.
\<close>

theorem aggregate_bounded:
  assumes "k \<in> set known_types"
  shows "\<exists>n. aggregate rs k = Some (Num n) \<and> n \<le> length rs \<and> n \<le> 2 ^ 53
     \<and> (2 ^ 53 \<le> occurrences rs k \<longrightarrow> n = 2 ^ 53)"
  using assms occurrences_le_length [of rs k]
  by (simp add: aggregate_counts_spec counts_spec_def max_exact_def)

theorem aggregate_bounded_witness:
  "\<exists>n. aggregate [\<lparr>reaction_type = ''like''\<rparr>, \<lparr>reaction_type = ''wow''\<rparr>] ''like'' = Some (Num n)
     \<and> n \<le> 2"
  using aggregate_bounded [of "''like''" "[\<lparr>reaction_type = ''like''\<rparr>, \<lparr>reaction_type = ''wow''\<rparr>]"]
  by (auto simp: known_types_def)

end
