(* ===== verification/Entities.thy ===== *)
theory Entities
  imports Reactions
begin

text \<open>
  The data of the client, as \<^verbatim>\<open>App.js\<close> reads and writes it. A record has the fields
  the code touches and no others: of a listing the cards read \<^verbatim>\<open>id\<close>, \<^verbatim>\<open>title\<close>,
  \<^verbatim>\<open>description\<close>, \<^verbatim>\<open>type\<close>, \<^verbatim>\<open>is_free\<close> and \<^verbatim>\<open>status\<close> (lines 333 to 366 and
  425 to 438), of an urgent need \<^verbatim>\<open>id\<close>, \<^verbatim>\<open>title\<close>, \<^verbatim>\<open>description\<close> and
  \<^verbatim>\<open>radius_km\<close> (lines 404 to 415). Types and statuses are strings: the backend sends
  them, and the client compares them with literals. Coordinates and the radius are
  numbers the client passes on unchanged, modelled as reals. \<open>request\<close> is the REST
  surface: one constructor per call of \<^verbatim>\<open>apiGet\<close> or \<^verbatim>\<open>apiPost\<close>, with the values
  the call interpolates into its path or puts in its body.
\<close>

section \<open>What the backend sends\<close>

record latlng =
  lat :: real
  lng :: real

record listing =
  l_id :: ident
  l_title :: string
  l_description :: string
  l_type :: string
  l_is_free :: bool
  l_status :: string

record urgent_need =
  u_id :: ident
  u_title :: string
  u_description :: string
  u_radius_km :: real

record suggestion =
  s_title :: string
  s_description :: string
  s_distance_km :: "real option"

record external_link =
  k_platform :: string
  k_url :: string
  k_icon :: string

record chatbot_response =
  response :: string
  suggestions :: "suggestion list option"
  external_links :: "external_link list option"

section \<open>The forms\<close>

record listing_form =
  f_title :: string
  f_description :: string
  f_type :: string
  f_is_free :: bool
  f_is_trade :: bool
  f_category :: string

record urgent_form =
  uf_title :: string
  uf_description :: string
  uf_radius_km :: real

definition initial_form :: listing_form where
  "initial_form = \<lparr>f_title = '''', f_description = '''', f_type = ''offer'', f_is_free = True,
     f_is_trade = False, f_category = ''''\<rparr>"

definition initial_urgent_form :: urgent_form where
  "initial_urgent_form = \<lparr>uf_title = '''', uf_description = '''', uf_radius_km = 2\<rparr>"

section \<open>Requests\<close>

text \<open>
  The key of a listing: its identifier as a string, which is what a template literal
  and a computed property name make of it.
\<close>

definition listing_key :: "listing \<Rightarrow> string" where
  "listing_key l = to_string_id (l_id l)"

definition nearby_radius :: real where
  "nearby_radius = 3"

datatype status_change = MarkReserved | MarkUsedUp

fun status_name :: "status_change \<Rightarrow> string" where
  "status_name MarkReserved = ''reserved''"
| "status_name MarkUsedUp = ''completed''"

datatype request =
    GetListings real real real
  | GetUrgentNearby real real real
  | GetReactions string
  | PostListing listing_form real real
  | PostUrgent urgent_form real real
  | PostReaction string string
  | PatchListing string string
  | PostChatbot string real real
  | GetMatchingListings string
  | PostRespondWithListing string ident

text \<open>
  What a handler does to the world outside the state: a request sent by the suspended
  handler with the given number, a dialogue box, a line on the console, a rejection that
  no handler caught, and the call of \<^verbatim>\<open>signOut\<close>.
\<close>

datatype effect =
    Sent nat request
  | Alert string
  | ConsoleError string
  | Unhandled string
  | SignOut

fun requests_of :: "effect list \<Rightarrow> request list" where
  "requests_of [] = []"
| "requests_of (Sent tid r # es) = r # requests_of es"
| "requests_of (e # es) = requests_of es"

lemma requests_of_append [simp]: "requests_of (xs @ ys) = requests_of xs @ requests_of ys"
  by (induction xs rule: requests_of.induct) simp_all

lemma requests_of_map_Sent [simp]: "requests_of (map (Sent tid) rs) = rs"
  by (induction rs) simp_all

section \<open>Keys\<close>



text \<open>
  A number and the string of its numeral are different identifiers with one key.
\<close>

lemma key_collision: "to_string_id (NumId 1) = to_string_id (StrId ''1'')"
  by (simp add: show_nat.simps digit_char_def)

end
