(* ===== verification/Promises.thy ===== *)
theory Promises
  imports JS_Prelude
begin

text \<open>
  \<^verbatim>\<open>Promise.all\<close> over two promises, as \<^verbatim>\<open>refreshData\<close> awaits it (\<^verbatim>\<open>App.js\<close>,
  lines 122 to 125). The two requests are in flight together and settle in either order.
  The awaiting handler goes on when both have been fulfilled, with the two values in the
  order of the array, or as soon as one is rejected, with that error; the other request
  is then still in flight and its answer is dropped when it arrives. \<open>gather\<close> holds the
  values fulfilled so far; \<open>settle_fst\<close> and \<open>settle_snd\<close> say what the settling of one
  promise means for the awaiting handler.
\<close>

datatype ('a, 'b) gather = Gather "'a option" "'b option"

datatype ('a, 'b) gathered =
    Wait "('a, 'b) gather"
  | Fulfilled 'a 'b
  | Failed string bool

fun fst_pending :: "('a, 'b) gather \<Rightarrow> bool" where
  "fst_pending (Gather x y) = (x = None)"

fun snd_pending :: "('a, 'b) gather \<Rightarrow> bool" where
  "snd_pending (Gather x y) = (y = None)"

text \<open>
  The flag of \<open>Failed\<close> says whether the other promise is still pending when the
  rejection arrives.
\<close>

fun settle_fst :: "'a outcome \<Rightarrow> ('a, 'b) gather \<Rightarrow> ('a, 'b) gathered" where
  "settle_fst (Resolved a) (Gather x None) = Wait (Gather (Some a) None)"
| "settle_fst (Resolved a) (Gather x (Some b)) = Fulfilled a b"
| "settle_fst (Rejected e) (Gather x y) = Failed e (y = None)"

fun settle_snd :: "'b outcome \<Rightarrow> ('a, 'b) gather \<Rightarrow> ('a, 'b) gathered" where
  "settle_snd (Resolved b) (Gather None y) = Wait (Gather None (Some b))"
| "settle_snd (Resolved b) (Gather (Some a) y) = Fulfilled a b"
| "settle_snd (Rejected e) (Gather x y) = Failed e (x = None)"

fun_cases settle_fst_FulfilledE: "settle_fst out g = Fulfilled a b"
fun_cases settle_snd_FulfilledE: "settle_snd out g = Fulfilled a b"
fun_cases settle_fst_WaitE: "settle_fst out g = Wait g'"
fun_cases settle_snd_WaitE: "settle_snd out g = Wait g'"

lemma settle_fst_then_snd:
  "settle_fst (Resolved a) (Gather None None) = Wait g \<Longrightarrow>
     settle_snd (Resolved b) g = Fulfilled a b"
  by auto

lemma settle_snd_then_fst:
  "settle_snd (Resolved b) (Gather None None) = Wait g \<Longrightarrow>
     settle_fst (Resolved a) g = Fulfilled a b"
  by auto

lemma settle_fst_Wait_pending:
  "settle_fst out g = Wait g' \<Longrightarrow> \<not> fst_pending g' \<and> snd_pending g' \<and> snd_pending g"
  by (auto elim!: settle_fst_WaitE)

lemma settle_snd_Wait_pending:
  "settle_snd out g = Wait g' \<Longrightarrow> \<not> snd_pending g' \<and> fst_pending g' \<and> fst_pending g"
  by (auto elim!: settle_snd_WaitE)

lemma settle_fst_Fulfilled_iff:
  "settle_fst out g = Fulfilled a b \<longleftrightarrow> out = Resolved a \<and> (\<exists>x. g = Gather x (Some b))"
  by (cases "(out, g)" rule: settle_fst.cases) auto

lemma settle_snd_Fulfilled_iff:
  "settle_snd out g = Fulfilled a b \<longleftrightarrow> out = Resolved b \<and> (\<exists>y. g = Gather (Some a) y)"
  by (cases "(out, g)" rule: settle_snd.cases) auto

end
