(* ===== verification/Session.thy ===== *)
theory Session
  imports Entities Promises
begin

text \<open>
  The session state. \<open>dashboard\<close> is the state of the \<^verbatim>\<open>Dashboard\<close> component, one
  field per \<^verbatim>\<open>useState\<close> of lines 81 to 102 with the same name and initial value. An
  asynchronous handler that has reached an \<^verbatim>\<open>await\<close> is a \<open>task\<close>: the point where
  it waits, with the values its closure captured when it started; it goes on when its
  request settles. \<open>sys\<close> adds to the component state the pool of suspended handlers,
  the log of effects, and whether the geolocation answer is still outstanding.
  The primitives \<open>setState\<close>, \<open>emit\<close>, \<open>suspend\<close>, \<open>resuspend\<close> and \<open>finish\<close> are the
  only operations that change a \<open>sys\<close>; every handler is composed of them.
\<close>

section \<open>Component state\<close>

record dashboard =
  coords :: "latlng option"
  listings :: "listing list"
  urgent :: "urgent_need list"
  reactions :: "string \<rightharpoonup> counts"
  chatbotQuery :: string
  chatbotResponse :: "chatbot_response option"
  showChatbot :: bool
  matchingListings :: "string \<rightharpoonup> listing list"
  showRespondModal :: "ident option"
  form :: listing_form
  urgentForm :: urgent_form

definition initial_dashboard :: dashboard where
  "initial_dashboard = \<lparr>coords = None, listings = [], urgent = [], reactions = Map.empty,
     chatbotQuery = '''', chatbotResponse = None, showChatbot = False,
     matchingListings = Map.empty, showRespondModal = None, form = initial_form,
     urgentForm = initial_urgent_form\<rparr>"

section \<open>Suspended handlers\<close>

datatype nearby = NearListings | NearUrgent

text \<open>
  One constructor per \<^verbatim>\<open>await\<close> of the component:
  \<^item> \<open>RefreshAll\<close>: \<^verbatim>\<open>refreshData\<close> at its \<^verbatim>\<open>Promise.all\<close> (line 122), with what has
    been fulfilled so far; \<open>RefreshOrphan\<close>: the outer \<^verbatim>\<open>catch\<close> has run after a
    rejection and the named request is still in flight;
  \<^item> \<open>RefreshLoop\<close>: \<^verbatim>\<open>refreshData\<close> in its loop (line 133), waiting for the reactions
    of the first of the remaining listings, with the \<^verbatim>\<open>reactionsMap\<close> built so far;
  \<^item> \<open>CreateListing\<close>, \<open>CreateUrgent\<close>: lines 155 and 164, with the form and
    coordinates of the render that submitted;
  \<^item> \<open>React\<close>, \<open>UpdateStatus\<close>: lines 175 and 184, with the coordinates of that render
    (the default argument of the \<^verbatim>\<open>refreshData\<close> they call);
  \<^item> \<open>Chatbot\<close>: line 195; \<open>Matching\<close>: line 208, with the urgent need's identifier and
    the \<^verbatim>\<open>matchingListings\<close> of that render; \<open>Respond\<close>: line 219.
\<close>

datatype task =
    RefreshAll "(listing list, urgent_need list) gather"
  | RefreshOrphan nearby
  | RefreshLoop "listing list" "string \<rightharpoonup> counts"
  | CreateListing listing_form latlng
  | CreateUrgent urgent_form latlng
  | React "latlng option"
  | UpdateStatus "latlng option"
  | Chatbot
  | Matching ident "string \<rightharpoonup> listing list"
  | Respond

record sys =
  dash :: dashboard
  tasks :: "nat \<rightharpoonup> task"
  next_tid :: nat
  effects :: "effect list"
  geo_pending :: bool

text \<open>
  The state after the first render and its effect (lines 104 to 117): the initial
  component state, and \<^verbatim>\<open>getCurrentPosition\<close> called and not yet answered.
\<close>

definition mounted :: sys where
  "mounted = \<lparr>dash = initial_dashboard, tasks = Map.empty, next_tid = 0, effects = [],
     geo_pending = True\<rparr>"

section \<open>Primitives\<close>

definition setState :: "(dashboard \<Rightarrow> dashboard) \<Rightarrow> sys \<Rightarrow> sys" where
  "setState f s = s\<lparr>dash := f (dash s)\<rparr>"

definition emit :: "effect \<Rightarrow> sys \<Rightarrow> sys" where
  "emit e s = s\<lparr>effects := effects s @ [e]\<rparr>"

text \<open>
  \<open>suspend t rs\<close>: a handler sends the requests \<open>rs\<close> and waits as \<open>t\<close> under a fresh
  number. \<open>resuspend tid t rs\<close>: the handler numbered \<open>tid\<close> sends \<open>rs\<close> and waits again,
  as \<open>t\<close>. \<open>finish tid\<close>: it returns.
\<close>

definition suspend :: "task \<Rightarrow> request list \<Rightarrow> sys \<Rightarrow> sys" where
  "suspend t rs s = s\<lparr>tasks := (tasks s)(next_tid s \<mapsto> t), next_tid := Suc (next_tid s),
     effects := effects s @ map (Sent (next_tid s)) rs\<rparr>"

definition resuspend :: "nat \<Rightarrow> task \<Rightarrow> request list \<Rightarrow> sys \<Rightarrow> sys" where
  "resuspend tid t rs s = s\<lparr>tasks := (tasks s)(tid \<mapsto> t),
     effects := effects s @ map (Sent tid) rs\<rparr>"

definition finish :: "nat \<Rightarrow> sys \<Rightarrow> sys" where
  "finish tid s = s\<lparr>tasks := (tasks s)(tid := None)\<rparr>"

lemmas prim_defs = setState_def emit_def suspend_def resuspend_def finish_def

section \<open>What a primitive leaves unchanged\<close>

lemma setState_frame [simp, frame_simps]:
  "dash (setState f s) = f (dash s)"
  "tasks (setState f s) = tasks s"
  "next_tid (setState f s) = next_tid s"
  "effects (setState f s) = effects s"
  "geo_pending (setState f s) = geo_pending s"
  by (simp_all add: setState_def)

lemma emit_frame [simp, frame_simps]:
  "dash (emit e s) = dash s"
  "tasks (emit e s) = tasks s"
  "next_tid (emit e s) = next_tid s"
  "effects (emit e s) = effects s @ [e]"
  "geo_pending (emit e s) = geo_pending s"
  by (simp_all add: emit_def)

lemma suspend_frame [simp, frame_simps]:
  "dash (suspend t rs s) = dash s"
  "tasks (suspend t rs s) = (tasks s)(next_tid s \<mapsto> t)"
  "next_tid (suspend t rs s) = Suc (next_tid s)"
  "effects (suspend t rs s) = effects s @ map (Sent (next_tid s)) rs"
  "geo_pending (suspend t rs s) = geo_pending s"
  by (simp_all add: suspend_def)

lemma resuspend_frame [simp, frame_simps]:
  "dash (resuspend tid t rs s) = dash s"
  "tasks (resuspend tid t rs s) = (tasks s)(tid \<mapsto> t)"
  "next_tid (resuspend tid t rs s) = next_tid s"
  "effects (resuspend tid t rs s) = effects s @ map (Sent tid) rs"
  "geo_pending (resuspend tid t rs s) = geo_pending s"
  by (simp_all add: resuspend_def)

lemma finish_frame [simp, frame_simps]:
  "dash (finish tid s) = dash s"
  "tasks (finish tid s) = (tasks s)(tid := None)"
  "next_tid (finish tid s) = next_tid s"
  "effects (finish tid s) = effects s"
  "geo_pending (finish tid s) = geo_pending s"
  by (simp_all add: finish_def)

lemma mounted_simps [simp]:
  "dash mounted = initial_dashboard"
  "tasks mounted = Map.empty"
  "next_tid mounted = 0"
  "effects mounted = []"
  "geo_pending mounted = True"
  by (simp_all add: mounted_def)

lemma initial_dashboard_simps [simp]:
  "coords initial_dashboard = None"
  "listings initial_dashboard = []"
  "urgent initial_dashboard = []"
  "reactions initial_dashboard = Map.empty"
  "chatbotQuery initial_dashboard = ''''"
  "chatbotResponse initial_dashboard = None"
  "showChatbot initial_dashboard = False"
  "matchingListings initial_dashboard = Map.empty"
  "showRespondModal initial_dashboard = None"
  "form initial_dashboard = initial_form"
  "urgentForm initial_dashboard = initial_urgent_form"
  by (simp_all add: initial_dashboard_def)

text \<open>
  Two states are equal when their five components are: the way a run is compared with
  the state a reference predicts.
\<close>

lemma sys_eqI:
  "dash s = dash t \<Longrightarrow> tasks s = tasks t \<Longrightarrow> next_tid s = next_tid t \<Longrightarrow>
     effects s = effects t \<Longrightarrow> geo_pending s = geo_pending t \<Longrightarrow> (s :: sys) = t"
  by simp

end
