(* ===== verification/Refresh.thy ===== *)
theory Refresh
  imports Session
begin

text \<open>
  The data sync engine: \<^verbatim>\<open>refreshData\<close> (\<^verbatim>\<open>App.js\<close>, lines 119 to 149), cut at its
  awaits.
  \<^item> \<open>refreshData\<close> is the part that runs at the call: the guard on the coordinates and
    the two range queries under \<^verbatim>\<open>Promise.all\<close>.
  \<^item> \<open>on_listings\<close> and \<open>on_urgent\<close> run when one of the two queries settles;
    \<open>refresh_loaded\<close> is the code after the \<^verbatim>\<open>await\<close> once both are there (lines 126
    to 131), \<open>refresh_rejected\<close> the outer \<^verbatim>\<open>catch\<close> (lines 146 to 148).
  \<^item> \<open>refresh_loop\<close> is the head of the \<^verbatim>\<open>for\<close> loop: it asks for the reactions of the
    next listing, or stores the finished map (line 145). \<open>on_reactions\<close> runs when that
    request settles; \<open>store_counts\<close> is the body of the loop after its \<^verbatim>\<open>await\<close>, for
    both outcomes (lines 134 to 143).
  \<open>reactions_after\<close> is the reference for the loop: the map after a list of outcomes, one
  per listing. \<open>feed_reactions\<close> delivers a list of outcomes to one handler.
\<close>

section \<open>The handler\<close>

definition counts_of_outcome :: "reaction list outcome \<Rightarrow> counts" where
  "counts_of_outcome out = (case out of Resolved rs \<Rightarrow> aggregate rs | Rejected e \<Rightarrow> zero_counts)"

definition store_counts ::
  "listing \<Rightarrow> reaction list outcome \<Rightarrow> (string \<rightharpoonup> counts) \<Rightarrow> (string \<rightharpoonup> counts)" where
  "store_counts l out m = m(listing_key l \<mapsto> counts_of_outcome out)"

definition refreshData :: "latlng option \<Rightarrow> sys \<Rightarrow> sys" where
  "refreshData c s =
     (case c of
        None \<Rightarrow> s
      | Some p \<Rightarrow>
          suspend (RefreshAll (Gather None None))
            [GetListings (lat p) (lng p) nearby_radius,
             GetUrgentNearby (lat p) (lng p) nearby_radius] s)"

definition refresh_loop :: "nat \<Rightarrow> listing list \<Rightarrow> (string \<rightharpoonup> counts) \<Rightarrow> sys \<Rightarrow> sys" where
  "refresh_loop tid rest m s =
     (case rest of
        [] \<Rightarrow> finish tid (setState (\<lambda>d. d\<lparr>reactions := m\<rparr>) s)
      | l # ls \<Rightarrow> resuspend tid (RefreshLoop rest m) [GetReactions (listing_key l)] s)"

definition refresh_loaded :: "nat \<Rightarrow> listing list \<Rightarrow> urgent_need list \<Rightarrow> sys \<Rightarrow> sys" where
  "refresh_loaded tid ls us s =
     refresh_loop tid ls Map.empty (setState (\<lambda>d. d\<lparr>listings := ls, urgent := us\<rparr>) s)"

definition refresh_rejected :: "nat \<Rightarrow> string \<Rightarrow> bool \<Rightarrow> nearby \<Rightarrow> sys \<Rightarrow> sys" where
  "refresh_rejected tid e other_pending other s =
     emit (ConsoleError e)
       (if other_pending then resuspend tid (RefreshOrphan other) [] s else finish tid s)"

definition on_listings :: "nat \<Rightarrow> listing list outcome \<Rightarrow> sys \<Rightarrow> sys option" where
  "on_listings tid out s =
     (case tasks s tid of
        Some (RefreshAll g) \<Rightarrow>
          if fst_pending g then
            Some (case settle_fst out g of
                    Wait g' \<Rightarrow> resuspend tid (RefreshAll g') [] s
                  | Fulfilled ls us \<Rightarrow> refresh_loaded tid ls us s
                  | Failed e p \<Rightarrow> refresh_rejected tid e p NearUrgent s)
          else None
      | Some (RefreshOrphan NearListings) \<Rightarrow> Some (finish tid s)
      | _ \<Rightarrow> None)"

definition on_urgent :: "nat \<Rightarrow> urgent_need list outcome \<Rightarrow> sys \<Rightarrow> sys option" where
  "on_urgent tid out s =
     (case tasks s tid of
        Some (RefreshAll g) \<Rightarrow>
          if snd_pending g then
            Some (case settle_snd out g of
                    Wait g' \<Rightarrow> resuspend tid (RefreshAll g') [] s
                  | Fulfilled ls us \<Rightarrow> refresh_loaded tid ls us s
                  | Failed e p \<Rightarrow> refresh_rejected tid e p NearListings s)
          else None
      | Some (RefreshOrphan NearUrgent) \<Rightarrow> Some (finish tid s)
      | _ \<Rightarrow> None)"

definition on_reactions :: "nat \<Rightarrow> reaction list outcome \<Rightarrow> sys \<Rightarrow> sys option" where
  "on_reactions tid out s =
     (case tasks s tid of
        Some (RefreshLoop (l # rest) m) \<Rightarrow> Some (refresh_loop tid rest (store_counts l out m) s)
      | _ \<Rightarrow> None)"

lemmas refresh_defs =
  refreshData_def refresh_loop_def refresh_loaded_def refresh_rejected_def on_listings_def
  on_urgent_def on_reactions_def store_counts_def counts_of_outcome_def

lemmas [handler_defs] = refresh_defs

section \<open>Reference for the loop\<close>

fun reactions_after ::
  "listing list \<Rightarrow> reaction list outcome list \<Rightarrow> (string \<rightharpoonup> counts) \<Rightarrow> (string \<rightharpoonup> counts)" where
  "reactions_after (l # ls) (out # outs) m = reactions_after ls outs (store_counts l out m)"
| "reactions_after ls outs m = m"

fun feed_reactions :: "nat \<Rightarrow> reaction list outcome list \<Rightarrow> sys \<Rightarrow> sys option" where
  "feed_reactions tid [] s = Some s"
| "feed_reactions tid (out # outs) s =
     (case on_reactions tid out s of None \<Rightarrow> None | Some s' \<Rightarrow> feed_reactions tid outs s')"

text \<open>The requests the loop sends after its first one: one per remaining listing.\<close>

definition reaction_requests :: "nat \<Rightarrow> listing list \<Rightarrow> effect list" where
  "reaction_requests tid ls = map (\<lambda>l. Sent tid (GetReactions (listing_key l))) ls"

section \<open>The reference map\<close>

lemma counts_wf_outcome [simp]: "counts_wf (counts_of_outcome out)"
  by (cases out) (simp_all add: counts_of_outcome_def)

lemma store_counts_apply:
  "store_counts l out m k = (if k = listing_key l then Some (counts_of_outcome out) else m k)"
  by (simp add: store_counts_def)

lemma reactions_after_Nil [simp]: "reactions_after [] outs m = m"
  by simp

lemma reactions_after_other:
  "k \<notin> listing_key ` set ls \<Longrightarrow> reactions_after ls outs m k = m k"
  by (induction ls outs m rule: reactions_after.induct) (auto simp: store_counts_apply)

lemma reactions_after_upd_other:
  "k \<notin> listing_key ` set ls \<Longrightarrow>
     reactions_after ls outs (m(k \<mapsto> c)) = (reactions_after ls outs m)(k \<mapsto> c)"
  by (induction ls outs m rule: reactions_after.induct)
    (auto simp: store_counts_def fun_upd_twist)

lemma dom_store_counts [simp]: "dom (store_counts l out m) = insert (listing_key l) (dom m)"
  by (simp add: store_counts_def)

lemma dom_reactions_after:
  "length outs = length ls \<Longrightarrow> dom (reactions_after ls outs m) = dom m \<union> listing_key ` set ls"
  by (induction ls outs m rule: reactions_after.induct) auto

lemma reactions_after_snoc:
  "length outs = length ls \<Longrightarrow>
     reactions_after (ls @ [l]) (outs @ [out]) m = store_counts l out (reactions_after ls outs m)"
  by (induction ls outs m rule: reactions_after.induct) auto

text \<open>
  With distinct keys, the entry of each listing is the aggregate of its own outcome.
\<close>

lemma reactions_after_zip:
  assumes "distinct (map listing_key ls)" and "(l, out) \<in> set (zip ls outs)"
  shows "reactions_after ls outs m (listing_key l) = Some (counts_of_outcome out)"
  using assms
proof (induction ls outs m rule: reactions_after.induct)
  case (1 l' ls out' outs m)
  show ?case
  proof (cases "(l, out) = (l', out')")
    case True
    with "1.prems" show ?thesis
      by (simp add: reactions_after_other store_counts_apply)
  next
    case False
    with "1.prems" have "(l, out) \<in> set (zip ls outs)" and "distinct (map listing_key ls)"
      by auto
    then show ?thesis using "1.IH" by simp
  qed
qed auto

lemma reactions_after_wf:
  assumes "\<forall>k c. m k = Some c \<longrightarrow> counts_wf c"
  shows "reactions_after ls outs m k = Some c \<Longrightarrow> counts_wf c"
  using assms
  by (induction ls outs m rule: reactions_after.induct)
    (auto simp: store_counts_apply split: if_splits)

section \<open>The loop, step by step\<close>

lemma on_reactions_loop:
  "tasks s tid = Some (RefreshLoop (l # rest) m) \<Longrightarrow>
     on_reactions tid out s = Some (refresh_loop tid rest (store_counts l out m) s)"
  by (simp add: on_reactions_def)

lemma reaction_requests_simps [simp]:
  "reaction_requests tid [] = []"
  "reaction_requests tid (l # ls) =
     Sent tid (GetReactions (listing_key l)) # reaction_requests tid ls"
  by (simp_all add: reaction_requests_def)

lemma length_reaction_requests [simp]: "length (reaction_requests tid ls) = length ls"
  by (simp add: reaction_requests_def)

text \<open>
  A loop over \<open>ls\<close> that receives one outcome per listing ends: the handler returns,
  having sent one request per listing after the first and stored the reference map.
\<close>

lemma feed_reactions_loop:
  assumes "ls \<noteq> []" and "tasks s tid = Some (RefreshLoop ls m)" and "length outs = length ls"
  shows "feed_reactions tid outs s =
     Some (finish tid (setState (\<lambda>d. d\<lparr>reactions := reactions_after ls outs m\<rparr>)
       (s\<lparr>effects := effects s @ reaction_requests tid (tl ls)\<rparr>)))"
  using assms
proof (induction ls arbitrary: outs m s rule: list_nonempty_induct)
  case (single l)
  then obtain out where "outs = [out]" by (cases outs) auto
  with single show ?case
    by (simp add: on_reactions_loop refresh_loop_def prim_defs)
next
  case (cons l ls)
  then obtain out outs' where outs: "outs = out # outs'" and len: "length outs' = length ls"
    by (cases outs) auto
  let ?s1 = "refresh_loop tid ls (store_counts l out m) s"
  from cons.hyps obtain l' rest where ls: "ls = l' # rest" by (cases ls) auto
  have t1: "tasks ?s1 tid = Some (RefreshLoop ls (store_counts l out m))"
    by (simp add: refresh_loop_def ls)
  have "feed_reactions tid outs s = feed_reactions tid outs' ?s1"
    using cons.prems(1) by (simp add: outs on_reactions_loop)
  also have "\<dots> = Some (finish tid (setState (\<lambda>d. d\<lparr>reactions :=
      reactions_after ls outs' (store_counts l out m)\<rparr>)
       (?s1\<lparr>effects := effects ?s1 @ reaction_requests tid (tl ls)\<rparr>)))"
    using t1 len by (rule cons.IH)
  also have "\<dots> = Some (finish tid (setState (\<lambda>d. d\<lparr>reactions :=
      reactions_after (l # ls) outs m\<rparr>)
       (s\<lparr>effects := effects s @ reaction_requests tid (tl (l # ls))\<rparr>)))"
    by (simp add: outs ls refresh_loop_def prim_defs)
  finally show ?case .
qed

text \<open>
  While outcomes are still missing the handler stays in its loop: it has sent one more
  request per outcome received, and nothing of the component state has changed.
\<close>

lemma feed_reactions_prefix:
  assumes "tasks s tid = Some (RefreshLoop ls m)" and "length outs < length ls"
  shows "feed_reactions tid outs s =
     Some (s\<lparr>tasks := (tasks s)(tid \<mapsto>
              RefreshLoop (drop (length outs) ls) (reactions_after ls outs m)),
            effects := effects s @ reaction_requests tid (take (length outs) (tl ls))\<rparr>)"
  using assms
proof (induction outs arbitrary: ls m s)
  case Nil
  then show ?case by (simp add: map_upd_triv)
next
  case (Cons out outs)
  then obtain l l' rest where ls: "ls = l # l' # rest"
    by (cases ls; cases "tl ls") auto
  let ?s1 = "refresh_loop tid (l' # rest) (store_counts l out m) s"
  have t1: "tasks ?s1 tid = Some (RefreshLoop (l' # rest) (store_counts l out m))"
    by (simp add: refresh_loop_def)
  have "feed_reactions tid (out # outs) s = feed_reactions tid outs ?s1"
    using Cons.prems(1) by (simp add: ls on_reactions_loop)
  also have "\<dots> = Some (?s1\<lparr>tasks := (tasks ?s1)(tid \<mapsto>
              RefreshLoop (drop (length outs) (l' # rest))
                (reactions_after (l' # rest) outs (store_counts l out m))),
            effects := effects ?s1 @ reaction_requests tid (take (length outs) (tl (l' # rest)))\<rparr>)"
    using t1 Cons.prems(2) by (intro Cons.IH) (simp_all add: ls)
  also have "\<dots> = Some (s\<lparr>tasks := (tasks s)(tid \<mapsto>
              RefreshLoop (drop (length (out # outs)) ls) (reactions_after ls (out # outs) m)),
            effects := effects s @ reaction_requests tid (take (length (out # outs)) (tl ls))\<rparr>)"
    by (simp add: ls refresh_loop_def prim_defs)
  finally show ?case .
qed

section \<open>The two range queries, step by step\<close>

lemma on_listings_first:
  "tasks s tid = Some (RefreshAll (Gather None None)) \<Longrightarrow>
     on_listings tid (Resolved ls) s = Some (resuspend tid (RefreshAll (Gather (Some ls) None)) [] s)"
  by (simp add: on_listings_def)

lemma on_urgent_first:
  "tasks s tid = Some (RefreshAll (Gather None None)) \<Longrightarrow>
     on_urgent tid (Resolved us) s = Some (resuspend tid (RefreshAll (Gather None (Some us))) [] s)"
  by (simp add: on_urgent_def)

lemma on_listings_second:
  "tasks s tid = Some (RefreshAll (Gather None (Some us))) \<Longrightarrow>
     on_listings tid (Resolved ls) s = Some (refresh_loaded tid ls us s)"
  by (simp add: on_listings_def)

lemma on_urgent_second:
  "tasks s tid = Some (RefreshAll (Gather (Some ls) None)) \<Longrightarrow>
     on_urgent tid (Resolved us) s = Some (refresh_loaded tid ls us s)"
  by (simp add: on_urgent_def)

lemma on_listings_rejected:
  "tasks s tid = Some (RefreshAll (Gather None uo)) \<Longrightarrow>
     on_listings tid (Rejected e) s = Some (refresh_rejected tid e (uo = None) NearUrgent s)"
  by (simp add: on_listings_def)

lemma on_urgent_rejected:
  "tasks s tid = Some (RefreshAll (Gather lo None)) \<Longrightarrow>
     on_urgent tid (Rejected e) s = Some (refresh_rejected tid e (lo = None) NearListings s)"
  by (simp add: on_urgent_def)

lemma refresh_rejected_frame [simp]:
  "dash (refresh_rejected tid e p other s) = dash s"
  "next_tid (refresh_rejected tid e p other s) = next_tid s"
  "geo_pending (refresh_rejected tid e p other s) = geo_pending s"
  "effects (refresh_rejected tid e p other s) = effects s @ [ConsoleError e]"
  by (simp_all add: refresh_rejected_def)

lemma refresh_loop_frame [simp]:
  "next_tid (refresh_loop tid rest m s) = next_tid s"
  "geo_pending (refresh_loop tid rest m s) = geo_pending s"
  "k \<noteq> tid \<Longrightarrow> tasks (refresh_loop tid rest m s) k = tasks s k"
  by (simp_all add: refresh_loop_def split: list.splits)

lemma refresh_loaded_frame [simp]:
  "next_tid (refresh_loaded tid ls us s) = next_tid s"
  "geo_pending (refresh_loaded tid ls us s) = geo_pending s"
  "k \<noteq> tid \<Longrightarrow> tasks (refresh_loaded tid ls us s) k = tasks s k"
  "listings (dash (refresh_loaded tid ls us s)) = ls"
  "urgent (dash (refresh_loaded tid ls us s)) = us"
  by (simp_all add: refresh_loaded_def refresh_loop_def split: list.splits)

section \<open>Failure isolation\<close>

text \<open>
  C4. A failed reaction query is isolated. In a refresh over listings with distinct
  identifiers, replacing the outcome of one reaction query by a rejection changes the
  counters of that listing to zeros, and nothing else: every other listing keeps the
  counters of its own outcome, and the loop goes on to the end.
\<close>

theorem reaction_failure_isolated:
  assumes "distinct (map listing_key ls)" and "length outs = length ls" and "i < length ls"
  shows "reactions_after ls (outs[i := Rejected e]) m =
     (reactions_after ls outs m)(listing_key (ls ! i) \<mapsto> zero_counts)"
  using assms
proof (induction ls outs m arbitrary: i rule: reactions_after.induct)
  case (1 l ls out outs m)
  show ?case
  proof (cases i)
    case 0
    with "1.prems" show ?thesis
      by (simp add: reactions_after_upd_other [symmetric] store_counts_def
          counts_of_outcome_def)
  next
    case (Suc j)
    with "1.prems" "1.IH" [of j] show ?thesis by simp
  qed
qed auto

theorem reaction_failure_isolated_witness:
  "reactions_after
     [\<lparr>l_id = StrId ''A'', l_title = ''Ladder'', l_description = ''3 m'', l_type = ''offer'',
        l_is_free = True, l_status = ''active''\<rparr>,
      \<lparr>l_id = StrId ''B'', l_title = ''Drill'', l_description = '''', l_type = ''offer'',
        l_is_free = True, l_status = ''active''\<rparr>]
     [Resolved [\<lparr>reaction_type = ''like''\<rparr>], Rejected ''503''] Map.empty =
   [''A'' \<mapsto> zero_counts(''like'' \<mapsto> Num 1), ''B'' \<mapsto> zero_counts]"
  using reaction_failure_isolated [of
      "[\<lparr>l_id = StrId ''A'', l_title = ''Ladder'', l_description = ''3 m'', l_type = ''offer'',
        l_is_free = True, l_status = ''active''\<rparr>,
      \<lparr>l_id = StrId ''B'', l_title = ''Drill'', l_description = '''', l_type = ''offer'',
        l_is_free = True, l_status = ''active''\<rparr>]"
      "[Resolved [\<lparr>reaction_type = ''like''\<rparr>], Resolved [\<lparr>reaction_type = ''like''\<rparr>]]"
      1 "''503''" Map.empty]
  by (simp add: listing_key_def store_counts_def counts_of_outcome_def reaction_defs)

end
