(* ===== verification/Location.thy ===== *)
theory Location
  imports Refresh
begin

text \<open>
  The location provider: the effect of \<^verbatim>\<open>Dashboard\<close> that runs once after the first
  render (\<^verbatim>\<open>App.js\<close>, lines 104 to 117). \<^verbatim>\<open>getCurrentPosition\<close> answers at most once,
  with a position or with an error; \<open>geo_answer\<close> is that answer and \<open>resolve\<close> the
  coordinates the session gets from it. \<open>on_geo\<close> is the callback: it stores the
  coordinates and starts the first refresh with them.
\<close>

datatype geo_answer = Position real real | PositionError

definition fallback :: latlng where
  "fallback = \<lparr>lat = 0, lng = 0\<rparr>"

fun resolve :: "geo_answer \<Rightarrow> latlng" where
  "resolve (Position la lo) = \<lparr>lat = la, lng = lo\<rparr>"
| "resolve PositionError = fallback"

definition on_geo :: "geo_answer \<Rightarrow> sys \<Rightarrow> sys option" where
  "on_geo a s =
     (if geo_pending s then
        Some (refreshData (Some (resolve a))
          (setState (\<lambda>d. d\<lparr>coords := Some (resolve a)\<rparr>) (s\<lparr>geo_pending := False\<rparr>)))
      else None)"

lemmas [handler_defs] = on_geo_def fallback_def

lemma on_geo_Some_iff: "(\<exists>s'. on_geo a s = Some s') \<longleftrightarrow> geo_pending s"
  by (simp add: on_geo_def)

lemma on_geo_coords:
  "on_geo a s = Some s' \<Longrightarrow> coords (dash s') = Some (resolve a) \<and> \<not> geo_pending s'"
  by (auto simp: on_geo_def refreshData_def split: if_splits)

lemma on_geo_requests:
  "on_geo a s = Some s' \<Longrightarrow>
     effects s' = effects s @
       [Sent (next_tid s) (GetListings (lat (resolve a)) (lng (resolve a)) nearby_radius),
        Sent (next_tid s) (GetUrgentNearby (lat (resolve a)) (lng (resolve a)) nearby_radius)]"
  by (auto simp: on_geo_def refreshData_def split: if_splits)

end
