(* ===== verification/Lifecycle.thy ===== *)
theory Lifecycle
  imports Refresh
begin

text \<open>
  The listing and urgent-need lifecycle (\<^verbatim>\<open>App.js\<close>, lines 151 to 189): the handlers
  that create a listing or an urgent need, post a reaction and change the status of a
  listing, each with the part that runs at the event (named as in the source) and the
  part that runs when its request has settled. The two creating handlers have no
  \<^verbatim>\<open>try\<close>: a rejection leaves them as an unhandled rejection and changes nothing.
  The other two log the error. All four call \<^verbatim>\<open>refreshData\<close> without an argument
  after a success, so the refresh uses the coordinates of the render the handler was
  created in. The inline handlers of the two forms (lines 293 to 326 and 378 to 397) are
  the \<open>set_\<close> functions.
\<close>

section \<open>Creating\<close>

definition handleCreateListing :: "sys \<Rightarrow> sys" where
  "handleCreateListing s =
     (case coords (dash s) of
        None \<Rightarrow> s
      | Some c \<Rightarrow>
          suspend (CreateListing (form (dash s)) c)
            [PostListing (form (dash s)) (lat c) (lng c)] s)"

definition listing_created :: "nat \<Rightarrow> listing_form \<Rightarrow> latlng \<Rightarrow> unit outcome \<Rightarrow> sys \<Rightarrow> sys" where
  "listing_created tid f c out s =
     (case out of
        Resolved u \<Rightarrow>
          refreshData (Some c)
            (setState (\<lambda>d. d\<lparr>form := f\<lparr>f_title := '''', f_description := ''''\<rparr>\<rparr>) (finish tid s))
      | Rejected e \<Rightarrow> emit (Unhandled e) (finish tid s))"

definition handleCreateUrgent :: "sys \<Rightarrow> sys" where
  "handleCreateUrgent s =
     (case coords (dash s) of
        None \<Rightarrow> s
      | Some c \<Rightarrow>
          suspend (CreateUrgent (urgentForm (dash s)) c)
            [PostUrgent (urgentForm (dash s)) (lat c) (lng c)] s)"

definition urgent_created :: "nat \<Rightarrow> urgent_form \<Rightarrow> latlng \<Rightarrow> unit outcome \<Rightarrow> sys \<Rightarrow> sys" where
  "urgent_created tid f c out s =
     (case out of
        Resolved u \<Rightarrow>
          refreshData (Some c)
            (setState (\<lambda>d. d\<lparr>urgentForm := f\<lparr>uf_title := '''', uf_description := ''''\<rparr>\<rparr>)
              (finish tid s))
      | Rejected e \<Rightarrow> emit (Unhandled e) (finish tid s))"

section \<open>Reacting and changing a status\<close>

definition handleReaction :: "string \<Rightarrow> ident \<Rightarrow> sys \<Rightarrow> sys" where
  "handleReaction ty listingId s =
     suspend (React (coords (dash s))) [PostReaction (to_string_id listingId) ty] s"

definition reaction_posted :: "nat \<Rightarrow> latlng option \<Rightarrow> unit outcome \<Rightarrow> sys \<Rightarrow> sys" where
  "reaction_posted tid c out s =
     (case out of
        Resolved u \<Rightarrow> refreshData c (finish tid s)
      | Rejected e \<Rightarrow> emit (ConsoleError e) (finish tid s))"

definition handleUpdateStatus :: "ident \<Rightarrow> string \<Rightarrow> sys \<Rightarrow> sys" where
  "handleUpdateStatus listingId newStatus s =
     suspend (UpdateStatus (coords (dash s)))
       [PatchListing (to_string_id listingId) newStatus] s"

definition status_updated :: "nat \<Rightarrow> latlng option \<Rightarrow> unit outcome \<Rightarrow> sys \<Rightarrow> sys" where
  "status_updated tid c out s =
     (case out of
        Resolved u \<Rightarrow> refreshData c (finish tid s)
      | Rejected e \<Rightarrow> emit (ConsoleError e) (finish tid s))"

definition handleLogout :: "sys \<Rightarrow> sys" where
  "handleLogout s = emit SignOut s"

section \<open>Editing the forms\<close>

definition set_form_title :: "string \<Rightarrow> sys \<Rightarrow> sys" where
  "set_form_title v = setState (\<lambda>d. d\<lparr>form := (form d)\<lparr>f_title := v\<rparr>\<rparr>)"

definition set_form_description :: "string \<Rightarrow> sys \<Rightarrow> sys" where
  "set_form_description v = setState (\<lambda>d. d\<lparr>form := (form d)\<lparr>f_description := v\<rparr>\<rparr>)"

definition set_form_type :: "string \<Rightarrow> sys \<Rightarrow> sys" where
  "set_form_type v = setState (\<lambda>d. d\<lparr>form := (form d)\<lparr>f_type := v\<rparr>\<rparr>)"

definition set_form_is_free :: "bool \<Rightarrow> sys \<Rightarrow> sys" where
  "set_form_is_free v = setState (\<lambda>d. d\<lparr>form := (form d)\<lparr>f_is_free := v\<rparr>\<rparr>)"

definition set_form_is_trade :: "bool \<Rightarrow> sys \<Rightarrow> sys" where
  "set_form_is_trade v = setState (\<lambda>d. d\<lparr>form := (form d)\<lparr>f_is_trade := v\<rparr>\<rparr>)"

definition set_urgent_title :: "string \<Rightarrow> sys \<Rightarrow> sys" where
  "set_urgent_title v = setState (\<lambda>d. d\<lparr>urgentForm := (urgentForm d)\<lparr>uf_title := v\<rparr>\<rparr>)"

definition set_urgent_description :: "string \<Rightarrow> sys \<Rightarrow> sys" where
  "set_urgent_description v =
     setState (\<lambda>d. d\<lparr>urgentForm := (urgentForm d)\<lparr>uf_description := v\<rparr>\<rparr>)"

definition set_urgent_radius :: "real \<Rightarrow> sys \<Rightarrow> sys" where
  "set_urgent_radius v = setState (\<lambda>d. d\<lparr>urgentForm := (urgentForm d)\<lparr>uf_radius_km := v\<rparr>\<rparr>)"

lemmas lifecycle_defs =
  handleCreateListing_def listing_created_def handleCreateUrgent_def urgent_created_def
  handleReaction_def reaction_posted_def handleUpdateStatus_def status_updated_def
  handleLogout_def

lemmas form_defs =
  set_form_title_def set_form_description_def set_form_type_def set_form_is_free_def
  set_form_is_trade_def set_urgent_title_def set_urgent_description_def set_urgent_radius_def

lemmas [handler_defs] = lifecycle_defs form_defs

end
