(* ===== verification/Matching.thy ===== *)
theory Matching
  imports Session
begin

text \<open>
  The matching workflow (\<^verbatim>\<open>App.js\<close>, lines 206 to 226, and the dialogue of lines 419
  to 449): asking for the user's own listings that match an urgent need, showing them in
  a dialogue, and sending one of them as the response. \<open>modal\<close> is the condition
  under which the dialogue is rendered, with the list it shows.
\<close>

section \<open>Handlers\<close>

definition could_not_load :: string where
  "could_not_load = ''Could not load your listings. Make sure you have active listings.''"

definition response_sent :: string where
  "response_sent = ''Response sent! The requester will see your listing.''"

definition failed_to_send :: string where
  "failed_to_send = ''Failed to send response.''"

definition handleGetMatchingListings :: "ident \<Rightarrow> sys \<Rightarrow> sys" where
  "handleGetMatchingListings urgentId s =
     suspend (Matching urgentId (matchingListings (dash s)))
       [GetMatchingListings (to_string_id urgentId)] s"

definition matching_loaded ::
  "nat \<Rightarrow> ident \<Rightarrow> (string \<rightharpoonup> listing list) \<Rightarrow> listing list outcome \<Rightarrow> sys \<Rightarrow> sys" where
  "matching_loaded tid urgentId m out s =
     (case out of
        Resolved ls \<Rightarrow>
          setState (\<lambda>d. d\<lparr>matchingListings := m(to_string_id urgentId \<mapsto> ls),
            showRespondModal := Some urgentId\<rparr>) (finish tid s)
      | Rejected e \<Rightarrow> emit (Alert could_not_load) (emit (ConsoleError e) (finish tid s)))"

definition handleRespondWithListing :: "ident \<Rightarrow> ident \<Rightarrow> sys \<Rightarrow> sys" where
  "handleRespondWithListing urgentId listingId s =
     suspend Respond [PostRespondWithListing (to_string_id urgentId) listingId] s"

definition responded :: "nat \<Rightarrow> unit outcome \<Rightarrow> sys \<Rightarrow> sys" where
  "responded tid out s =
     (case out of
        Resolved u \<Rightarrow>
          emit (Alert response_sent) (setState (\<lambda>d. d\<lparr>showRespondModal := None\<rparr>) (finish tid s))
      | Rejected e \<Rightarrow> emit (Alert failed_to_send) (emit (ConsoleError e) (finish tid s)))"

definition close_modal :: "sys \<Rightarrow> sys" where
  "close_modal = setState (\<lambda>d. d\<lparr>showRespondModal := None\<rparr>)"

definition on_matching :: "nat \<Rightarrow> listing list outcome \<Rightarrow> sys \<Rightarrow> sys option" where
  "on_matching tid out s =
     (case tasks s tid of
        Some (Matching urgentId m) \<Rightarrow> Some (matching_loaded tid urgentId m out s)
      | _ \<Rightarrow> None)"

section \<open>The dialogue\<close>

text \<open>
  Line 419: the dialogue is rendered when \<^verbatim>\<open>showRespondModal\<close> is truthy and
  \<^verbatim>\<open>matchingListings\<close> has an entry under it. An array is truthy even when empty, so
  an empty list of candidates is shown as such. \<open>modal\<close> is the urgent need the
  dialogue is open for and the candidates it lists.
\<close>

definition modal :: "dashboard \<Rightarrow> (ident \<times> listing list) option" where
  "modal d =
     (case showRespondModal d of
        None \<Rightarrow> None
      | Some u \<Rightarrow>
          if truthy_id u then
            (case matchingListings d (to_string_id u) of None \<Rightarrow> None | Some ls \<Rightarrow> Some (u, ls))
          else None)"

lemmas matching_defs =
  handleGetMatchingListings_def matching_loaded_def handleRespondWithListing_def responded_def
  close_modal_def on_matching_def could_not_load_def response_sent_def failed_to_send_def

lemmas [handler_defs] = matching_defs

lemma modal_Some_iff:
  "modal d = Some (u, ls) \<longleftrightarrow>
     showRespondModal d = Some u \<and> truthy_id u \<and> matchingListings d (to_string_id u) = Some ls"
  by (auto simp: modal_def split: option.splits)

lemma modal_closed [simp]: "showRespondModal d = None \<Longrightarrow> modal d = None"
  by (simp add: modal_def)

lemma modal_cong:
  "showRespondModal d' = showRespondModal d \<Longrightarrow> matchingListings d' = matchingListings d \<Longrightarrow>
     modal d' = modal d"
  by (auto simp: modal_def split: option.splits)

lemma modal_opened:
  "modal (d\<lparr>matchingListings := m(to_string_id u \<mapsto> ls), showRespondModal := Some u\<rparr>) =
     (if truthy_id u then Some (u, ls) else None)"
  by (simp add: modal_def)

end
