(* ===== verification/Chatbot.thy ===== *)
theory Chatbot
  imports Session
begin

text \<open>
  The chatbot client (\<^verbatim>\<open>App.js\<close>, lines 191 to 204, with the panel of lines 233 to
  285): the query is sent as typed, with the coordinates, unless it is blank after
  trimming or the coordinates are not there yet; the answer is stored as it comes.
  \<open>shown_suggestions\<close> and \<open>shown_links\<close> are the two lists of the answer as the panel
  renders them: each only when present and not empty.
\<close>

definition handleChatbotQuery :: "sys \<Rightarrow> sys" where
  "handleChatbotQuery s =
     (if js_trim (chatbotQuery (dash s)) = [] \<or> coords (dash s) = None then s
      else case coords (dash s) of
             None \<Rightarrow> s
           | Some c \<Rightarrow> suspend Chatbot [PostChatbot (chatbotQuery (dash s)) (lat c) (lng c)] s)"

definition chatbot_answered :: "nat \<Rightarrow> chatbot_response outcome \<Rightarrow> sys \<Rightarrow> sys" where
  "chatbot_answered tid out s =
     (case out of
        Resolved r \<Rightarrow> setState (\<lambda>d. d\<lparr>chatbotResponse := Some r\<rparr>) (finish tid s)
      | Rejected e \<Rightarrow> emit (ConsoleError e) (finish tid s))"

definition on_chatbot :: "nat \<Rightarrow> chatbot_response outcome \<Rightarrow> sys \<Rightarrow> sys option" where
  "on_chatbot tid out s =
     (case tasks s tid of
        Some Chatbot \<Rightarrow> Some (chatbot_answered tid out s)
      | _ \<Rightarrow> None)"

definition toggle_chatbot :: "sys \<Rightarrow> sys" where
  "toggle_chatbot = setState (\<lambda>d. d\<lparr>showChatbot := \<not> showChatbot d\<rparr>)"

definition set_chatbot_query :: "string \<Rightarrow> sys \<Rightarrow> sys" where
  "set_chatbot_query v = setState (\<lambda>d. d\<lparr>chatbotQuery := v\<rparr>)"

definition shown_suggestions :: "chatbot_response \<Rightarrow> suggestion list" where
  "shown_suggestions r = (case suggestions r of None \<Rightarrow> [] | Some xs \<Rightarrow> xs)"

definition shown_links :: "chatbot_response \<Rightarrow> external_link list" where
  "shown_links r = (case external_links r of None \<Rightarrow> [] | Some xs \<Rightarrow> xs)"

lemmas chatbot_defs =
  handleChatbotQuery_def chatbot_answered_def on_chatbot_def toggle_chatbot_def
  set_chatbot_query_def

lemmas [handler_defs] = chatbot_defs

end
