(* ===== verification/View.thy ===== *)
theory View
  imports Matching Chatbot
begin

text \<open>
  What a state shows and which controls it offers: the parts of the JSX of
  \<^verbatim>\<open>Dashboard\<close> (\<^verbatim>\<open>App.js\<close>, lines 228 to 453) that decide something.
  \<^item> \<open>shown_counts\<close>: the counters of a listing card, with the default of line 334.
  \<^item> \<open>status_actions\<close>: the two status buttons are rendered for an active listing only
    (line 356).
  \<^item> \<open>listing_form_valid\<close>, \<open>urgent_form_valid\<close>: a form is submitted only when the
    browser's validation of its \<^verbatim>\<open>required\<close>, \<^verbatim>\<open>min\<close>, \<^verbatim>\<open>max\<close> and \<^verbatim>\<open>step\<close>
    attributes passes (lines 294, 300, 379, 385 and 391 to 393).
  \<^item> \<open>listing_types\<close>: the options of the type selector (lines 308 to 310).
\<close>

definition shown_counts :: "dashboard \<Rightarrow> listing \<Rightarrow> counts" where
  "shown_counts d l = (case reactions d (listing_key l) of None \<Rightarrow> zero_counts | Some c \<Rightarrow> c)"

definition status_actions :: "listing \<Rightarrow> bool" where
  "status_actions l \<longleftrightarrow> l_status l = ''active''"

definition listing_types :: "string list" where
  "listing_types = [''offer'', ''request'', ''skill'']"

definition listing_form_valid :: "listing_form \<Rightarrow> bool" where
  "listing_form_valid f \<longleftrightarrow> f_title f \<noteq> [] \<and> f_description f \<noteq> []"

text \<open>
  The radius field has \<^verbatim>\<open>min="0.5" max="10" step="0.5"\<close>: a value is valid when it is
  in the range and a whole number of steps above the minimum.
\<close>

definition radius_valid :: "real \<Rightarrow> bool" where
  "radius_valid r \<longleftrightarrow> 0.5 \<le> r \<and> r \<le> 10 \<and> real_of_int \<lfloor>2 * r\<rfloor> = 2 * r"

definition urgent_form_valid :: "urgent_form \<Rightarrow> bool" where
  "urgent_form_valid f \<longleftrightarrow>
     uf_title f \<noteq> [] \<and> uf_description f \<noteq> [] \<and> radius_valid (uf_radius_km f)"

lemmas view_defs =
  shown_counts_def status_actions_def listing_types_def listing_form_valid_def
  radius_valid_def urgent_form_valid_def modal_def

lemma initial_radius_valid: "radius_valid (uf_radius_km initial_urgent_form)"
  by (simp add: radius_valid_def initial_urgent_form_def)

end
