(* ===== verification/Client.thy ===== *)
theory Client
  imports Location Lifecycle View
begin

text \<open>
  The whole \<^verbatim>\<open>Dashboard\<close> as one machine. An \<open>event\<close> is anything that makes code of
  the component run: the answer of the geolocation service, a request of a suspended
  handler settling, or an action of the user on a control. The user's events are those
  the JSX of lines 228 to 453 binds a handler to, each enabled when its control is
  rendered. \<open>step\<close> runs the code bound to an event: it is \<open>None\<close> when the event cannot
  happen in the state (the control is not there, no such request is in flight).
  \<open>run\<close> is a sequence of events; \<open>reachable\<close> the states the mounted component can
  get to. Nothing orders events other than this: requests settle in any order.
\<close>

section \<open>Events\<close>

datatype event =
    Geo geo_answer
  | ListingsSettled nat "listing list outcome"
  | UrgentSettled nat "urgent_need list outcome"
  | ReactionsSettled nat "reaction list outcome"
  | MatchingSettled nat "listing list outcome"
  | ChatbotSettled nat "chatbot_response outcome"
  | PostSettled nat "unit outcome"
  | ToggleChatbot
  | SetChatbotQuery string
  | SubmitChatbot
  | SetFormTitle string
  | SetFormDescription string
  | SetFormType string
  | SetFormIsFree bool
  | SetFormIsTrade bool
  | SubmitListing
  | SetUrgentTitle string
  | SetUrgentDescription string
  | SetUrgentRadius real
  | SubmitUrgent
  | ClickReaction string ident
  | ClickStatus ident status_change
  | ClickRespond ident
  | ClickUseListing ident
  | CloseModal
  | ClickLogout

text \<open>
  A request whose answer the client does not read (every \<^verbatim>\<open>apiPost\<close> but the
  chatbot's) settles as \<open>PostSettled\<close>; the handler that waits for it decides what
  happens.
\<close>

definition on_post :: "nat \<Rightarrow> unit outcome \<Rightarrow> sys \<Rightarrow> sys option" where
  "on_post tid out s =
     (case tasks s tid of
        Some (CreateListing f c) \<Rightarrow> Some (listing_created tid f c out s)
      | Some (CreateUrgent f c) \<Rightarrow> Some (urgent_created tid f c out s)
      | Some (React c) \<Rightarrow> Some (reaction_posted tid c out s)
      | Some (UpdateStatus c) \<Rightarrow> Some (status_updated tid c out s)
      | Some Respond \<Rightarrow> Some (responded tid out s)
      | _ \<Rightarrow> None)"

definition guard :: "bool \<Rightarrow> sys \<Rightarrow> sys option" where
  "guard b s = (if b then Some s else None)"

fun step :: "sys \<Rightarrow> event \<Rightarrow> sys option" where
  "step s (Geo a) = on_geo a s"
| "step s (ListingsSettled tid out) = on_listings tid out s"
| "step s (UrgentSettled tid out) = on_urgent tid out s"
| "step s (ReactionsSettled tid out) = on_reactions tid out s"
| "step s (MatchingSettled tid out) = on_matching tid out s"
| "step s (ChatbotSettled tid out) = on_chatbot tid out s"
| "step s (PostSettled tid out) = on_post tid out s"
| "step s ToggleChatbot = Some (toggle_chatbot s)"
| "step s (SetChatbotQuery v) = guard (showChatbot (dash s)) (set_chatbot_query v s)"
| "step s SubmitChatbot = guard (showChatbot (dash s)) (handleChatbotQuery s)"
| "step s (SetFormTitle v) = Some (set_form_title v s)"
| "step s (SetFormDescription v) = Some (set_form_description v s)"
| "step s (SetFormType v) = guard (v \<in> set listing_types) (set_form_type v s)"
| "step s (SetFormIsFree v) = Some (set_form_is_free v s)"
| "step s (SetFormIsTrade v) = Some (set_form_is_trade v s)"
| "step s SubmitListing = guard (listing_form_valid (form (dash s))) (handleCreateListing s)"
| "step s (SetUrgentTitle v) = Some (set_urgent_title v s)"
| "step s (SetUrgentDescription v) = Some (set_urgent_description v s)"
| "step s (SetUrgentRadius v) = Some (set_urgent_radius v s)"
| "step s SubmitUrgent = guard (urgent_form_valid (urgentForm (dash s))) (handleCreateUrgent s)"
| "step s (ClickReaction ty lid) =
     guard (ty \<in> set known_types \<and> lid \<in> l_id ` set (listings (dash s)))
       (handleReaction ty lid s)"
| "step s (ClickStatus lid st) =
     guard (\<exists>l \<in> set (listings (dash s)). l_id l = lid \<and> status_actions l)
       (handleUpdateStatus lid (status_name st) s)"
| "step s (ClickRespond uid) =
     guard (uid \<in> u_id ` set (urgent (dash s))) (handleGetMatchingListings uid s)"
| "step s (ClickUseListing lid) =
     (case modal (dash s) of
        None \<Rightarrow> None
      | Some (u, ls) \<Rightarrow> guard (lid \<in> l_id ` set ls) (handleRespondWithListing u lid s))"
| "step s CloseModal = guard (modal (dash s) \<noteq> None) (close_modal s)"
| "step s ClickLogout = Some (handleLogout s)"

fun run :: "sys \<Rightarrow> event list \<Rightarrow> sys option" where
  "run s [] = Some s"
| "run s (e # es) = (case step s e of None \<Rightarrow> None | Some s' \<Rightarrow> run s' es)"

text \<open>
  The events by what causes them: the device, the backend (a request settles), the user
  editing a field or a switch, the user starting a handler.
\<close>

datatype cause = Device | Backend | Edit | Action

fun cause_of :: "event \<Rightarrow> cause" where
  "cause_of (Geo a) = Device"
| "cause_of (ListingsSettled tid out) = Backend"
| "cause_of (UrgentSettled tid out) = Backend"
| "cause_of (ReactionsSettled tid out) = Backend"
| "cause_of (MatchingSettled tid out) = Backend"
| "cause_of (ChatbotSettled tid out) = Backend"
| "cause_of (PostSettled tid out) = Backend"
| "cause_of ToggleChatbot = Edit"
| "cause_of (SetChatbotQuery v) = Edit"
| "cause_of (SetFormTitle v) = Edit"
| "cause_of (SetFormDescription v) = Edit"
| "cause_of (SetFormType v) = Edit"
| "cause_of (SetFormIsFree v) = Edit"
| "cause_of (SetFormIsTrade v) = Edit"
| "cause_of (SetUrgentTitle v) = Edit"
| "cause_of (SetUrgentDescription v) = Edit"
| "cause_of (SetUrgentRadius v) = Edit"
| "cause_of CloseModal = Edit"
| "cause_of e = Action"

definition user_event :: "event \<Rightarrow> bool" where
  "user_event e \<longleftrightarrow> cause_of e = Edit \<or> cause_of e = Action"

inductive reachable :: "sys \<Rightarrow> bool" where
  start: "reachable mounted"
| after: "reachable s \<Longrightarrow> step s e = Some s' \<Longrightarrow> reachable s'"

lemmas [handler_defs] = on_post_def guard_def

section \<open>Runs\<close>

lemma guard_Some_iff [simp]: "guard b s = Some s' \<longleftrightarrow> b \<and> s' = s"
  by (auto simp: guard_def)

lemma guard_True [simp]: "guard True s = Some s"
  by (simp add: guard_def)

lemma run_append:
  "run s (es @ es') = (case run s es of None \<Rightarrow> None | Some s' \<Rightarrow> run s' es')"
  by (induction es arbitrary: s) (auto split: option.splits)

lemma run_snoc:
  "run s (es @ [e]) = (case run s es of None \<Rightarrow> None | Some s' \<Rightarrow> step s' e)"
  by (simp add: run_append split: option.splits)

lemma run_reachable: "reachable s \<Longrightarrow> run s es = Some s' \<Longrightarrow> reachable s'"
  by (induction es arbitrary: s) (auto split: option.splits intro: reachable.after)

lemma reachable_run: "reachable s \<Longrightarrow> \<exists>es. run mounted es = Some s"
proof (induction rule: reachable.induct)
  case start
  have "run mounted [] = Some mounted" by simp
  then show ?case by blast
next
  case (after s e s')
  then obtain es where "run mounted es = Some s" by blast
  with after.hyps(2) have "run mounted (es @ [e]) = Some s'" by (simp add: run_snoc)
  then show ?case by blast
qed

lemma reachable_iff_run: "reachable s \<longleftrightarrow> (\<exists>es. run mounted es = Some s)"
  by (blast intro: reachable_run run_reachable reachable.start)

lemma run_map_reactions:
  "run s (map (ReactionsSettled tid) outs) = feed_reactions tid outs s"
  by (induction outs arbitrary: s) (auto split: option.splits)

section \<open>What an event leaves unchanged\<close>

lemma refresh_coords [simp]:
  "coords (dash (refreshData c s)) = coords (dash s)"
  "coords (dash (refresh_loop tid rest m s)) = coords (dash s)"
  "coords (dash (refresh_loaded tid ls us s)) = coords (dash s)"
  by (simp_all add: refreshData_def refresh_loop_def refresh_loaded_def
      split: option.splits list.splits)

text \<open>An edit changes fields of the forms, the chatbot panel or the dialogue, and no more.\<close>

lemma edit_frame:
  assumes "step s e = Some s'" and "cause_of e = Edit"
  shows "tasks s' = tasks s" and "next_tid s' = next_tid s" and "effects s' = effects s"
    and "geo_pending s' = geo_pending s" and "coords (dash s') = coords (dash s)"
    and "listings (dash s') = listings (dash s)" and "urgent (dash s') = urgent (dash s)"
    and "reactions (dash s') = reactions (dash s)"
  using assms
  by (cases e; auto simp: form_defs toggle_chatbot_def set_chatbot_query_def close_modal_def)+

lemma backend_coords:
  assumes "step s e = Some s'" and "cause_of e = Backend"
  shows "coords (dash s') = coords (dash s)"
  using assms
  by (cases e)
    (auto simp: on_listings_def on_urgent_def on_reactions_def on_matching_def on_chatbot_def
      on_post_def matching_loaded_def chatbot_answered_def listing_created_def
      urgent_created_def reaction_posted_def status_updated_def responded_def
      split: option.splits task.splits gathered.splits nearby.splits if_splits list.splits
        outcome.splits)

lemma action_coords:
  assumes "step s e = Some s'" and "cause_of e = Action"
  shows "coords (dash s') = coords (dash s)"
  using assms
  by (cases e)
    (auto simp: handleChatbotQuery_def handleCreateListing_def handleCreateUrgent_def
      handleReaction_def handleUpdateStatus_def handleGetMatchingListings_def
      handleRespondWithListing_def handleLogout_def split: option.splits)

lemma device_event: "cause_of e = Device \<Longrightarrow> \<exists>a. e = Geo a"
  by (cases e) simp_all

end
