(* ===== verification/Invariants.thy ===== *)
theory Invariants
  imports Client
begin

text \<open>
  What holds in every state the mounted \<^verbatim>\<open>Dashboard\<close> can reach. \<open>dash_ok\<close> is about
  the component state, \<open>task_ok\<close> about a suspended handler and the values it captured,
  \<open>request_ok\<close> about a request that has been sent; \<open>session_inv\<close> puts them together
  with the coordinates: before the location is known nothing is in flight and nothing
  has been sent, afterwards every captured coordinate and every coordinate sent is the
  resolved one. The proof follows the code: one lemma per primitive of \<open>Session\<close>, one
  per handler built from those, one per cause of an event, and rule induction over
  \<open>reachable\<close>.
\<close>

section \<open>The invariant\<close>

definition dash_ok :: "dashboard \<Rightarrow> bool" where
  "dash_ok d \<longleftrightarrow>
     f_type (form d) \<in> set listing_types \<and>
     (\<forall>k c. reactions d k = Some c \<longrightarrow> counts_wf c) \<and>
     (\<forall>u. showRespondModal d = Some u \<longrightarrow> matchingListings d (to_string_id u) \<noteq> None) \<and>
     (coords d = None \<longrightarrow> listings d = [] \<and> urgent d = [] \<and> showRespondModal d = None)"

fun task_ok :: "latlng \<Rightarrow> task \<Rightarrow> bool" where
  "task_ok p (RefreshAll g) \<longleftrightarrow> fst_pending g \<or> snd_pending g"
| "task_ok p (RefreshLoop rest m) \<longleftrightarrow> rest \<noteq> [] \<and> (\<forall>k c. m k = Some c \<longrightarrow> counts_wf c)"
| "task_ok p (CreateListing f c) \<longleftrightarrow> c = p \<and> f_type f \<in> set listing_types"
| "task_ok p (CreateUrgent f c) \<longleftrightarrow> c = p"
| "task_ok p (React c) \<longleftrightarrow> c = Some p"
| "task_ok p (UpdateStatus c) \<longleftrightarrow> c = Some p"
| "task_ok p t \<longleftrightarrow> True"

fun request_ok :: "latlng \<Rightarrow> request \<Rightarrow> bool" where
  "request_ok p (GetListings la lo r) \<longleftrightarrow> la = lat p \<and> lo = lng p \<and> r = nearby_radius"
| "request_ok p (GetUrgentNearby la lo r) \<longleftrightarrow> la = lat p \<and> lo = lng p \<and> r = nearby_radius"
| "request_ok p (PostListing f la lo) \<longleftrightarrow>
     la = lat p \<and> lo = lng p \<and> listing_form_valid f \<and> f_type f \<in> set listing_types"
| "request_ok p (PostUrgent f la lo) \<longleftrightarrow> la = lat p \<and> lo = lng p \<and> urgent_form_valid f"
| "request_ok p (PostReaction k ty) \<longleftrightarrow> ty \<in> set known_types"
| "request_ok p (PatchListing k st) \<longleftrightarrow> st = ''reserved'' \<or> st = ''completed''"
| "request_ok p (PostChatbot q la lo) \<longleftrightarrow> la = lat p \<and> lo = lng p \<and> js_trim q \<noteq> []"
| "request_ok p r \<longleftrightarrow> True"

definition session_inv :: "sys \<Rightarrow> bool" where
  "session_inv s \<longleftrightarrow>
     dash_ok (dash s) \<and> (geo_pending s \<longleftrightarrow> coords (dash s) = None) \<and>
     (case coords (dash s) of
        None \<Rightarrow> tasks s = Map.empty \<and> requests_of (effects s) = []
      | Some p \<Rightarrow>
          (\<forall>tid t. tasks s tid = Some t \<longrightarrow> tid < next_tid s \<and> task_ok p t) \<and>
          list_all (request_ok p) (requests_of (effects s)))"

section \<open>The primitives keep it\<close>

lemma sinv_mounted: "session_inv mounted"
  by (simp add: session_inv_def dash_ok_def initial_form_def listing_types_def)

lemma sinv_task:
  "session_inv s \<Longrightarrow> tasks s tid = Some t \<Longrightarrow>
     \<exists>p. coords (dash s) = Some p \<and> task_ok p t \<and> tid < next_tid s"
  by (cases "coords (dash s)") (auto simp: session_inv_def)

lemma sinv_fresh: "session_inv s \<Longrightarrow> tasks s (next_tid s) = None"
  using sinv_task [of s "next_tid s"] by (cases "tasks s (next_tid s)") auto

lemma sinv_finish: "session_inv s \<Longrightarrow> session_inv (finish tid s)"
  by (auto simp: session_inv_def split: option.splits)

lemma sinv_emit: "session_inv s \<Longrightarrow> requests_of [e] = [] \<Longrightarrow> session_inv (emit e s)"
  by (auto simp: session_inv_def split: option.splits)

lemma sinv_setState:
  "session_inv s \<Longrightarrow> dash_ok (f (dash s)) \<Longrightarrow> coords (f (dash s)) = coords (dash s) \<Longrightarrow>
     session_inv (setState f s)"
  by (auto simp: session_inv_def split: option.splits)

lemma sinv_suspend:
  "session_inv s \<Longrightarrow> coords (dash s) = Some p \<Longrightarrow> task_ok p t \<Longrightarrow> list_all (request_ok p) rs \<Longrightarrow>
     session_inv (suspend t rs s)"
  by (auto simp: session_inv_def less_Suc_eq)

lemma sinv_resuspend:
  "session_inv s \<Longrightarrow> coords (dash s) = Some p \<Longrightarrow> tasks s tid = Some t0 \<Longrightarrow> task_ok p t \<Longrightarrow>
     list_all (request_ok p) rs \<Longrightarrow> session_inv (resuspend tid t rs s)"
  by (auto simp: session_inv_def)

lemma sinv_refreshData:
  "session_inv s \<Longrightarrow> coords (dash s) = c \<Longrightarrow> session_inv (refreshData c s)"
  by (cases c) (auto simp: refreshData_def intro!: sinv_suspend)

lemma sinv_coords_of_listing:
  "session_inv s \<Longrightarrow> l \<in> set (listings (dash s)) \<Longrightarrow> \<exists>p. coords (dash s) = Some p"
  by (cases "coords (dash s)") (auto simp: session_inv_def dash_ok_def)

lemma sinv_coords_of_urgent:
  "session_inv s \<Longrightarrow> u \<in> set (urgent (dash s)) \<Longrightarrow> \<exists>p. coords (dash s) = Some p"
  by (cases "coords (dash s)") (auto simp: session_inv_def dash_ok_def)

lemma sinv_coords_of_modal:
  "session_inv s \<Longrightarrow> showRespondModal (dash s) = Some u \<Longrightarrow> \<exists>p. coords (dash s) = Some p"
  by (cases "coords (dash s)") (auto simp: session_inv_def dash_ok_def)

lemma sinv_dash_ok: "session_inv s \<Longrightarrow> dash_ok (dash s)"
  by (simp add: session_inv_def)

section \<open>The handlers keep it\<close>

lemma sinv_on_geo: "session_inv s \<Longrightarrow> on_geo a s = Some s' \<Longrightarrow> session_inv s'"
  by (auto simp: session_inv_def on_geo_def refreshData_def dash_ok_def split: if_splits)

lemma sinv_refresh_loop:
  assumes i: "session_inv s" and t: "tasks s tid = Some t0"
    and m: "\<forall>k c. m k = Some c \<longrightarrow> counts_wf c"
  shows "session_inv (refresh_loop tid rest m s)"
proof -
  from i t obtain p where p: "coords (dash s) = Some p" using sinv_task by blast
  show ?thesis
  proof (cases rest)
    case Nil
    from i m have "dash_ok ((dash s)\<lparr>reactions := m\<rparr>)"
      by (auto simp: session_inv_def dash_ok_def)
    with i Nil show ?thesis
      by (simp add: refresh_loop_def sinv_finish sinv_setState)
  next
    case (Cons l ls)
    with m show ?thesis
      by (simp add: refresh_loop_def sinv_resuspend [OF i p t])
  qed
qed

lemma sinv_refresh_loaded:
  assumes i: "session_inv s" and t: "tasks s tid = Some t0"
  shows "session_inv (refresh_loaded tid ls us s)"
proof -
  from i t obtain p where p: "coords (dash s) = Some p" using sinv_task by blast
  with i have "dash_ok ((dash s)\<lparr>listings := ls, urgent := us\<rparr>)"
    by (auto simp: session_inv_def dash_ok_def)
  with i have "session_inv (setState (\<lambda>d. d\<lparr>listings := ls, urgent := us\<rparr>) s)"
    by (simp add: sinv_setState)
  with t show ?thesis
    unfolding refresh_loaded_def by (intro sinv_refresh_loop) simp_all
qed

lemma sinv_refresh_rejected:
  assumes i: "session_inv s" and t: "tasks s tid = Some t0"
  shows "session_inv (refresh_rejected tid e b other s)"
proof -
  from i t obtain p where p: "coords (dash s) = Some p" using sinv_task by blast
  show ?thesis
    by (simp add: refresh_rejected_def sinv_emit sinv_finish i sinv_resuspend [OF i p t])
qed

lemma sinv_on_listings:
  assumes i: "session_inv s" and st: "on_listings tid out s = Some s'"
  shows "session_inv s'"
proof -
  from st obtain t where t: "tasks s tid = Some t"
    by (auto simp: on_listings_def split: option.splits)
  with i obtain p where p: "coords (dash s) = Some p" using sinv_task by blast
  have w: "session_inv (resuspend tid (RefreshAll g') [] s)" if "settle_fst out g = Wait g'" for g g'
    using settle_fst_Wait_pending [OF that] by (simp add: sinv_resuspend [OF i p t])
  from st t show ?thesis
    by (auto simp: on_listings_def w sinv_refresh_loaded [OF i t] sinv_refresh_rejected [OF i t]
        sinv_finish [OF i] split: task.splits gathered.splits nearby.splits if_splits)
qed

lemma sinv_on_urgent:
  assumes i: "session_inv s" and st: "on_urgent tid out s = Some s'"
  shows "session_inv s'"
proof -
  from st obtain t where t: "tasks s tid = Some t"
    by (auto simp: on_urgent_def split: option.splits)
  with i obtain p where p: "coords (dash s) = Some p" using sinv_task by blast
  have w: "session_inv (resuspend tid (RefreshAll g') [] s)" if "settle_snd out g = Wait g'" for g g'
    using settle_snd_Wait_pending [OF that] by (simp add: sinv_resuspend [OF i p t])
  from st t show ?thesis
    by (auto simp: on_urgent_def w sinv_refresh_loaded [OF i t] sinv_refresh_rejected [OF i t]
        sinv_finish [OF i] split: task.splits gathered.splits nearby.splits if_splits)
qed

lemma sinv_on_reactions:
  assumes i: "session_inv s" and st: "on_reactions tid out s = Some s'"
  shows "session_inv s'"
proof -
  from st obtain l rest m where t: "tasks s tid = Some (RefreshLoop (l # rest) m)"
    and s': "s' = refresh_loop tid rest (store_counts l out m) s"
    by (auto simp: on_reactions_def split: option.splits task.splits list.splits)
  from i t have "\<forall>k c. m k = Some c \<longrightarrow> counts_wf c"
    using sinv_task by fastforce
  then have "\<forall>k c. store_counts l out m k = Some c \<longrightarrow> counts_wf c"
    by (auto simp: store_counts_apply)
  with i t show ?thesis unfolding s' by (intro sinv_refresh_loop) simp_all
qed

lemma sinv_on_matching:
  assumes i: "session_inv s" and st: "on_matching tid out s = Some s'"
  shows "session_inv s'"
proof -
  from st obtain u m where t: "tasks s tid = Some (Matching u m)"
    and s': "s' = matching_loaded tid u m out s"
    by (auto simp: on_matching_def split: option.splits task.splits)
  from i t obtain p where p: "coords (dash s) = Some p" using sinv_task by blast
  show ?thesis
  proof (cases out)
    case (Resolved ls)
    from i p have "dash_ok ((dash s)\<lparr>matchingListings := m(to_string_id u \<mapsto> ls),
        showRespondModal := Some u\<rparr>)"
      by (auto simp: session_inv_def dash_ok_def)
    with i Resolved show ?thesis
      unfolding s' by (simp add: matching_loaded_def sinv_setState sinv_finish)
  next
    case (Rejected e)
    with i show ?thesis
      unfolding s' by (simp add: matching_loaded_def sinv_emit sinv_finish)
  qed
qed

lemma sinv_on_chatbot:
  assumes i: "session_inv s" and st: "on_chatbot tid out s = Some s'"
  shows "session_inv s'"
proof -
  from st have s': "s' = chatbot_answered tid out s"
    by (auto simp: on_chatbot_def split: option.splits task.splits)
  have "dash_ok ((dash s)\<lparr>chatbotResponse := Some r\<rparr>)" for r
    using i by (auto simp: session_inv_def dash_ok_def)
  with i show ?thesis
    unfolding s' by (cases out) (simp_all add: chatbot_answered_def sinv_setState sinv_finish sinv_emit)
qed

lemma sinv_created:
  assumes i: "session_inv s" and p: "coords (dash s) = Some p"
    and d: "dash_ok (f (dash s))" and c: "coords (f (dash s)) = Some p"
  shows "session_inv (refreshData (Some p) (setState f (finish tid s)))"
  using i p d c by (intro sinv_refreshData sinv_setState sinv_finish) simp_all

lemma sinv_on_post:
  assumes i: "session_inv s" and st: "on_post tid out s = Some s'"
  shows "session_inv s'"
proof -
  from st obtain t where t: "tasks s tid = Some t"
    by (auto simp: on_post_def split: option.splits)
  with i obtain p where p: "coords (dash s) = Some p" and ok: "task_ok p t"
    using sinv_task by blast
  have r: "session_inv (refreshData (Some p) (finish tid s))"
    using i p by (intro sinv_refreshData sinv_finish) simp_all
  have e: "session_inv (emit x (finish tid s))" if "requests_of [x] = []" for x
    using i that by (intro sinv_emit sinv_finish)
  from i have d: "dash_ok (dash s)" by (rule sinv_dash_ok)
  show ?thesis
  proof (cases t)
    case (CreateListing f c)
    with ok d p have "dash_ok ((dash s)\<lparr>form := f\<lparr>f_title := [], f_description := []\<rparr>\<rparr>)"
      by (auto simp: dash_ok_def)
    with st t CreateListing ok i p e show ?thesis
      by (cases out) (auto simp: on_post_def listing_created_def intro!: sinv_created)
  next
    case (CreateUrgent f c)
    with d p have "dash_ok ((dash s)\<lparr>urgentForm := f\<lparr>uf_title := [], uf_description := []\<rparr>\<rparr>)"
      by (auto simp: dash_ok_def)
    with st t CreateUrgent ok i p e show ?thesis
      by (cases out) (auto simp: on_post_def urgent_created_def intro!: sinv_created)
  next
    case (React c)
    with st t ok r e show ?thesis
      by (cases out) (auto simp: on_post_def reaction_posted_def)
  next
    case (UpdateStatus c)
    with st t ok r e show ?thesis
      by (cases out) (auto simp: on_post_def status_updated_def)
  next
    case Respond
    from d p have "dash_ok ((dash s)\<lparr>showRespondModal := None\<rparr>)"
      by (auto simp: dash_ok_def)
    with st t Respond i show ?thesis
      by (cases out)
        (auto simp: on_post_def responded_def intro!: sinv_emit sinv_setState sinv_finish)
  qed (use st t in \<open>auto simp: on_post_def\<close>)
qed


lemma sinv_edit:
  assumes "session_inv s"
    and "\<And>d. dash_ok d \<Longrightarrow> dash_ok (f d)" and "\<And>d. coords (f d) = coords d"
  shows "session_inv (setState f s)"
  using assms by (intro sinv_setState) (simp_all add: sinv_dash_ok)

lemma sinv_step_backend:
  assumes "session_inv s" and "step s e = Some s'" and "cause_of e = Backend"
  shows "session_inv s'"
  using assms
  by (cases e)
    (auto intro: sinv_on_listings sinv_on_urgent sinv_on_reactions sinv_on_matching
      sinv_on_chatbot sinv_on_post)

lemma sinv_step_edit:
  assumes i: "session_inv s" and st: "step s e = Some s'" and e: "cause_of e = Edit"
  shows "session_inv s'"
proof -
  have edit: "session_inv (setState f s)"
    if "\<And>d. dash_ok d \<Longrightarrow> dash_ok (f d)" and "\<And>d. coords (f d) = coords d" for f
    using i that by (rule sinv_edit)
  from st e show ?thesis
    by (cases e)
      (auto simp: form_defs toggle_chatbot_def set_chatbot_query_def close_modal_def
        dash_ok_def intro!: edit)
qed

lemma sinv_handleGetMatchingListings:
  "session_inv s \<Longrightarrow> coords (dash s) = Some p \<Longrightarrow>
     session_inv (handleGetMatchingListings uid s)"
  unfolding handleGetMatchingListings_def by (rule sinv_suspend) simp_all

lemma sinv_step_action:
  assumes i: "session_inv s" and st: "step s e = Some s'" and e: "cause_of e = Action"
  shows "session_inv s'"
proof -
  from i have d: "dash_ok (dash s)" by (rule sinv_dash_ok)
  note located = sinv_coords_of_listing [OF i] sinv_coords_of_urgent [OF i]
    sinv_coords_of_modal [OF i]
  show ?thesis
  proof (cases e)
    case SubmitChatbot
    with i st show ?thesis
      by (auto simp: handleChatbotQuery_def split: option.splits intro!: sinv_suspend)
  next
    case SubmitListing
    with i d st show ?thesis
      by (auto simp: handleCreateListing_def dash_ok_def split: option.splits
          intro!: sinv_suspend)
  next
    case SubmitUrgent
    with i st show ?thesis
      by (auto simp: handleCreateUrgent_def split: option.splits intro!: sinv_suspend)
  next
    case (ClickReaction ty lid)
    with i st located show ?thesis
      by (fastforce simp: handleReaction_def intro!: sinv_suspend)
  next
    case (ClickStatus lid sc)
    with i st located show ?thesis
      by (cases sc) (fastforce simp: handleUpdateStatus_def intro!: sinv_suspend)+
  next
    case (ClickRespond uid)
    with st located obtain p where "coords (dash s) = Some p" by fastforce
    with i st ClickRespond show ?thesis by (auto intro: sinv_handleGetMatchingListings)
  next
    case (ClickUseListing lid)
    with i st located show ?thesis
      by (fastforce simp: handleRespondWithListing_def modal_Some_iff split: option.splits
          intro!: sinv_suspend)
  next
    case ClickLogout
    with i st show ?thesis by (auto simp: handleLogout_def intro!: sinv_emit)
  qed (use e in auto)
qed

lemma sinv_step:
  assumes "session_inv s" and "step s e = Some s'"
  shows "session_inv s'"
proof (cases "cause_of e")
  case Device
  with assms show ?thesis by (cases e) (auto intro: sinv_on_geo)
next
  case Backend
  with assms show ?thesis by (rule sinv_step_backend)
next
  case Edit
  with assms show ?thesis by (rule sinv_step_edit)
next
  case Action
  with assms show ?thesis by (rule sinv_step_action)
qed

theorem reachable_session_inv: "reachable s \<Longrightarrow> session_inv s"
  by (induction rule: reachable.induct) (auto intro: sinv_mounted sinv_step)

end
