(* ===== verification/Sync.thy ===== *)
theory Sync
  imports Invariants
begin

text \<open>
  Whole runs of \<^verbatim>\<open>refreshData\<close>: the events that answer one call, in the orders the
  backend can send them, and the state they leave. \<open>nearby_events\<close> are the answers to
  the two range queries and \<open>refresh_events\<close> those of a refresh that gets both,
  followed by one outcome per reaction query. \<open>refreshed\<close> is the contract: what the
  state is to hold when a refresh is over. The lemmas say what a run leaves when it is
  complete, when it is cut short and when a range query fails; the theorems are the
  properties of the data sync engine that follow, for one refresh and for two that
  overlap.
\<close>

section \<open>Answers to one refresh\<close>

datatype arrival = ListingsFirst | UrgentFirst

fun nearby_events :: "arrival \<Rightarrow> nat \<Rightarrow> listing list outcome \<Rightarrow> urgent_need list outcome \<Rightarrow> event list" where
  "nearby_events ListingsFirst tid lo uo = [ListingsSettled tid lo, UrgentSettled tid uo]"
| "nearby_events UrgentFirst tid lo uo = [UrgentSettled tid uo, ListingsSettled tid lo]"

text \<open>
  \<open>refresh_events a tid ls us outs\<close>: the refresh numbered \<open>tid\<close> gets the listings
  \<open>ls\<close> and the urgent needs \<open>us\<close>, then the outcomes \<open>outs\<close> of its reaction queries.
\<close>

definition refresh_events ::
  "arrival \<Rightarrow> nat \<Rightarrow> listing list \<Rightarrow> urgent_need list \<Rightarrow> reaction list outcome list \<Rightarrow> event list" where
  "refresh_events a tid ls us outs =
     nearby_events a tid (Resolved ls) (Resolved us) @ map (ReactionsSettled tid) outs"

text \<open>
  The contract of a refresh (the state it promises) and the requests it costs.
\<close>

definition refreshed ::
  "listing list \<Rightarrow> urgent_need list \<Rightarrow> reaction list outcome list \<Rightarrow> dashboard \<Rightarrow> dashboard" where
  "refreshed ls us outs d =
     d\<lparr>listings := ls, urgent := us, reactions := reactions_after ls outs Map.empty\<rparr>"

text \<open>
  The error \<^verbatim>\<open>Promise.all\<close> rejects with: that of the first rejection to arrive.
\<close>

fun nearby_error :: "arrival \<Rightarrow> 'a outcome \<Rightarrow> 'b outcome \<Rightarrow> string option" where
  "nearby_error ListingsFirst (Rejected e) uo = Some e"
| "nearby_error ListingsFirst (Resolved x) (Rejected e) = Some e"
| "nearby_error UrgentFirst lo (Rejected e) = Some e"
| "nearby_error UrgentFirst (Rejected e) (Resolved y) = Some e"
| "nearby_error a (Resolved x) (Resolved y) = None"

definition refresh_requests :: "latlng \<Rightarrow> listing list \<Rightarrow> request list" where
  "refresh_requests p ls =
     GetListings (lat p) (lng p) nearby_radius # GetUrgentNearby (lat p) (lng p) nearby_radius #
     map (\<lambda>l. GetReactions (listing_key l)) ls"

section \<open>Runs\<close>

lemma requests_of_reaction_requests [simp]:
  "requests_of (reaction_requests tid ls) = map (\<lambda>l. GetReactions (listing_key l)) ls"
  by (induction ls) simp_all

lemma nearby_run:
  assumes "tasks s tid = Some (RefreshAll (Gather None None))"
  shows "run s (nearby_events a tid (Resolved ls) (Resolved us)) = Some (refresh_loaded tid ls us s)"
proof (cases a)
  case ListingsFirst
  with assms show ?thesis
    by (cases ls) (simp_all add: on_listings_first on_urgent_second refresh_loaded_def
        refresh_loop_def prim_defs)
next
  case UrgentFirst
  with assms show ?thesis
    by (cases ls) (simp_all add: on_urgent_first on_listings_second refresh_loaded_def
        refresh_loop_def prim_defs)
qed

lemma refresh_run:
  assumes t: "tasks s tid = Some (RefreshAll (Gather None None))" and len: "length outs = length ls"
  shows "run s (refresh_events a tid ls us outs) =
     Some (s\<lparr>dash := refreshed ls us outs (dash s), tasks := (tasks s)(tid := None),
       effects := effects s @ reaction_requests tid ls\<rparr>)"
proof (cases ls)
  case Nil
  with t len show ?thesis
    by (simp add: refresh_events_def run_append nearby_run refresh_loaded_def refresh_loop_def
        refreshed_def prim_defs)
next
  case (Cons l rest)
  let ?s1 = "refresh_loaded tid ls us s"
  have t1: "tasks ?s1 tid = Some (RefreshLoop ls Map.empty)"
    by (simp add: Cons refresh_loaded_def refresh_loop_def)
  have "run s (refresh_events a tid ls us outs) = feed_reactions tid outs ?s1"
    by (simp add: refresh_events_def run_append nearby_run [OF t] run_map_reactions)
  also have "\<dots> = Some (finish tid (setState (\<lambda>d. d\<lparr>reactions := reactions_after ls outs Map.empty\<rparr>)
       (?s1\<lparr>effects := effects ?s1 @ reaction_requests tid (tl ls)\<rparr>)))"
    using t1 len by (intro feed_reactions_loop) (simp_all add: Cons)
  also have "\<dots> = Some (s\<lparr>dash := refreshed ls us outs (dash s), tasks := (tasks s)(tid := None),
       effects := effects s @ reaction_requests tid ls\<rparr>)"
    by (simp add: Cons refresh_loaded_def refresh_loop_def refreshed_def prim_defs)
  finally show ?thesis .
qed

lemma refresh_partial_run:
  assumes t: "tasks s tid = Some (RefreshAll (Gather None None))" and len: "length outs < length ls"
  shows "run s (refresh_events a tid ls us outs) =
     Some (s\<lparr>dash := (dash s)\<lparr>listings := ls, urgent := us\<rparr>,
       tasks := (tasks s)(tid \<mapsto>
         RefreshLoop (drop (length outs) ls) (reactions_after ls outs Map.empty)),
       effects := effects s @ reaction_requests tid (take (Suc (length outs)) ls)\<rparr>)"
proof -
  from len obtain l rest where ls: "ls = l # rest" by (cases ls) auto
  let ?s1 = "refresh_loaded tid ls us s"
  have t1: "tasks ?s1 tid = Some (RefreshLoop ls Map.empty)"
    by (simp add: ls refresh_loaded_def refresh_loop_def)
  have "run s (refresh_events a tid ls us outs) = feed_reactions tid outs ?s1"
    by (simp add: refresh_events_def run_append nearby_run [OF t] run_map_reactions)
  also note feed_reactions_prefix [OF t1 len]
  finally show ?thesis
    by (simp add: ls refresh_loaded_def refresh_loop_def prim_defs)
qed

section \<open>Properties of one refresh\<close>

text \<open>
  C1. A refresh on its own refines its contract. When \<^verbatim>\<open>refreshData\<close> is called with
  coordinates, both range queries are fulfilled, in either order of arrival, and every
  reaction query settles, fulfilled or rejected, the handler returns. It has then sent
  the two range queries and one reaction query per listing, in the order of the
  listings, and the state holds the listings, the urgent needs and, for each listing,
  the counters of its own outcome; nothing else of the state has changed.
\<close>

theorem refreshData_isolated:
  assumes "length outs = length ls"
  shows "run (refreshData (Some p) s) (refresh_events a (next_tid s) ls us outs) =
     Some (s\<lparr>dash := refreshed ls us outs (dash s), tasks := (tasks s)(next_tid s := None),
       next_tid := Suc (next_tid s),
       effects := effects s @ map (Sent (next_tid s)) (refresh_requests p ls)\<rparr>)"
proof -
  let ?s0 = "refreshData (Some p) s"
  have "tasks ?s0 (next_tid s) = Some (RefreshAll (Gather None None))"
    by (simp add: refreshData_def)
  from refresh_run [OF this assms] show ?thesis
    by (simp add: refreshData_def refresh_requests_def reaction_requests_def prim_defs)
qed

theorem refreshData_isolated_witness:
  "\<exists>s'. run mounted (Geo (Position 10 20) # refresh_events UrgentFirst 0
       [\<lparr>l_id = StrId ''A'', l_title = ''Ladder'', l_description = ''3 m'', l_type = ''offer'',
          l_is_free = True, l_status = ''active''\<rparr>,
        \<lparr>l_id = NumId 7, l_title = ''Drill'', l_description = '''', l_type = ''request'',
          l_is_free = False, l_status = ''reserved''\<rparr>]
       [\<lparr>u_id = NumId 1, u_title = ''Jump leads'', u_description = '''', u_radius_km = 2\<rparr>]
       [Resolved [\<lparr>reaction_type = ''like''\<rparr>, \<lparr>reaction_type = ''like''\<rparr>,
          \<lparr>reaction_type = ''helpful''\<rparr>], Rejected ''503'']) = Some s'
     \<and> reactions (dash s') ''A'' = Some (zero_counts(''like'' \<mapsto> Num 2, ''helpful'' \<mapsto> Num 1))
     \<and> reactions (dash s') ''7'' = Some zero_counts
     \<and> map l_title (listings (dash s')) = [''Ladder'', ''Drill'']
     \<and> tasks s' = Map.empty
     \<and> requests_of (effects s') = [GetListings 10 20 3, GetUrgentNearby 10 20 3,
           GetReactions ''A'', GetReactions ''7'']"
  using refreshData_isolated [of "[Resolved [\<lparr>reaction_type = ''like''\<rparr>,
      \<lparr>reaction_type = ''like''\<rparr>, \<lparr>reaction_type = ''helpful''\<rparr>], Rejected ''503'']"
      "[\<lparr>l_id = StrId ''A'', l_title = ''Ladder'', l_description = ''3 m'', l_type = ''offer'',
          l_is_free = True, l_status = ''active''\<rparr>,
        \<lparr>l_id = NumId 7, l_title = ''Drill'', l_description = '''', l_type = ''request'',
          l_is_free = False, l_status = ''reserved''\<rparr>]"
      "\<lparr>lat = 10, lng = 20\<rparr>"
      "setState (\<lambda>d. d\<lparr>coords := Some \<lparr>lat = 10, lng = 20\<rparr>\<rparr>) (mounted\<lparr>geo_pending := False\<rparr>)"
      UrgentFirst
      "[\<lparr>u_id = NumId 1, u_title = ''Jump leads'', u_description = [], u_radius_km = 2\<rparr>]"]
  by (simp add: on_geo_def refreshed_def refresh_requests_def store_counts_def listing_key_def
      counts_of_outcome_def reaction_defs nearby_radius_def show_nat.simps digit_char_def)
    (simp add: numeral_2_eq_2)

text \<open>
  Two refreshes in flight: the last to arrive wins. Whichever of two refreshes was
  started first, when all answers of one arrive before all answers of the other, the
  state that stays is the one of the refresh that was answered last. Nothing in
  \<^verbatim>\<open>refreshData\<close> tells a superseded call from the latest one.
\<close>

theorem refresh_last_arrival_wins:
  assumes t1: "tasks s t1 = Some (RefreshAll (Gather None None))"
    and t2: "tasks s t2 = Some (RefreshAll (Gather None None))" and ne: "t1 \<noteq> t2"
    and len1: "length outs1 = length ls1" and len2: "length outs2 = length ls2"
  shows "run s (refresh_events a2 t2 ls2 us2 outs2 @ refresh_events a1 t1 ls1 us1 outs1) =
     Some (s\<lparr>dash := refreshed ls1 us1 outs1 (dash s), tasks := (tasks s)(t2 := None, t1 := None),
       effects := effects s @ reaction_requests t2 ls2 @ reaction_requests t1 ls1\<rparr>)"
proof -
  let ?s2 = "s\<lparr>dash := refreshed ls2 us2 outs2 (dash s), tasks := (tasks s)(t2 := None),
       effects := effects s @ reaction_requests t2 ls2\<rparr>"
  from t1 ne have "tasks ?s2 t1 = Some (RefreshAll (Gather None None))" by simp
  from refresh_run [OF this len1] refresh_run [OF t2 len2] show ?thesis
    by (simp add: run_append refreshed_def)
qed

theorem refresh_last_arrival_wins_witness:
  "\<exists>s s'. run mounted [Geo PositionError, SetFormTitle ''Ladder'', SetFormDescription ''3 m'',
       SubmitListing, PostSettled 1 (Resolved ())] = Some s
     \<and> requests_of (effects s) = [GetListings 0 0 3, GetUrgentNearby 0 0 3,
          PostListing (initial_form\<lparr>f_title := ''Ladder'', f_description := ''3 m''\<rparr>) 0 0,
          GetListings 0 0 3, GetUrgentNearby 0 0 3]
     \<and> run s (refresh_events ListingsFirst 2
          [\<lparr>l_id = NumId 1, l_title = ''Ladder'', l_description = ''3 m'', l_type = ''offer'',
             l_is_free = True, l_status = ''active''\<rparr>] [] [Resolved []]
        @ refresh_events ListingsFirst 0 [] [] []) = Some s'
     \<and> listings (dash s') = [] \<and> tasks s' = Map.empty"
proof -
  obtain s where s: "run mounted [Geo PositionError, SetFormTitle ''Ladder'',
       SetFormDescription ''3 m'', SubmitListing, PostSettled 1 (Resolved ())] = Some s"
    and ts: "tasks s = [0 \<mapsto> RefreshAll (Gather None None), 2 \<mapsto> RefreshAll (Gather None None)]"
    and rs: "requests_of (effects s) = [GetListings 0 0 3, GetUrgentNearby 0 0 3,
          PostListing (initial_form\<lparr>f_title := ''Ladder'', f_description := ''3 m''\<rparr>) 0 0,
          GetListings 0 0 3, GetUrgentNearby 0 0 3]"
    by (simp add: handler_defs prim_defs listing_form_valid_def initial_form_def
        nearby_radius_def numeral_2_eq_2)
  from ts have "tasks s 0 = Some (RefreshAll (Gather None None))"
    and "tasks s 2 = Some (RefreshAll (Gather None None))" by simp_all
  from refresh_last_arrival_wins [OF this, of "[]" "[]" "[Resolved []]" _ ListingsFirst "[]"
      ListingsFirst "[]"] s ts rs
  show ?thesis by (auto simp: refreshed_def)
qed

text \<open>
  C3. A failed range query leaves the state as it was. When one of the two range queries
  of a refresh is rejected, whichever arrives first and whatever the other one does, the
  handler logs the first error to arrive and returns when both have settled: the
  listings, the urgent needs and the counters of the state are those of before, and no
  reaction query is sent.
\<close>

theorem nearby_failure_keeps_state:
  assumes "tasks s tid = Some (RefreshAll (Gather None None))"
    and "nearby_error a lo uo = Some e"
  shows "run s (nearby_events a tid lo uo) =
     Some (s\<lparr>tasks := (tasks s)(tid := None), effects := effects s @ [ConsoleError e]\<rparr>)"
  using assms
  by (cases "(a, lo, uo)" rule: nearby_error.cases)
    (simp_all add: on_listings_def on_urgent_def refresh_rejected_def prim_defs)

theorem nearby_failure_keeps_state_witness:
  "run (refreshData (Some fallback) mounted)
     (nearby_events UrgentFirst 0 (Rejected ''500'') (Resolved [])) =
   Some (mounted\<lparr>next_tid := 1,
     effects := [Sent 0 (GetListings 0 0 3), Sent 0 (GetUrgentNearby 0 0 3),
       ConsoleError ''500'']\<rparr>)"
  using nearby_failure_keeps_state [of "refreshData (Some fallback) mounted" 0 UrgentFirst
      "Rejected ''500''" "Resolved []" "''500''"]
  by (simp add: refreshData_def fallback_def nearby_radius_def prim_defs)

text \<open>
  C15. The replacement is not atomic, and the reaction queries go out one at a time. After
  both range queries of a refresh and the reactions of fewer listings than it returned,
  the state already shows the new listings and urgent needs, with the counters of
  before; the handler has sent one reaction query more than it has answers for, and
  waits in its loop with the counters collected so far.
\<close>

theorem refresh_in_progress:
  assumes "tasks s tid = Some (RefreshAll (Gather None None))" and "length outs < length ls"
  shows "\<exists>s'. run s (refresh_events a tid ls us outs) = Some s'
     \<and> listings (dash s') = ls \<and> urgent (dash s') = us \<and> reactions (dash s') = reactions (dash s)
     \<and> tasks s' tid = Some (RefreshLoop (drop (length outs) ls) (reactions_after ls outs Map.empty))
     \<and> requests_of (effects s') = requests_of (effects s) @
          map (\<lambda>l. GetReactions (listing_key l)) (take (Suc (length outs)) ls)"
  using refresh_partial_run [OF assms] by simp

theorem refresh_in_progress_witness:
  "\<exists>s'. run (refreshData (Some fallback) mounted) (refresh_events ListingsFirst 0
       [\<lparr>l_id = NumId 1, l_title = ''Ladder'', l_description = ''3 m'', l_type = ''offer'',
          l_is_free = True, l_status = ''active''\<rparr>,
        \<lparr>l_id = NumId 2, l_title = ''Drill'', l_description = '''', l_type = ''request'',
          l_is_free = False, l_status = ''active''\<rparr>] [] [Resolved []]) = Some s'
     \<and> map l_title (listings (dash s')) = [''Ladder'', ''Drill''] \<and> reactions (dash s') = Map.empty
     \<and> requests_of (effects s') = [GetListings 0 0 3, GetUrgentNearby 0 0 3,
          GetReactions ''1'', GetReactions ''2'']"
  using refresh_in_progress [of "refreshData (Some fallback) mounted" 0 "[Resolved []]"
      "[\<lparr>l_id = NumId 1, l_title = ''Ladder'', l_description = ''3 m'', l_type = ''offer'',
          l_is_free = True, l_status = ''active''\<rparr>,
        \<lparr>l_id = NumId 2, l_title = ''Drill'', l_description = '''', l_type = ''request'',
          l_is_free = False, l_status = ''active''\<rparr>]" ListingsFirst "[]"]
  by (auto simp: refreshData_def fallback_def nearby_radius_def prim_defs listing_key_def
      show_nat.simps digit_char_def)

end
