(* ===== verification/Scenario.thy ===== *)
theory Scenario
  imports Sync
begin

text \<open>
  A session to try the theorems on. \<open>browsing\<close> is a session on the fallback
  coordinates after its first refresh: two listings, one of them reserved, with the
  reactions of the first and a failed reaction query for the second, and two urgent
  needs, one of them with the identifier \<open>0\<close>. \<open>answering\<close> is the same session with
  the respond dialogue open for the first urgent need. Both are reachable; the lemmas
  give the events that lead to them.
\<close>

definition ladder :: listing where
  "ladder = \<lparr>l_id = NumId 1, l_title = ''Ladder'', l_description = ''3 m'', l_type = ''offer'',
     l_is_free = True, l_status = ''active''\<rparr>"

definition drill :: listing where
  "drill = \<lparr>l_id = NumId 2, l_title = ''Drill'', l_description = ''with bits'',
     l_type = ''offer'', l_is_free = False, l_status = ''reserved''\<rparr>"

definition jump_leads :: urgent_need where
  "jump_leads = \<lparr>u_id = NumId 4, u_title = ''Jump leads'', u_description = ''flat battery'',
     u_radius_km = 2\<rparr>"

definition first_aid :: urgent_need where
  "first_aid = \<lparr>u_id = NumId 0, u_title = ''Plasters'', u_description = ''cut finger'',
     u_radius_km = 1\<rparr>"

definition browsing :: sys where
  "browsing = mounted\<lparr>
     dash := initial_dashboard\<lparr>coords := Some fallback, listings := [ladder, drill],
       urgent := [jump_leads, first_aid],
       reactions := [''1'' \<mapsto> zero_counts(''like'' \<mapsto> Num 1), ''2'' \<mapsto> zero_counts]\<rparr>,
     next_tid := 1,
     effects := map (Sent 0) (refresh_requests fallback [ladder, drill]),
     geo_pending := False\<rparr>"

definition answering :: sys where
  "answering = browsing\<lparr>
     dash := (dash browsing)\<lparr>matchingListings := [''4'' \<mapsto> [ladder]],
       showRespondModal := Some (NumId 4)\<rparr>,
     next_tid := 2,
     effects := effects browsing @ [Sent 1 (GetMatchingListings ''4'')]\<rparr>"

lemmas scenario_defs =
  ladder_def drill_def jump_leads_def first_aid_def browsing_def answering_def fallback_def
  refresh_requests_def listing_key_def nearby_radius_def show_nat.simps digit_char_def

lemma browsing_run:
  "run mounted (Geo PositionError # refresh_events ListingsFirst 0 [ladder, drill]
     [jump_leads, first_aid] [Resolved [\<lparr>reaction_type = ''like''\<rparr>], Rejected ''503'']) =
   Some browsing"
  by (simp add: refresh_events_def handler_defs prim_defs scenario_defs reaction_defs)

lemma answering_run:
  "run browsing [ClickRespond (NumId 4), MatchingSettled 1 (Resolved [ladder])] = Some answering"
  by (simp add: handler_defs prim_defs scenario_defs)

lemma browsing_reachable: "reachable browsing"
  using browsing_run by (rule run_reachable [OF reachable.start])

lemma answering_reachable: "reachable answering"
  using browsing_reachable answering_run by (rule run_reachable)

lemma browsing_simps [simp]:
  "coords (dash browsing) = Some fallback"
  "listings (dash browsing) = [ladder, drill]"
  "urgent (dash browsing) = [jump_leads, first_aid]"
  "showRespondModal (dash browsing) = None"
  "form (dash browsing) = initial_form"
  "urgentForm (dash browsing) = initial_urgent_form"
  "tasks browsing = Map.empty"
  "next_tid browsing = 1"
  by (simp_all add: browsing_def)

lemma answering_simps [simp]:
  "coords (dash answering) = Some fallback"
  "listings (dash answering) = [ladder, drill]"
  "urgent (dash answering) = [jump_leads, first_aid]"
  "modal (dash answering) = Some (NumId 4, [ladder])"
  "matchingListings (dash answering) = [''4'' \<mapsto> [ladder]]"
  "showRespondModal (dash answering) = Some (NumId 4)"
  "tasks answering = Map.empty"
  "next_tid answering = 2"
  by (simp_all add: answering_def browsing_def modal_def show_nat.simps digit_char_def)

end
