(* ===== verification/Workflow.thy ===== *)
theory Workflow
  imports Scenario
begin

text \<open>
  Runs of the matching workflow: the click that asks for candidates and the answer to
  it, the click that sends a response and the answer to that, and the cancel button.
  The theorems give the dialogue (\<open>modal\<close>) after each run, for both outcomes of the
  request, and the cases in which the dialogue does not follow the urgent need the
  user is answering.
\<close>

section \<open>Runs of the two handlers\<close>

lemma open_for_run:
  assumes "uid \<in> u_id ` set (urgent (dash s))"
  shows "run s [ClickRespond uid, MatchingSettled (next_tid s) out] =
     Some (matching_loaded (next_tid s) uid (matchingListings (dash s)) out
       (handleGetMatchingListings uid s))"
  using assms by (simp add: handleGetMatchingListings_def on_matching_def)

lemma respond_run:
  assumes "modal (dash s) = Some (u, ls)" and "lid \<in> l_id ` set ls"
  shows "run s [ClickUseListing lid, PostSettled (next_tid s) out] =
     Some (responded (next_tid s) out (handleRespondWithListing u lid s))"
  using assms by (simp add: handleRespondWithListing_def on_post_def)

section \<open>Opening the dialogue\<close>

text \<open>
  C17. Opening succeeds. When the user asks to respond to an urgent need that is shown and
  the backend answers with candidates, the dialogue is open for that urgent need with
  exactly these candidates, also when there are none; one request has been sent and
  nobody has been alerted.
\<close>

theorem open_for_fulfilled:
  assumes "uid \<in> u_id ` set (urgent (dash s))" and "truthy_id uid"
  shows "\<exists>s'. run s [ClickRespond uid, MatchingSettled (next_tid s) (Resolved ls)] = Some s'
     \<and> modal (dash s') = Some (uid, ls)
     \<and> effects s' = effects s @ [Sent (next_tid s) (GetMatchingListings (to_string_id uid))]
     \<and> tasks s' = (tasks s)(next_tid s := None)"
  unfolding open_for_run [OF assms(1)] using assms(2)
  by (simp add: matching_loaded_def handleGetMatchingListings_def modal_def prim_defs)

theorem open_for_fulfilled_witness:
  "\<exists>s'. run browsing [ClickRespond (NumId 4), MatchingSettled 1 (Resolved [])] = Some s'
     \<and> modal (dash s') = Some (NumId 4, []) \<and> tasks s' = Map.empty"
  using open_for_fulfilled [of "NumId 4" browsing "[]"]
  by (auto simp: jump_leads_def)

text \<open>
  C18. Opening fails. When the query for candidates is rejected, the state of the
  component is what it was before the click, so a dialogue that was closed stays
  closed; the error is logged and the user is alerted with the advice to have active
  listings.
\<close>

theorem open_for_rejected:
  assumes "uid \<in> u_id ` set (urgent (dash s))"
  shows "run s [ClickRespond uid, MatchingSettled (next_tid s) (Rejected e)] =
     Some (s\<lparr>tasks := (tasks s)(next_tid s := None), next_tid := Suc (next_tid s),
       effects := effects s @ [Sent (next_tid s) (GetMatchingListings (to_string_id uid)),
         ConsoleError e, Alert could_not_load]\<rparr>)"
  unfolding open_for_run [OF assms]
  by (simp add: matching_loaded_def handleGetMatchingListings_def prim_defs)

theorem open_for_rejected_witness:
  "\<exists>s'. run browsing [ClickRespond (NumId 4), MatchingSettled 1 (Rejected ''500'')] = Some s'
     \<and> dash s' = dash browsing \<and> modal (dash s') = None
     \<and> effects s' = effects browsing @
          [Sent 1 (GetMatchingListings ''4''), ConsoleError ''500'', Alert could_not_load]"
  using open_for_rejected [of "NumId 4" browsing "''500''"]
  by (simp add: jump_leads_def show_nat.simps digit_char_def)

text \<open>
  C24. An urgent need whose identifier is falsy cannot be answered. For the identifier
  \<open>0\<close> or the empty string the candidates are loaded and stored like for any other,
  but the dialogue is not rendered, and nothing tells the user.
\<close>

theorem open_for_falsy:
  assumes "uid \<in> u_id ` set (urgent (dash s))" and "\<not> truthy_id uid"
  shows "\<exists>s'. run s [ClickRespond uid, MatchingSettled (next_tid s) (Resolved ls)] = Some s'
     \<and> showRespondModal (dash s') = Some uid
     \<and> matchingListings (dash s') (to_string_id uid) = Some ls
     \<and> modal (dash s') = None
     \<and> effects s' = effects s @ [Sent (next_tid s) (GetMatchingListings (to_string_id uid))]"
  unfolding open_for_run [OF assms(1)] using assms(2)
  by (simp add: matching_loaded_def handleGetMatchingListings_def modal_def prim_defs)

theorem open_for_falsy_witness:
  "\<exists>s'. run browsing [ClickRespond (NumId 0), MatchingSettled 1 (Resolved [ladder])] = Some s'
     \<and> matchingListings (dash s') ''0'' = Some [ladder] \<and> modal (dash s') = None"
  using open_for_falsy [of "NumId 0" browsing "[ladder]"]
  by (auto simp: first_aid_def show_nat.simps digit_char_def)

section \<open>Responding and closing\<close>

text \<open>
  C19. A failed response leaves the dialogue open. When the dialogue is open and the
  request that attaches the chosen listing is rejected, the dialogue is still open for
  the same urgent need with the same candidates; the error is logged and the user is
  alerted.
\<close>

theorem respond_rejected_stays_open:
  assumes "modal (dash s) = Some (u, ls)" and "lid \<in> l_id ` set ls"
  shows "run s [ClickUseListing lid, PostSettled (next_tid s) (Rejected e)] =
     Some (s\<lparr>tasks := (tasks s)(next_tid s := None), next_tid := Suc (next_tid s),
       effects := effects s @ [Sent (next_tid s) (PostRespondWithListing (to_string_id u) lid),
         ConsoleError e, Alert failed_to_send]\<rparr>)"
  unfolding respond_run [OF assms]
  by (simp add: responded_def handleRespondWithListing_def prim_defs)

theorem respond_rejected_stays_open_witness:
  "\<exists>s'. run answering [ClickUseListing (NumId 1), PostSettled 2 (Rejected ''409'')] = Some s'
     \<and> modal (dash s') = Some (NumId 4, [ladder])
     \<and> effects s' = effects answering @
          [Sent 2 (PostRespondWithListing ''4'' (NumId 1)), ConsoleError ''409'',
           Alert failed_to_send]"
  using respond_rejected_stays_open [of answering "NumId 4" "[ladder]" "NumId 1" "''409''"]
  by (simp add: ladder_def show_nat.simps digit_char_def)

text \<open>
  A response that succeeds closes the dialogue and confirms. The candidates stay in
  the state under their urgent need.
\<close>

theorem respond_fulfilled_closes:
  assumes "modal (dash s) = Some (u, ls)" and "lid \<in> l_id ` set ls"
  shows "run s [ClickUseListing lid, PostSettled (next_tid s) (Resolved ())] =
     Some (s\<lparr>dash := (dash s)\<lparr>showRespondModal := None\<rparr>,
       tasks := (tasks s)(next_tid s := None), next_tid := Suc (next_tid s),
       effects := effects s @ [Sent (next_tid s) (PostRespondWithListing (to_string_id u) lid),
         Alert response_sent]\<rparr>)"
  unfolding respond_run [OF assms]
  by (simp add: responded_def handleRespondWithListing_def prim_defs)

theorem respond_fulfilled_closes_witness:
  "\<exists>s'. run answering [ClickUseListing (NumId 1), PostSettled 2 (Resolved ())] = Some s'
     \<and> modal (dash s') = None \<and> matchingListings (dash s') ''4'' = Some [ladder]
     \<and> effects s' = effects answering @
          [Sent 2 (PostRespondWithListing ''4'' (NumId 1)), Alert response_sent]"
  using respond_fulfilled_closes [of answering "NumId 4" "[ladder]" "NumId 1"]
  by (simp add: ladder_def show_nat.simps digit_char_def)

text \<open>
  C20. Closing the dialogue keeps the candidates. The cancel button only clears the
  urgent need the dialogue is open for; the candidates loaded for it remain in the
  state, and the next opening merges into them.
\<close>

theorem close_keeps_candidates:
  assumes "modal (dash s) = Some (u, ls)"
  shows "\<exists>s'. step s CloseModal = Some s' \<and> modal (dash s') = None
     \<and> matchingListings (dash s') (to_string_id u) = Some ls"
  using assms by (auto simp: close_modal_def modal_Some_iff)

theorem close_keeps_candidates_witness:
  "\<exists>s'. run answering [CloseModal] = Some s' \<and> modal (dash s') = None
     \<and> matchingListings (dash s') ''4'' = Some [ladder]"
  using close_keeps_candidates [of answering "NumId 4" "[ladder]"]
  by (auto simp: show_nat.simps digit_char_def)

text \<open>
  C25. A late confirmation closes whatever dialogue is open. A response in flight closes
  the dialogue when it succeeds, also when the user has meanwhile closed it and opened
  it for another urgent need.
\<close>

theorem late_response_closes:
  assumes "tasks s tid = Some Respond"
  shows "\<exists>s'. step s (PostSettled tid (Resolved ())) = Some s' \<and> modal (dash s') = None"
  using assms by (simp add: on_post_def responded_def)

theorem late_response_closes_witness:
  "\<exists>s s'. run answering [ClickUseListing (NumId 1), CloseModal, ClickRespond (NumId 4),
       MatchingSettled 3 (Resolved [ladder, drill])] = Some s
     \<and> modal (dash s) = Some (NumId 4, [ladder, drill])
     \<and> run s [PostSettled 2 (Resolved ())] = Some s' \<and> modal (dash s') = None"
proof -
  obtain s where s: "run answering [ClickUseListing (NumId 1), CloseModal, ClickRespond (NumId 4),
       MatchingSettled 3 (Resolved [ladder, drill])] = Some s"
    and m: "modal (dash s) = Some (NumId 4, [ladder, drill])" and t: "tasks s 2 = Some Respond"
    by (simp add: handler_defs prim_defs scenario_defs modal_def numeral_2_eq_2 numeral_3_eq_3)
  from late_response_closes [OF t] s m show ?thesis by auto
qed

end
