(* ===== verification/Workflow_Refinement.thy ===== *)
theory Workflow_Refinement
  imports Workflow
begin

text \<open>
  The matching workflow against the machine of the design: per urgent need the states
  closed, loading and open with candidates. \<open>workflow_of\<close> reads the state of the
  workflow of one urgent need off the session: open when the dialogue shows it, loading
  when a query for its candidates is in flight, closed otherwise. \<open>wf_spec\<close> is the
  machine of the design; \<open>wf_code\<close> adds the two moves the code has on top of it.
  The lemmas follow the events: those outside the workflow leave it alone, each of the
  four others moves it in a known way.
\<close>

section \<open>The machine\<close>

datatype workflow = Closed | Loading | Open "listing list"

text \<open>
  \<open>loads s u\<close>: the suspended calls of \<^verbatim>\<open>handleGetMatchingListings\<close> for the urgent
  need \<open>u\<close>, by their numbers.
\<close>

definition is_load :: "ident \<Rightarrow> task option \<Rightarrow> bool" where
  "is_load u t = (case t of Some (Matching u' m) \<Rightarrow> u' = u | _ \<Rightarrow> False)"

definition loads :: "sys \<Rightarrow> ident \<Rightarrow> nat list" where
  "loads s u = filter (\<lambda>tid. is_load u (tasks s tid)) [0..<next_tid s]"

definition workflow_of :: "sys \<Rightarrow> ident \<Rightarrow> workflow" where
  "workflow_of s u =
     (case modal (dash s) of
        Some (u', ls) \<Rightarrow> if u' = u then Open ls else if loads s u = [] then Closed else Loading
      | None \<Rightarrow> if loads s u = [] then Closed else Loading)"

text \<open>
  The machine of the design. A response that fails leaves the workflow open, which is
  no move.
\<close>

inductive wf_spec :: "workflow \<Rightarrow> workflow \<Rightarrow> bool" where
  open_for: "wf_spec Closed Loading"
| loaded: "wf_spec Loading (Open ls)"
| load_failed: "wf_spec Loading Closed"
| closed: "wf_spec (Open ls) Closed"

code_pred wf_spec .

inductive_simps wf_spec_simps [simp]:
  "wf_spec Closed w" "wf_spec Loading w" "wf_spec (Open ls) w"

text \<open>The events that can move a workflow.\<close>

fun workflow_event :: "event \<Rightarrow> bool" where
  "workflow_event (ClickRespond u) = True"
| "workflow_event (MatchingSettled tid out) = True"
| "workflow_event (PostSettled tid out) = True"
| "workflow_event CloseModal = True"
| "workflow_event e = False"

text \<open>
  The workflow as a function of what the dialogue shows and of whether a load is in
  flight.
\<close>

definition wf_view :: "ident \<Rightarrow> (ident \<times> listing list) option \<Rightarrow> bool \<Rightarrow> workflow" where
  "wf_view u shown loading =
     (case shown of
        Some (u', ls) \<Rightarrow> if u' = u then Open ls else if loading then Loading else Closed
      | None \<Rightarrow> if loading then Loading else Closed)"

text \<open>
  The moves of the code that the design does not have start from an open dialogue with
  a load for the same urgent need in flight.
\<close>

definition wf_extra :: "bool \<Rightarrow> workflow \<Rightarrow> workflow \<Rightarrow> bool" where
  "wf_extra loading w w' \<longleftrightarrow> (case w of Open ls \<Rightarrow> loading \<and> w' \<noteq> Closed | _ \<Rightarrow> False)"

definition wf_move :: "bool \<Rightarrow> workflow \<Rightarrow> workflow \<Rightarrow> bool" where
  "wf_move loading w w' \<longleftrightarrow> w' = w \<or> wf_spec w w' \<or> wf_extra loading w w'"

definition wf_code :: "workflow \<Rightarrow> workflow \<Rightarrow> bool" where
  "wf_code w w' \<longleftrightarrow> wf_spec w w' \<or> (case w of Open ls \<Rightarrow> w' \<noteq> Closed | _ \<Rightarrow> False)"

section \<open>What each event does to the workflow\<close>

lemma is_load_simps [simp]:
  "is_load u None = False"
  "is_load u (Some (Matching u' m)) = (u' = u)"
  "is_load u (Some (RefreshAll g)) = False"
  "is_load u (Some (RefreshOrphan n)) = False"
  "is_load u (Some (RefreshLoop ls c)) = False"
  "is_load u (Some (CreateListing f p)) = False"
  "is_load u (Some (CreateUrgent uf p)) = False"
  "is_load u (Some (React c')) = False"
  "is_load u (Some (UpdateStatus c')) = False"
  "is_load u (Some Chatbot) = False"
  "is_load u (Some Respond) = False"
  by (simp_all add: is_load_def)

lemma loads_Nil_iff:
  assumes "session_inv s"
  shows "loads s u = [] \<longleftrightarrow> (\<forall>tid. \<not> is_load u (tasks s tid))"
proof -
  have "tid < next_tid s" if "is_load u (tasks s tid)" for tid
    using that sinv_task [OF assms, of tid] by (cases "tasks s tid") auto
  then show ?thesis
    by (auto simp: loads_def filter_empty_conv)
qed

lemma dash_refreshData [simp]: "dash (refreshData c s) = dash s"
  by (cases c) (simp_all add: refreshData_def)

text \<open>An event outside the workflow changes neither the dialogue nor the loads.\<close>

lemma quiet_backend:
  assumes "step s e = Some s'" and "cause_of e = Backend" and "\<not> workflow_event e"
  shows "modal (dash s') = modal (dash s) \<and> is_load u (tasks s' tid) = is_load u (tasks s tid)"
  using assms
  by (cases e)
    (auto simp: on_listings_def on_urgent_def on_reactions_def on_chatbot_def
      refresh_loaded_def refresh_loop_def refresh_rejected_def chatbot_answered_def
      split: option.splits task.splits gathered.splits nearby.splits if_splits list.splits
        outcome.splits intro!: modal_cong)

lemma quiet_edit:
  assumes "step s e = Some s'" and "cause_of e = Edit" and "\<not> workflow_event e"
  shows "modal (dash s') = modal (dash s) \<and> is_load u (tasks s' tid) = is_load u (tasks s tid)"
  using assms
  by (cases e)
    (auto simp: form_defs toggle_chatbot_def set_chatbot_query_def intro!: modal_cong)

lemma quiet_action:
  assumes "step s e = Some s'" and "cause_of e = Action" and "\<not> workflow_event e"
    and "session_inv s"
  shows "modal (dash s') = modal (dash s) \<and> is_load u (tasks s' tid) = is_load u (tasks s tid)"
  using assms sinv_fresh [OF assms(4)]
  by (cases e)
    (auto simp: handleChatbotQuery_def handleCreateListing_def handleCreateUrgent_def
      handleReaction_def handleUpdateStatus_def handleRespondWithListing_def handleLogout_def
      split: option.splits if_splits intro!: modal_cong)

lemma quiet_device:
  assumes "step s e = Some s'" and "cause_of e = Device" and "session_inv s"
  shows "modal (dash s') = modal (dash s) \<and> is_load u (tasks s' tid) = is_load u (tasks s tid)"
  using assms sinv_fresh [OF assms(3)]
  by (cases e) (auto simp: on_geo_def refreshData_def split: if_splits intro!: modal_cong)

lemma quiet_step:
  assumes "step s e = Some s'" and "\<not> workflow_event e" and "session_inv s"
  shows "modal (dash s') = modal (dash s) \<and> is_load u (tasks s' tid) = is_load u (tasks s tid)"
proof (cases "cause_of e")
  case Device
  with assms show ?thesis by (intro quiet_device)
next
  case Backend
  with assms show ?thesis by (intro quiet_backend)
next
  case Edit
  with assms show ?thesis by (intro quiet_edit)
next
  case Action
  with assms show ?thesis by (intro quiet_action)
qed

lemma click_respond_workflow:
  assumes "step s (ClickRespond u0) = Some s'" and "session_inv s"
  shows "modal (dash s') = modal (dash s)
     \<and> is_load u (tasks s' tid) = (is_load u (tasks s tid) \<or> tid = next_tid s \<and> u0 = u)"
  using assms sinv_fresh [OF assms(2)]
  by (auto simp: handleGetMatchingListings_def intro!: modal_cong)

lemma close_workflow:
  assumes "step s CloseModal = Some s'"
  shows "modal (dash s') = None \<and> is_load u (tasks s' tid) = is_load u (tasks s tid)"
  using assms by (auto simp: close_modal_def)

lemma matching_settled_workflow:
  assumes "step s (MatchingSettled t out) = Some s'"
  shows "\<exists>u0. is_load u0 (tasks s t)
     \<and> is_load u (tasks s' tid) = (is_load u (tasks s tid) \<and> tid \<noteq> t)
     \<and> modal (dash s') =
         (case out of Resolved ls \<Rightarrow> if truthy_id u0 then Some (u0, ls) else None
          | Rejected e \<Rightarrow> modal (dash s))"
proof -
  from assms obtain u0 m where t: "tasks s t = Some (Matching u0 m)"
    and s': "s' = matching_loaded t u0 m out s"
    by (auto simp: on_matching_def split: option.splits task.splits)
  have "modal (dash s') =
         (case out of Resolved ls \<Rightarrow> if truthy_id u0 then Some (u0, ls) else None
          | Rejected e \<Rightarrow> modal (dash s))"
    unfolding s' by (cases out) (simp_all add: matching_loaded_def modal_opened)
  moreover have "is_load u (tasks s' tid) = (is_load u (tasks s tid) \<and> tid \<noteq> t)"
    unfolding s' by (cases out) (simp_all add: matching_loaded_def)
  ultimately show ?thesis using t by auto
qed

lemma post_settled_workflow:
  assumes "step s (PostSettled t out) = Some s'" and "session_inv s"
  shows "is_load u (tasks s' tid) = is_load u (tasks s tid)
     \<and> (modal (dash s') = modal (dash s) \<or> modal (dash s') = None)"
proof -
  from assms(1) obtain k where t: "tasks s t = Some k" and k: "\<not> is_load u (Some k)"
    by (auto simp: on_post_def split: option.splits task.splits)
  note fresh = sinv_fresh [OF assms(2)]
  have r: "is_load u (tasks (refreshData c (f (finish t s))) tid) = is_load u (tasks s tid)"
    if "tasks (f (finish t s)) = tasks (finish t s)"
      and "next_tid (f (finish t s)) = next_tid s" for c f
    using that t k fresh by (cases c) (auto simp: refreshData_def)
  from assms(1) t k show ?thesis
    by (cases k; cases out)
      (auto simp: on_post_def listing_created_def urgent_created_def reaction_posted_def
        status_updated_def responded_def r r [where f = "\<lambda>x. x"] split: if_splits
        intro!: modal_cong)
qed

lemma workflow_of_view:
  assumes "session_inv s"
  shows "workflow_of s u = wf_view u (modal (dash s)) (\<exists>tid. is_load u (tasks s tid))"
  using loads_Nil_iff [OF assms, of u]
  by (auto simp: workflow_of_def wf_view_def split: option.splits)

lemma is_load_unique: "is_load u0 t \<Longrightarrow> is_load u t \<Longrightarrow> u = u0"
  by (auto simp: is_load_def split: option.splits task.splits)

lemma wf_move_same_shown:
  "l \<longrightarrow> l' \<Longrightarrow> wf_move l (wf_view u shown l) (wf_view u shown l')"
  by (auto simp: wf_move_def wf_view_def wf_extra_def split: option.splits)

lemma wf_move_hidden:
  "(\<And>ls. shown' \<noteq> Some (u, ls)) \<Longrightarrow> wf_move l (wf_view u shown l) (wf_view u shown' l)"
  by (auto simp: wf_move_def wf_view_def wf_extra_def split: option.splits)

lemma wf_move_opened:
  "l \<Longrightarrow> wf_move l (wf_view u shown l) (wf_view u (Some (u, ls)) l')"
  by (auto simp: wf_move_def wf_view_def wf_extra_def split: option.splits)

lemma wf_move_failed:
  "(\<And>ls. shown \<noteq> Some (u, ls)) \<Longrightarrow> l \<Longrightarrow> wf_move l (wf_view u shown l) (wf_view u None l')"
  by (auto simp: wf_move_def wf_view_def wf_extra_def split: option.splits)

lemma wf_move_kept:
  "l \<Longrightarrow> wf_move l (wf_view u shown l) (wf_view u shown l')"
  by (auto simp: wf_move_def wf_view_def wf_extra_def split: option.splits)

lemma workflow_quiet:
  assumes i: "session_inv s" and st: "step s e = Some s'" and q: "\<not> workflow_event e"
  shows "workflow_of s' u = workflow_of s u"
proof -
  from i st have i': "session_inv s'" by (rule sinv_step)
  from quiet_step [OF st q i] show ?thesis
    by (simp add: workflow_of_view [OF i] workflow_of_view [OF i'])
qed

lemma workflow_matching_settled:
  assumes i: "session_inv s" and st: "step s (MatchingSettled t out) = Some s'"
  shows "wf_move (\<exists>tid. is_load u (tasks s tid))
     (wf_view u (modal (dash s)) (\<exists>tid. is_load u (tasks s tid)))
     (wf_view u (modal (dash s')) (\<exists>tid. is_load u (tasks s' tid)))"
proof -
  from matching_settled_workflow [OF st] obtain u0 where u0: "is_load u0 (tasks s t)"
    and l: "\<And>tid. is_load u (tasks s' tid) = (is_load u (tasks s tid) \<and> tid \<noteq> t)"
    and m: "modal (dash s') =
         (case out of Resolved ls \<Rightarrow> if truthy_id u0 then Some (u0, ls) else None
          | Rejected e \<Rightarrow> modal (dash s))"
    by blast
  show ?thesis
  proof (cases "u0 = u")
    case True
    with u0 have L: "\<exists>tid. is_load u (tasks s tid)" by blast
    have hidden: "modal (dash s) \<noteq> Some (u, ls)" if "\<not> truthy_id u" for ls
      using that by (simp add: modal_Some_iff)
    from True L hidden show ?thesis unfolding m
      by (cases out) (simp_all add: wf_move_opened wf_move_failed wf_move_kept)
  next
    case False
    with u0 have "\<not> is_load u (tasks s t)" using is_load_unique by blast
    then have "(\<exists>tid. is_load u (tasks s' tid)) = (\<exists>tid. is_load u (tasks s tid))"
      unfolding l by metis
    with False show ?thesis unfolding m
      by (cases out) (simp_all add: wf_move_hidden wf_move_same_shown)
  qed
qed

lemma workflow_step:
  assumes i: "session_inv s" and st: "step s e = Some s'"
  shows "wf_move (loads s u \<noteq> []) (workflow_of s u) (workflow_of s' u)"
proof -
  from i st have i': "session_inv s'" by (rule sinv_step)
  have l: "(loads s u \<noteq> []) = (\<exists>tid. is_load u (tasks s tid))"
    using loads_Nil_iff [OF i] by simp
  have "wf_move (\<exists>tid. is_load u (tasks s tid))
     (wf_view u (modal (dash s)) (\<exists>tid. is_load u (tasks s tid)))
     (wf_view u (modal (dash s')) (\<exists>tid. is_load u (tasks s' tid)))"
  proof (cases e)
    case (ClickRespond u0)
    from click_respond_workflow [OF st [unfolded ClickRespond] i, of u]
    have "modal (dash s') = modal (dash s)"
      and "(\<exists>tid. is_load u (tasks s tid)) \<longrightarrow> (\<exists>tid. is_load u (tasks s' tid))"
      by auto
    then show ?thesis by (simp add: wf_move_same_shown)
  next
    case CloseModal
    from close_workflow [OF st [unfolded CloseModal], of u] show ?thesis
      by (simp add: wf_move_hidden)
  next
    case (PostSettled t out)
    note p = post_settled_workflow [OF st [unfolded PostSettled] i, of u]
    from p have "(\<exists>tid. is_load u (tasks s' tid)) = (\<exists>tid. is_load u (tasks s tid))"
      by simp
    moreover from p [of 0] have "modal (dash s') = modal (dash s) \<or> modal (dash s') = None"
      by simp
    ultimately show ?thesis
      by (auto simp: wf_move_hidden wf_move_same_shown)
  next
    case (MatchingSettled t out)
    with i st show ?thesis by (simp only: workflow_matching_settled)
  qed (use workflow_quiet [OF i st, of u] in
      \<open>simp_all add: workflow_of_view [OF i] workflow_of_view [OF i'] wf_move_def\<close>)
  then show ?thesis
    by (simp add: workflow_of_view [OF i] workflow_of_view [OF i'] l)
qed

lemma wf_move_code: "wf_move l w w' \<Longrightarrow> w' = w \<or> wf_code w w'"
  by (auto simp: wf_move_def wf_code_def wf_extra_def split: workflow.splits)

lemma workflow_run:
  assumes "session_inv s" and "run s es = Some s'"
  shows "wf_code\<^sup>*\<^sup>* (workflow_of s u) (workflow_of s' u)"
  using assms
proof (induction es arbitrary: s)
  case Nil
  then show ?case by simp
next
  case (Cons e es)
  then obtain s1 where st: "step s e = Some s1" and r: "run s1 es = Some s'"
    by (auto split: option.splits)
  from Cons.prems(1) st have i1: "session_inv s1" by (rule sinv_step)
  from workflow_step [OF Cons.prems(1) st, of u]
  have "wf_code\<^sup>=\<^sup>= (workflow_of s u) (workflow_of s1 u)"
    by (auto dest: wf_move_code)
  with Cons.IH [OF i1 r] show ?case by (auto intro: converse_rtranclp_into_rtranclp)
qed

section \<open>Refinement\<close>

text \<open>
  C5. The matching workflow refines the machine of the design. For every urgent need, a
  step of the client from a reachable state leaves its workflow where it is or moves it
  as the design says: from closed to loading, from loading to open or back to closed,
  from open to closed; provided no query for the candidates of that urgent need is in
  flight while its dialogue is open.
\<close>

theorem workflow_refines_design:
  assumes "reachable s" and "step s e = Some s'"
    and "\<forall>ls. workflow_of s u = Open ls \<longrightarrow> loads s u = []"
  shows "workflow_of s' u = workflow_of s u \<or> wf_spec (workflow_of s u) (workflow_of s' u)"
  using workflow_step [OF reachable_session_inv [OF assms(1)] assms(2), of u] assms(3)
  by (auto simp: wf_move_def wf_extra_def split: workflow.splits)

theorem workflow_refines_design_witness:
  "workflow_of browsing (NumId 4) = Closed
     \<and> (\<exists>s'. step browsing (ClickRespond (NumId 4)) = Some s' \<and> workflow_of s' (NumId 4) = Loading)
     \<and> workflow_of answering (NumId 4) = Open [ladder]
     \<and> (\<exists>s'. step answering CloseModal = Some s' \<and> workflow_of s' (NumId 4) = Closed)"
  using workflow_refines_design [OF browsing_reachable, of "ClickRespond (NumId 4)" _ "NumId 4"]
    workflow_refines_design [OF answering_reachable, of CloseModal _ "NumId 4"]
  by (simp add: workflow_of_def loads_def handleGetMatchingListings_def close_modal_def
      jump_leads_def)



text \<open>
  C22. An open dialogue can change its candidates. When a query for the candidates of an
  urgent need is answered while the dialogue is open for that urgent need, the dialogue
  stays open and shows the new candidates: a move the design does not have.
\<close>

theorem workflow_reload:
  assumes "modal (dash s) = Some (u, ls)" and "tasks s tid = Some (Matching u m)"
  shows "\<exists>s'. step s (MatchingSettled tid (Resolved ls')) = Some s'
     \<and> workflow_of s u = Open ls \<and> workflow_of s' u = Open ls'"
proof -
  from assms(1) have "truthy_id u" by (simp add: modal_Some_iff)
  moreover from assms(1) have "workflow_of s u = Open ls" by (simp add: workflow_of_def)
  ultimately show ?thesis using assms(2)
    by (simp add: on_matching_def matching_loaded_def workflow_of_def modal_opened)
qed

theorem workflow_reload_witness:
  "\<exists>s s'. run answering [ClickRespond (NumId 4)] = Some s
     \<and> step s (MatchingSettled 2 (Resolved [])) = Some s'
     \<and> workflow_of s (NumId 4) = Open [ladder] \<and> workflow_of s' (NumId 4) = Open []"
proof -
  obtain s where s: "run answering [ClickRespond (NumId 4)] = Some s"
    and m: "modal (dash s) = Some (NumId 4, [ladder])"
    and t: "tasks s 2 = Some (Matching (NumId 4) [''4'' \<mapsto> [ladder]])"
    by (simp add: handleGetMatchingListings_def jump_leads_def numeral_2_eq_2)
  from workflow_reload [OF m t, of "[]"] s show ?thesis by auto
qed

end
