(* ===== verification/Handlers.thy ===== *)
theory Handlers
  imports Scenario
begin

text \<open>
  Runs of the lifecycle handlers and of the chatbot handler: the event that starts one,
  then the answer to its request. Each theorem gives the whole state after the run, so
  it says what was sent, what changed and what did not.
\<close>

section \<open>Creating\<close>

definition cleared :: "listing_form \<Rightarrow> listing_form" where
  "cleared f = f\<lparr>f_title := '''', f_description := ''''\<rparr>"

definition first_queries :: "nat \<Rightarrow> latlng \<Rightarrow> effect list" where
  "first_queries tid p = map (Sent tid) (refresh_requests p [])"

lemma first_queries_refreshData:
  "refreshData (Some p) s = s\<lparr>tasks := (tasks s)(next_tid s \<mapsto> RefreshAll (Gather None None)),
     next_tid := Suc (next_tid s), effects := effects s @ first_queries (next_tid s) p\<rparr>"
  by (simp add: refreshData_def first_queries_def refresh_requests_def prim_defs)

text \<open>
  C26. Creating a listing. A valid form submitted once the location is known is posted as
  it is, with the coordinates. When the backend accepts it, the title and the
  description of the form are cleared, the other fields keep the submitted values, and
  a refresh starts after the answer, at the same coordinates.
\<close>

theorem create_listing_fulfilled:
  assumes "coords (dash s) = Some p" and "listing_form_valid (form (dash s))"
  shows "run s [SubmitListing, PostSettled (next_tid s) (Resolved ())] =
     Some (s\<lparr>dash := (dash s)\<lparr>form := cleared (form (dash s))\<rparr>,
       tasks := (tasks s)(next_tid s := None,
         Suc (next_tid s) \<mapsto> RefreshAll (Gather None None)),
       next_tid := Suc (Suc (next_tid s)),
       effects := effects s @
         Sent (next_tid s) (PostListing (form (dash s)) (lat p) (lng p)) #
         first_queries (Suc (next_tid s)) p\<rparr>)"
  using assms
  by (simp add: handleCreateListing_def on_post_def listing_created_def cleared_def
      first_queries_refreshData)

theorem create_listing_fulfilled_witness:
  "\<exists>s s'. run browsing [SetFormTitle ''Saw'', SetFormDescription ''hand saw'', SetFormType ''skill'']
       = Some s
     \<and> run s [SubmitListing, PostSettled 1 (Resolved ())] = Some s'
     \<and> form (dash s') = initial_form\<lparr>f_type := ''skill''\<rparr>
     \<and> tasks s' = [2 \<mapsto> RefreshAll (Gather None None)]
     \<and> requests_of (effects s') = requests_of (effects browsing) @
          [PostListing (initial_form\<lparr>f_title := ''Saw'', f_description := ''hand saw'',
             f_type := ''skill''\<rparr>) 0 0, GetListings 0 0 3, GetUrgentNearby 0 0 3]"
proof -
  obtain s where s: "run browsing [SetFormTitle ''Saw'', SetFormDescription ''hand saw'',
       SetFormType ''skill''] = Some s"
    and c: "coords (dash s) = Some fallback"
    and f: "form (dash s) = initial_form\<lparr>f_title := ''Saw'', f_description := ''hand saw'',
             f_type := ''skill''\<rparr>"
    and t: "tasks s = Map.empty" "next_tid s = 1" "effects s = effects browsing"
    by (simp add: form_defs listing_types_def)
  from f have "listing_form_valid (form (dash s))"
    by (simp add: listing_form_valid_def)
  from create_listing_fulfilled [OF c this] s f t show ?thesis
    by (simp add: cleared_def first_queries_def refresh_requests_def fallback_def
        nearby_radius_def initial_form_def numeral_2_eq_2)
qed

text \<open>
  C28. What is edited while a listing is being posted is lost. The handler clears the
  form it captured when the user submitted: a type or a switch the user changes before
  the answer arrives goes back to the submitted value.
\<close>

theorem create_listing_edits_lost:
  assumes "coords (dash s) = Some p" and "listing_form_valid (form (dash s))"
    and "v \<in> set listing_types"
  shows "\<exists>s'. run s [SubmitListing, SetFormType v, SetFormIsFree b,
       PostSettled (next_tid s) (Resolved ())] = Some s'
     \<and> form (dash s') = cleared (form (dash s))"
  using assms
  by (simp add: handleCreateListing_def on_post_def listing_created_def cleared_def form_defs
      first_queries_refreshData)

theorem create_listing_edits_lost_witness:
  "\<exists>s s'. run browsing [SetFormTitle ''Saw'', SetFormDescription ''hand saw''] = Some s
     \<and> run s [SubmitListing, SetFormType ''request'', SetFormIsFree False,
          PostSettled 1 (Resolved ())] = Some s'
     \<and> f_type (form (dash s')) = ''offer'' \<and> f_is_free (form (dash s'))"
proof -
  obtain s where s: "run browsing [SetFormTitle ''Saw'', SetFormDescription ''hand saw''] = Some s"
    and c: "coords (dash s) = Some fallback"
    and f: "form (dash s) = initial_form\<lparr>f_title := ''Saw'', f_description := ''hand saw''\<rparr>"
    and t: "next_tid s = 1"
    by (simp add: form_defs)
  from f have "listing_form_valid (form (dash s))"
    by (simp add: listing_form_valid_def)
  from create_listing_edits_lost [OF c this, of "''request''" False] s f t show ?thesis
    by (auto simp: cleared_def listing_types_def initial_form_def)
qed

text \<open>
  C27. A listing the backend refuses is not reported. The handler has no \<^verbatim>\<open>catch\<close>:
  when the request is rejected, the form keeps what the user typed, no refresh starts,
  nobody is alerted and nothing is logged by the component; the rejection is left
  unhandled.
\<close>

theorem create_listing_rejected:
  assumes "coords (dash s) = Some p" and "listing_form_valid (form (dash s))"
  shows "run s [SubmitListing, PostSettled (next_tid s) (Rejected e)] =
     Some (s\<lparr>tasks := (tasks s)(next_tid s := None), next_tid := Suc (next_tid s),
       effects := effects s @
         [Sent (next_tid s) (PostListing (form (dash s)) (lat p) (lng p)), Unhandled e]\<rparr>)"
  using assms
  by (simp add: handleCreateListing_def on_post_def listing_created_def prim_defs)

theorem create_listing_rejected_witness:
  "\<exists>s s'. run browsing [SetFormTitle ''Saw'', SetFormDescription ''hand saw''] = Some s
     \<and> run s [SubmitListing, PostSettled 1 (Rejected ''401'')] = Some s'
     \<and> dash s' = dash s \<and> tasks s' = Map.empty
     \<and> effects s' = effects browsing @
          [Sent 1 (PostListing (initial_form\<lparr>f_title := ''Saw'', f_description := ''hand saw''\<rparr>)
             0 0), Unhandled ''401'']"
proof -
  obtain s where s: "run browsing [SetFormTitle ''Saw'', SetFormDescription ''hand saw''] = Some s"
    and c: "coords (dash s) = Some fallback"
    and f: "form (dash s) = initial_form\<lparr>f_title := ''Saw'', f_description := ''hand saw''\<rparr>"
    and t: "tasks s = Map.empty" "next_tid s = 1" "effects s = effects browsing"
    by (simp add: form_defs)
  from f have "listing_form_valid (form (dash s))"
    by (simp add: listing_form_valid_def)
  from create_listing_rejected [OF c this, of "''401''"] s f t show ?thesis
    by (simp add: fallback_def)
qed

text \<open>
  Creating an urgent need. A valid form is posted with the coordinates and, by its
  validity, with a radius between 0.5 and 10; when the backend accepts it, its title and
  description are cleared, the radius stays, and a refresh starts.
\<close>

theorem create_urgent_fulfilled:
  assumes "coords (dash s) = Some p" and "urgent_form_valid (urgentForm (dash s))"
  shows "run s [SubmitUrgent, PostSettled (next_tid s) (Resolved ())] =
     Some (s\<lparr>dash := (dash s)\<lparr>urgentForm :=
         (urgentForm (dash s))\<lparr>uf_title := '''', uf_description := ''''\<rparr>\<rparr>,
       tasks := (tasks s)(next_tid s := None,
         Suc (next_tid s) \<mapsto> RefreshAll (Gather None None)),
       next_tid := Suc (Suc (next_tid s)),
       effects := effects s @
         Sent (next_tid s) (PostUrgent (urgentForm (dash s)) (lat p) (lng p)) #
         first_queries (Suc (next_tid s)) p\<rparr>)
     \<and> 0.5 \<le> uf_radius_km (urgentForm (dash s)) \<and> uf_radius_km (urgentForm (dash s)) \<le> 10"
  using assms
  by (simp add: handleCreateUrgent_def on_post_def urgent_created_def first_queries_refreshData
      urgent_form_valid_def radius_valid_def)

theorem create_urgent_fulfilled_witness:
  "\<exists>s s'. run browsing [SetUrgentTitle ''Torch'', SetUrgentDescription ''power cut'',
       SetUrgentRadius 7.5] = Some s
     \<and> run s [SubmitUrgent, PostSettled 1 (Resolved ())] = Some s'
     \<and> urgentForm (dash s') = initial_urgent_form\<lparr>uf_radius_km := 7.5\<rparr>
     \<and> requests_of (effects s') = requests_of (effects browsing) @
          [PostUrgent (initial_urgent_form\<lparr>uf_title := ''Torch'',
             uf_description := ''power cut'', uf_radius_km := 7.5\<rparr>) 0 0,
           GetListings 0 0 3, GetUrgentNearby 0 0 3]"
proof -
  obtain s where s: "run browsing [SetUrgentTitle ''Torch'', SetUrgentDescription ''power cut'',
       SetUrgentRadius 7.5] = Some s"
    and c: "coords (dash s) = Some fallback"
    and f: "urgentForm (dash s) = initial_urgent_form\<lparr>uf_title := ''Torch'',
             uf_description := ''power cut'', uf_radius_km := 7.5\<rparr>"
    and t: "next_tid s = 1" "effects s = effects browsing"
    by (simp add: form_defs)
  from f have "urgent_form_valid (urgentForm (dash s))"
    by (simp add: urgent_form_valid_def radius_valid_def)
  from create_urgent_fulfilled [OF c this] s f t show ?thesis
    by (simp add: first_queries_def refresh_requests_def fallback_def nearby_radius_def
        initial_urgent_form_def)
qed

section \<open>Reacting and changing a status\<close>

text \<open>
  C29. Changing a status. The buttons of an active listing send one \<^verbatim>\<open>PATCH\<close> with
  \<^verbatim>\<open>reserved\<close> or \<^verbatim>\<open>completed\<close> for that listing. The state is not touched, neither
  at the click nor at the answer: when the backend accepts, a refresh starts with the
  coordinates of the click, and the card changes only when that refresh ends.
\<close>

theorem status_change_fulfilled:
  assumes "l \<in> set (listings (dash s))" and "status_actions l" and "coords (dash s) = Some p"
  shows "run s [ClickStatus (l_id l) sc, PostSettled (next_tid s) (Resolved ())] =
     Some (s\<lparr>tasks := (tasks s)(next_tid s := None,
         Suc (next_tid s) \<mapsto> RefreshAll (Gather None None)),
       next_tid := Suc (Suc (next_tid s)),
       effects := effects s @
         Sent (next_tid s) (PatchListing (listing_key l) (status_name sc)) #
         first_queries (Suc (next_tid s)) p\<rparr>)"
proof -
  from assms(1,2) have "\<exists>l' \<in> set (listings (dash s)). l_id l' = l_id l \<and> status_actions l'"
    by blast
  with assms(3) show ?thesis
    by (simp add: handleUpdateStatus_def on_post_def status_updated_def listing_key_def
        first_queries_refreshData)
qed

theorem status_change_fulfilled_witness:
  "\<exists>s'. run browsing [ClickStatus (NumId 1) MarkReserved, PostSettled 1 (Resolved ())] = Some s'
     \<and> dash s' = dash browsing
     \<and> requests_of (effects s') = requests_of (effects browsing) @
          [PatchListing ''1'' ''reserved'', GetListings 0 0 3, GetUrgentNearby 0 0 3]"
  using status_change_fulfilled [of ladder browsing fallback MarkReserved]
  by (simp add: status_actions_def first_queries_def refresh_requests_def)
    (simp add: scenario_defs)

text \<open>
  C30. Both transitions can be asked for one listing. Between a click on a status button
  and the end of the refresh that follows it the card still shows the listing as
  active, with both buttons: a second click sends a second \<^verbatim>\<open>PATCH\<close> for the same
  listing. That a listing leaves \<^verbatim>\<open>active\<close> at most once is left to the backend.
\<close>

theorem status_change_twice:
  assumes "l \<in> set (listings (dash s))" and "status_actions l"
  shows "\<exists>s'. run s [ClickStatus (l_id l) MarkReserved, ClickStatus (l_id l) MarkUsedUp] = Some s'
     \<and> requests_of (effects s') = requests_of (effects s) @
          [PatchListing (listing_key l) ''reserved'', PatchListing (listing_key l) ''completed'']"
proof -
  from assms have "\<exists>l' \<in> set (listings (dash s)). l_id l' = l_id l \<and> status_actions l'"
    by blast
  then show ?thesis
    by (simp add: handleUpdateStatus_def listing_key_def)
qed

theorem status_change_twice_witness:
  "\<exists>s'. run browsing [ClickStatus (NumId 1) MarkReserved, ClickStatus (NumId 1) MarkUsedUp]
       = Some s'
     \<and> requests_of (effects s') = requests_of (effects browsing) @
          [PatchListing ''1'' ''reserved'', PatchListing ''1'' ''completed'']"
  using status_change_twice [of ladder browsing]
  by (simp add: status_actions_def ladder_def listing_key_def handleUpdateStatus_def
      show_nat.simps digit_char_def)

text \<open>
  A mutation that fails is logged and nothing else. When the request of a reaction
  or of a status change is rejected, the error goes to the console; the state is what it
  was, no refresh starts and the user is not told.
\<close>

theorem reaction_rejected:
  assumes "ty \<in> set known_types" and "l \<in> set (listings (dash s))"
  shows "run s [ClickReaction ty (l_id l), PostSettled (next_tid s) (Rejected e)] =
     Some (s\<lparr>tasks := (tasks s)(next_tid s := None), next_tid := Suc (next_tid s),
       effects := effects s @
         [Sent (next_tid s) (PostReaction (listing_key l) ty), ConsoleError e]\<rparr>)"
  using assms
  by (simp add: handleReaction_def on_post_def reaction_posted_def listing_key_def prim_defs)

theorem reaction_rejected_witness:
  "\<exists>s'. run browsing [ClickReaction ''helpful'' (NumId 2), PostSettled 1 (Rejected ''500'')]
       = Some s'
     \<and> dash s' = dash browsing \<and> tasks s' = Map.empty
     \<and> effects s' = effects browsing @
          [Sent 1 (PostReaction ''2'' ''helpful''), ConsoleError ''500'']"
  using reaction_rejected [of "''helpful''" drill browsing "''500''"]
  by (simp add: known_types_def) (simp add: scenario_defs)

section \<open>Asking the chatbot\<close>

text \<open>
  A blank query is not sent. Submitting the chatbot form changes nothing and sends
  nothing when the query is empty or white space only, or when the location is not
  known yet.
\<close>

theorem chatbot_blank_noop:
  assumes "showChatbot (dash s)"
    and "js_trim (chatbotQuery (dash s)) = [] \<or> coords (dash s) = None"
  shows "step s SubmitChatbot = Some s"
  using assms by (auto simp: handleChatbotQuery_def)

theorem chatbot_blank_noop_witness:
  "\<exists>s. run browsing [ToggleChatbot, SetChatbotQuery '' ''] = Some s
     \<and> step s SubmitChatbot = Some s"
proof -
  obtain s where s: "run browsing [ToggleChatbot, SetChatbotQuery '' ''] = Some s"
    and o: "showChatbot (dash s)" and q: "chatbotQuery (dash s) = '' ''"
    by (simp add: toggle_chatbot_def set_chatbot_query_def browsing_def)
  from q have "js_trim (chatbotQuery (dash s)) = []"
    by (simp add: js_trim_def is_space_def)
  with chatbot_blank_noop [OF o] s show ?thesis by simp
qed

text \<open>
  C31. A query is sent as typed and its answer is shown. A query that is not blank goes
  to the backend untrimmed, with the coordinates; the answer replaces the one shown.
  When the request is rejected the error is logged and the answer shown before stays.
\<close>

theorem chatbot_answered_run:
  assumes "showChatbot (dash s)" and "js_trim (chatbotQuery (dash s)) \<noteq> []"
    and "coords (dash s) = Some p"
  shows "run s [SubmitChatbot, ChatbotSettled (next_tid s) out] =
     Some ((case out of
              Resolved r \<Rightarrow> setState (\<lambda>d. d\<lparr>chatbotResponse := Some r\<rparr>)
            | Rejected e \<Rightarrow> emit (ConsoleError e))
       (s\<lparr>tasks := (tasks s)(next_tid s := None), next_tid := Suc (next_tid s),
          effects := effects s @
            [Sent (next_tid s) (PostChatbot (chatbotQuery (dash s)) (lat p) (lng p))]\<rparr>))"
  using assms
  by (cases out)
    (simp_all add: handleChatbotQuery_def on_chatbot_def chatbot_answered_def prim_defs)

theorem chatbot_answered_run_witness:
  "\<exists>s s'. run browsing [ToggleChatbot, SetChatbotQuery '' drill? ''] = Some s
     \<and> run s [SubmitChatbot, ChatbotSettled 1 (Resolved \<lparr>response = ''Ask next door.'',
          suggestions = None, external_links = Some []\<rparr>)] = Some s'
     \<and> map_option response (chatbotResponse (dash s')) = Some ''Ask next door.''
     \<and> effects s' = effects browsing @ [Sent 1 (PostChatbot '' drill? '' 0 0)]"
proof -
  obtain s where s: "run browsing [ToggleChatbot, SetChatbotQuery '' drill? ''] = Some s"
    and o: "showChatbot (dash s)" and q: "chatbotQuery (dash s) = '' drill? ''"
    and c: "coords (dash s) = Some fallback"
    and t: "next_tid s = 1" "effects s = effects browsing"
    by (simp add: toggle_chatbot_def set_chatbot_query_def browsing_def)
  from q have "js_trim (chatbotQuery (dash s)) \<noteq> []"
    by (simp add: js_trim_def is_space_def)
  from chatbot_answered_run [OF o this c] s q t show ?thesis
    by (simp add: fallback_def)
qed

end
