(* ===== verification/Progress.thy ===== *)
theory Progress
  imports Scenario
begin

text \<open>
  How much the backend still owes a session, and that it can always pay. A suspended
  handler waits for answers: a posting handler for one, after which it may start a
  refresh; a refresh for its two range answers, then for one answer per listing; the
  others for one. \<open>owed\<close> counts them in that order, and every answer lowers it
  lexicographically, so a session cannot receive answers for ever (\<open>backend_step\<close> is
  well-founded). \<open>answer_for\<close> is an answer that is always possible, the failure of
  the request: with it every handler in the pool returns.
\<close>

section \<open>What a suspended handler still waits for\<close>

fun posts_of :: "task option \<Rightarrow> nat" where
  "posts_of (Some (CreateListing f c)) = 1"
| "posts_of (Some (CreateUrgent f c)) = 1"
| "posts_of (Some (React c)) = 1"
| "posts_of (Some (UpdateStatus c)) = 1"
| "posts_of t = 0"

fun ranges_of :: "task option \<Rightarrow> nat" where
  "ranges_of (Some (RefreshAll g)) = (if fst_pending g then 1 else 0) + (if snd_pending g then 1 else 0)"
| "ranges_of (Some (RefreshOrphan n)) = 1"
| "ranges_of t = 0"

fun answers_of :: "task option \<Rightarrow> nat" where
  "answers_of (Some (RefreshLoop ls m)) = length ls"
| "answers_of (Some (Matching u m)) = 1"
| "answers_of (Some Chatbot) = 1"
| "answers_of (Some Respond) = 1"
| "answers_of t = 0"

text \<open>
  \<open>pool_sum w\<close> adds a weight over the pool; \<open>owed\<close> is the measure. \<open>lower x spawns t\<close>:
  the handler that was \<open>t\<close> and is now \<open>x\<close> owes less, where \<open>spawns\<close> says that it
  has started a refresh; \<open>settled\<close> is the change of the pool that goes with it.
\<close>

definition pool_sum :: "(task option \<Rightarrow> nat) \<Rightarrow> sys \<Rightarrow> nat" where
  "pool_sum w s = (\<Sum>tid < next_tid s. w (tasks s tid))"

definition owed :: "sys \<Rightarrow> nat list" where
  "owed s = [pool_sum posts_of s, pool_sum ranges_of s, pool_sum answers_of s]"

definition lower :: "task option \<Rightarrow> bool \<Rightarrow> task option \<Rightarrow> bool" where
  "lower x spawns t \<longleftrightarrow>
     posts_of x < posts_of t \<or>
     posts_of x = posts_of t \<and> \<not> spawns \<and>
       (ranges_of x < ranges_of t \<or> ranges_of x = ranges_of t \<and> answers_of x < answers_of t)"

definition settled :: "nat \<Rightarrow> task option \<Rightarrow> bool \<Rightarrow> sys \<Rightarrow> sys \<Rightarrow> bool" where
  "settled tid x spawns s s' \<longleftrightarrow>
     tid < next_tid s \<and> lower x spawns (tasks s tid) \<and>
     (if spawns then
        tasks s' = ((tasks s)(tid := x))(next_tid s \<mapsto> RefreshAll (Gather None None)) \<and>
        next_tid s' = Suc (next_tid s)
      else tasks s' = (tasks s)(tid := x) \<and> next_tid s' = next_tid s)"

definition backend_step :: "(sys \<times> sys) set" where
  "backend_step = {(s', s). session_inv s \<and> (\<exists>e. cause_of e = Backend \<and> step s e = Some s')}"

text \<open>
  An answer the backend can always give to a suspended handler: the request it waits for
  fails, as it does when the transport gives up.
\<close>

definition timed_out :: string where
  "timed_out = ''timeout''"

fun answer_for :: "nat \<Rightarrow> task \<Rightarrow> event" where
  "answer_for tid (RefreshAll g) =
     (if fst_pending g then ListingsSettled tid (Rejected timed_out)
      else UrgentSettled tid (Rejected timed_out))"
| "answer_for tid (RefreshOrphan NearListings) = ListingsSettled tid (Rejected timed_out)"
| "answer_for tid (RefreshOrphan NearUrgent) = UrgentSettled tid (Rejected timed_out)"
| "answer_for tid (RefreshLoop ls m) = ReactionsSettled tid (Rejected timed_out)"
| "answer_for tid (Matching u m) = MatchingSettled tid (Rejected timed_out)"
| "answer_for tid Chatbot = ChatbotSettled tid (Rejected timed_out)"
| "answer_for tid t = PostSettled tid (Rejected timed_out)"

section \<open>Totals over the pool\<close>

lemma pool_sum_update:
  fixes n :: nat and w :: "'a \<Rightarrow> nat"
  assumes "tid < n"
  shows "(\<Sum>i < n. w ((f(tid := x)) i)) + w (f tid) = (\<Sum>i < n. w (f i)) + w x"
proof -
  have split: "(\<Sum>i < n. g i) = g tid + (\<Sum>i \<in> {..<n} - {tid}. g i)" for g :: "nat \<Rightarrow> nat"
    using assms by (intro sum.remove) simp_all
  have "(\<Sum>i \<in> {..<n} - {tid}. w ((f(tid := x)) i)) = (\<Sum>i \<in> {..<n} - {tid}. w (f i))"
    by (rule sum.cong) simp_all
  with split [of "\<lambda>i. w ((f(tid := x)) i)"] split [of "\<lambda>i. w (f i)"] show ?thesis
    by simp
qed

lemma pool_sum_settled:
  assumes i: "session_inv s" and st: "settled tid x spawns s s'" and w: "w None = 0"
  shows "pool_sum w s' + w (tasks s tid) =
     pool_sum w s + w x + (if spawns then w (Some (RefreshAll (Gather None None))) else 0)"
proof -
  from st have tid: "tid < next_tid s" by (simp add: settled_def)
  note u = pool_sum_update [OF tid, of w "tasks s" x]
  show ?thesis
  proof (cases spawns)
    case False
    with st u show ?thesis by (simp add: settled_def pool_sum_def)
  next
    case True
    with st tid have "pool_sum w s' =
        (\<Sum>i < next_tid s. w (((tasks s)(tid := x)) i)) + w (Some (RefreshAll (Gather None None)))"
      by (simp add: settled_def pool_sum_def)
    with True u show ?thesis by (simp add: pool_sum_def)
  qed
qed

lemma settled_measures:
  assumes i: "session_inv s" and st: "settled tid x spawns s s'"
  shows "(s', s) \<in> measures [pool_sum posts_of, pool_sum ranges_of, pool_sum answers_of]"
proof -
  note p = pool_sum_settled [OF i st, of posts_of] pool_sum_settled [OF i st, of ranges_of]
    pool_sum_settled [OF i st, of answers_of]
  from st have "lower x spawns (tasks s tid)" by (simp add: settled_def)
  with p show ?thesis by (auto simp: lower_def split: if_splits)
qed

section \<open>Every answer lowers what is owed\<close>

lemma tasks_refresh_loop:
  "tasks (refresh_loop tid rest m s) =
     (tasks s)(tid := if rest = [] then None else Some (RefreshLoop rest m))"
  by (cases rest) (simp_all add: refresh_loop_def)

lemma tasks_refresh_loaded:
  "tasks (refresh_loaded tid ls us s) =
     (tasks s)(tid := if ls = [] then None else Some (RefreshLoop ls Map.empty))"
  by (simp add: refresh_loaded_def tasks_refresh_loop)

lemma tasks_refresh_rejected:
  "tasks (refresh_rejected tid e p other s) =
     (tasks s)(tid := if p then Some (RefreshOrphan other) else None)"
  by (simp add: refresh_rejected_def)

lemma settled_on_listings:
  assumes i: "session_inv s" and st: "on_listings tid out s = Some s'"
  shows "settled tid (tasks s' tid) False s s'"
proof -
  from st obtain t where t: "tasks s tid = Some t"
    by (auto simp: on_listings_def split: option.splits)
  with i have tid: "tid < next_tid s" using sinv_task by blast
  show ?thesis
  proof (cases t)
    case (RefreshAll g)
    with st t tid show ?thesis
      by (cases "(out, g)" rule: settle_fst.cases)
        (auto simp: on_listings_def settled_def lower_def tasks_refresh_loaded
          tasks_refresh_rejected split: if_splits)
  qed (use st t tid in \<open>auto simp: on_listings_def settled_def lower_def split: nearby.splits\<close>)
qed

lemma settled_on_urgent:
  assumes i: "session_inv s" and st: "on_urgent tid out s = Some s'"
  shows "settled tid (tasks s' tid) False s s'"
proof -
  from st obtain t where t: "tasks s tid = Some t"
    by (auto simp: on_urgent_def split: option.splits)
  with i have tid: "tid < next_tid s" using sinv_task by blast
  show ?thesis
  proof (cases t)
    case (RefreshAll g)
    with st t tid show ?thesis
      by (cases "(out, g)" rule: settle_snd.cases)
        (auto simp: on_urgent_def settled_def lower_def tasks_refresh_loaded
          tasks_refresh_rejected split: if_splits)
  qed (use st t tid in \<open>auto simp: on_urgent_def settled_def lower_def split: nearby.splits\<close>)
qed

lemma settled_on_reactions:
  assumes i: "session_inv s" and st: "on_reactions tid out s = Some s'"
  shows "settled tid (tasks s' tid) False s s'"
proof -
  from st obtain l rest m where t: "tasks s tid = Some (RefreshLoop (l # rest) m)"
    and s': "s' = refresh_loop tid rest (store_counts l out m) s"
    by (auto simp: on_reactions_def split: option.splits task.splits list.splits)
  with i have "tid < next_tid s" using sinv_task by blast
  with t show ?thesis
    unfolding s' by (simp add: settled_def lower_def tasks_refresh_loop)
qed

lemma settled_on_matching:
  assumes i: "session_inv s" and st: "on_matching tid out s = Some s'"
  shows "settled tid (tasks s' tid) False s s'"
proof -
  from st obtain u m where t: "tasks s tid = Some (Matching u m)"
    and s': "s' = matching_loaded tid u m out s"
    by (auto simp: on_matching_def split: option.splits task.splits)
  with i have "tid < next_tid s" using sinv_task by blast
  with t show ?thesis
    unfolding s' by (cases out) (simp_all add: settled_def lower_def matching_loaded_def)
qed

lemma settled_on_chatbot:
  assumes i: "session_inv s" and st: "on_chatbot tid out s = Some s'"
  shows "settled tid (tasks s' tid) False s s'"
proof -
  from st have t: "tasks s tid = Some Chatbot" and s': "s' = chatbot_answered tid out s"
    by (auto simp: on_chatbot_def split: option.splits task.splits)
  with i have "tid < next_tid s" using sinv_task by blast
  with t show ?thesis
    unfolding s' by (cases out) (simp_all add: settled_def lower_def chatbot_answered_def)
qed

lemma settled_on_post:
  assumes i: "session_inv s" and st: "on_post tid out s = Some s'"
  shows "settled tid (tasks s' tid) (next_tid s' \<noteq> next_tid s) s s'"
proof -
  from st obtain t where t: "tasks s tid = Some t"
    by (auto simp: on_post_def split: option.splits)
  with i obtain p where p: "coords (dash s) = Some p" and ok: "task_ok p t"
    and tid: "tid < next_tid s"
    using sinv_task by blast
  from st t ok tid show ?thesis
    by (cases t; cases out)
      (auto simp: on_post_def settled_def lower_def listing_created_def urgent_created_def
        reaction_posted_def status_updated_def responded_def refreshData_def)
qed

lemma backend_settled:
  assumes "session_inv s" and "cause_of e = Backend" and "step s e = Some s'"
  shows "\<exists>tid. settled tid (tasks s' tid) (next_tid s' \<noteq> next_tid s) s s'"
proof -
  have fin: "\<exists>tid. settled tid (tasks s' tid) (next_tid s' \<noteq> next_tid s) s s'"
    if "settled tid (tasks s' tid) False s s'" for tid
    using that by (auto simp: settled_def)
  note i = assms(1)
  note r = fin [OF settled_on_listings [OF i]] fin [OF settled_on_urgent [OF i]]
    fin [OF settled_on_reactions [OF i]] fin [OF settled_on_matching [OF i]]
    fin [OF settled_on_chatbot [OF i]]
  have post: "\<exists>tid. settled tid (tasks s' tid) (next_tid s' \<noteq> next_tid s) s s'"
    if "on_post tid out s = Some s'" for tid out
    using settled_on_post [OF i that] by blast
  from assms(2,3) show ?thesis
    by (cases e) (auto intro: r post)
qed

lemma backend_step_measures:
  "backend_step \<subseteq> measures [pool_sum posts_of, pool_sum ranges_of, pool_sum answers_of]"
  unfolding backend_step_def using backend_settled settled_measures by blast

lemma wf_backend_step: "wf backend_step"
  using backend_step_measures by (rule wf_subset [OF wf_measures])

section \<open>Every handler can be answered\<close>

lemma cause_of_answer_for [simp]: "cause_of (answer_for tid t) = Backend"
  by (cases "(tid, t)" rule: answer_for.cases) simp_all

lemma answer_for_enabled:
  assumes "session_inv s" and "tasks s tid = Some t"
  shows "\<exists>s'. step s (answer_for tid t) = Some s'"
proof -
  from assms obtain p where "task_ok p t" using sinv_task by blast
  with assms(2) show ?thesis
    by (cases "(tid, t)" rule: answer_for.cases)
      (auto simp: on_listings_def on_urgent_def on_reactions_def on_matching_def
        on_chatbot_def on_post_def neq_Nil_conv)
qed

lemma drained:
  assumes "session_inv s"
  shows "\<exists>es s'. list_all (\<lambda>e. cause_of e = Backend) es \<and> run s es = Some s'
     \<and> tasks s' = Map.empty"
  using wf_backend_step assms
proof (induction s rule: wf_induct_rule)
  case (less s)
  show ?case
  proof (cases "tasks s = Map.empty")
    case True
    then have "list_all (\<lambda>e. cause_of e = Backend) [] \<and> run s [] = Some s \<and> tasks s = Map.empty"
      by simp
    then show ?thesis by blast
  next
    case False
    then obtain tid t where t: "tasks s tid = Some t" by fastforce
    from answer_for_enabled [OF less.prems t] obtain s1
      where st: "step s (answer_for tid t) = Some s1" by blast
    have "cause_of (answer_for tid t) = Backend \<and> step s (answer_for tid t) = Some s1"
      using st by simp
    with less.prems have "(s1, s) \<in> backend_step"
      unfolding backend_step_def by blast
    moreover from less.prems st have "session_inv s1" by (rule sinv_step)
    ultimately have "(s1, s) \<in> backend_step" and "session_inv s1" .
    from less.IH [OF this] obtain es s' where es: "list_all (\<lambda>e. cause_of e = Backend) es"
      and r: "run s1 es = Some s'" and e: "tasks s' = Map.empty"
      by blast
    from es r st have "list_all (\<lambda>e. cause_of e = Backend) (answer_for tid t # es)
        \<and> run s (answer_for tid t # es) = Some s'"
      by simp
    with e show ?thesis by blast
  qed
qed

section \<open>Termination and liveness\<close>

text \<open>
  C11. The answers end. There is no infinite sequence of answers of the backend to a
  session in which the user does nothing: what the session is owed (answers to posts,
  then range answers, then reaction and other answers) gets lexicographically smaller
  with every answer.
\<close>

theorem answers_terminate: "\<not> (\<exists>f. \<forall>i. (f (Suc i), f i) \<in> backend_step)"
  using wf_backend_step by (simp add: wf_iff_no_infinite_down_chain)

text \<open>
  C12. Every handler can return. From every reachable state there are answers of the
  backend after which no handler is waiting: no handler depends on an event that cannot
  happen.
\<close>

theorem handlers_can_finish:
  assumes "reachable s"
  shows "\<exists>es s'. list_all (\<lambda>e. cause_of e = Backend) es \<and> run s es = Some s'
     \<and> tasks s' = Map.empty"
  using reachable_session_inv [OF assms] by (rule drained)

theorem handlers_can_finish_witness:
  "\<exists>s es s'. run browsing [ClickReaction ''like'' (NumId 1), ClickRespond (NumId 4)] = Some s
     \<and> dom (tasks s) = {1, 2}
     \<and> list_all (\<lambda>e. cause_of e = Backend) es \<and> run s es = Some s' \<and> tasks s' = Map.empty"
proof -
  obtain s where s: "run browsing [ClickReaction ''like'' (NumId 1), ClickRespond (NumId 4)] = Some s"
    and d: "dom (tasks s) = {1, 2}"
    by (auto simp: handleReaction_def handleGetMatchingListings_def known_types_def
        ladder_def jump_leads_def numeral_2_eq_2)
  from browsing_reachable s have "reachable s" by (rule run_reachable)
  from handlers_can_finish [OF this] s d show ?thesis by blast
qed

end
