(* ===== verification/Auth.thy ===== *)
theory Auth
  imports JS_Prelude
begin

text \<open>
  The two components in front of the dashboard (\<^verbatim>\<open>App.js\<close>, lines 8 to 78).
  \<^item> \<^verbatim>\<open>AuthGate\<close> holds what the identity provider last said about the user:
    nothing yet (\<^verbatim>\<open>undefined\<close>), nobody (\<^verbatim>\<open>null\<close>) or a user. \<open>on_auth_gate\<close> is
    its subscription callback (line 12) and \<open>gate_render\<close> what it renders (lines 16 to
    18).
  \<^item> \<^verbatim>\<open>LoginPage\<close> is a form with four state variables (lines 23 to 26).
    \<open>handleSubmit\<close> is the part of its handler that runs at the event, \<open>submit_request\<close>
    the call of the identity provider it makes, \<open>submit_settled\<close> the part that runs
    when that call settles; \<open>on_auth_login\<close> is its subscription callback (lines 29 to
    31). The remaining definitions are what the JSX of lines 50 to 77 decides.
  A user is known by an identifier, a string; the client never looks into it.
\<close>

section \<open>The gate\<close>

datatype gate_user = Unknown | NoUser | User string

datatype gate_view = Loading | ToLogin | Children

definition on_auth_gate :: "string option \<Rightarrow> gate_user" where
  "on_auth_gate u = (case u of None \<Rightarrow> NoUser | Some a \<Rightarrow> User a)"

fun gate_render :: "gate_user \<Rightarrow> gate_view" where
  "gate_render Unknown = Loading"
| "gate_render NoUser = ToLogin"
| "gate_render (User a) = Children"

section \<open>The login page\<close>

record login_page =
  isRegister :: bool
  email :: string
  password :: string
  error :: string

definition initial_login :: login_page where
  "initial_login = \<lparr>isRegister = False, email = '''', password = '''', error = ''''\<rparr>"

datatype auth_request = CreateUser string string | SignIn string string

definition handleSubmit :: "login_page \<Rightarrow> login_page" where
  "handleSubmit p = p\<lparr>error := ''''\<rparr>"

definition submit_request :: "login_page \<Rightarrow> auth_request" where
  "submit_request p =
     (if isRegister p then CreateUser (email p) (password p) else SignIn (email p) (password p))"

text \<open>
  When the call settles the handler navigates to the root, or stores the message of
  the error. The flag says whether it navigates.
\<close>

definition submit_settled :: "unit outcome \<Rightarrow> login_page \<Rightarrow> login_page \<times> bool" where
  "submit_settled out p =
     (case out of Resolved u \<Rightarrow> (p, True) | Rejected msg \<Rightarrow> (p\<lparr>error := msg\<rparr>, False))"

definition on_auth_login :: "string option \<Rightarrow> bool" where
  "on_auth_login u \<longleftrightarrow> u \<noteq> None"

definition set_email :: "string \<Rightarrow> login_page \<Rightarrow> login_page" where
  "set_email v p = p\<lparr>email := v\<rparr>"

definition set_password :: "string \<Rightarrow> login_page \<Rightarrow> login_page" where
  "set_password v p = p\<lparr>password := v\<rparr>"

definition toggle_register :: "login_page \<Rightarrow> login_page" where
  "toggle_register p = p\<lparr>isRegister := \<not> isRegister p\<rparr>"

definition shown_error :: "login_page \<Rightarrow> string option" where
  "shown_error p = (if error p = [] then None else Some (error p))"

definition login_heading :: "login_page \<Rightarrow> string" where
  "login_heading p = (if isRegister p then ''Create account'' else ''Log in'')"

definition submit_label :: "login_page \<Rightarrow> string" where
  "submit_label p = (if isRegister p then ''Sign up'' else ''Sign in'')"

lemmas auth_defs =
  on_auth_gate_def initial_login_def handleSubmit_def submit_request_def submit_settled_def
  on_auth_login_def set_email_def set_password_def toggle_register_def shown_error_def
  login_heading_def submit_label_def

section \<open>The gate lets a user through, and nobody else\<close>

lemma gate_render_on_auth:
  "gate_render (on_auth_gate u) = (case u of None \<Rightarrow> ToLogin | Some a \<Rightarrow> Children)"
  by (simp add: on_auth_gate_def split: option.splits)

lemma gate_render_Children_iff: "gate_render g = Children \<longleftrightarrow> (\<exists>a. g = User a)"
  by (cases g) simp_all

lemma on_auth_gate_known [simp]: "on_auth_gate u \<noteq> Unknown"
  by (simp add: on_auth_gate_def split: option.splits)

lemma toggle_register_twice [simp]: "toggle_register (toggle_register p) = p"
  by (simp add: toggle_register_def)

end
