(* ===== verification/App.thy ===== *)
theory App
  imports Auth Invariants
begin

text \<open>
  The application (\<^verbatim>\<open>App.js\<close>, lines 456 to 472): two routes, the login page at
  \<^verbatim>\<open>/login\<close> and, at every other path, the dashboard behind the gate. The state \<open>app\<close>
  holds the components that are mounted and the handlers that still run:
  \<^item> \<open>route\<close> is the route element shown. \<open>login\<close> is the state of the login page and
    \<open>login_id\<close> counts its mounts; \<open>gate\<close> is the state of the gate, and \<open>board\<close> the
    dashboard the gate renders, a machine of theory \<open>Client\<close>.
  \<^item> Leaving a route unmounts its components, and mounting starts them from their initial
    state. What a component had started goes on: \<open>departed\<close> are the dashboards that
    were unmounted, whose requests still settle and whose handlers then run to their end;
    \<open>submits\<close> are the calls of the identity provider in flight, each with the mount of
    the login page that made it, since a \<^verbatim>\<open>setError\<close> of an unmounted page does nothing.
  \<^item> The identity provider is outside: \<open>AuthChanged u\<close> is it calling the subscriber that
    is mounted, at its first answer and at every change.
\<close>

section \<open>State\<close>

datatype route = AtLogin | AtApp

record app =
  route :: route
  login :: login_page
  login_id :: nat
  gate :: gate_user
  board :: "sys option"
  departed :: "sys list"
  submits :: "nat \<rightharpoonup> nat"
  next_submit :: nat
  sent :: "auth_request list"

definition opened :: "route \<Rightarrow> app" where
  "opened r = \<lparr>route = r, login = initial_login, login_id = 0, gate = Unknown, board = None,
     departed = [], submits = Map.empty, next_submit = 0, sent = []\<rparr>"

datatype app_event =
    AuthChanged "string option"
  | SetEmail string
  | SetPassword string
  | ToggleRegister
  | SubmitLogin
  | LoginSettled nat "unit outcome"
  | Board event
  | Departed nat event

section \<open>Navigation\<close>

text \<open>
  \<^verbatim>\<open>navigate('/')\<close> mounts the gate, unless the route shown is already the one that matches.
  \<^verbatim>\<open><Navigate to="/login">\<close>, rendered by the gate, unmounts the gate and the dashboard
  and mounts the login page.
\<close>

definition navigate_root :: "app \<Rightarrow> app" where
  "navigate_root a =
     (case route a of
        AtApp \<Rightarrow> a
      | AtLogin \<Rightarrow> a\<lparr>route := AtApp, gate := Unknown, board := None\<rparr>)"

definition navigate_login :: "app \<Rightarrow> app" where
  "navigate_login a =
     a\<lparr>route := AtLogin, login := initial_login, login_id := Suc (login_id a),
       departed := departed a @ (case board a of None \<Rightarrow> [] | Some d \<Rightarrow> [d]), board := None\<rparr>"

definition gate_changed :: "string option \<Rightarrow> app \<Rightarrow> app" where
  "gate_changed u a =
     (let g = on_auth_gate u in
      case gate_render g of
        Loading \<Rightarrow> a\<lparr>gate := g, board := None\<rparr>
      | ToLogin \<Rightarrow> navigate_login (a\<lparr>gate := g\<rparr>)
      | Children \<Rightarrow>
          a\<lparr>gate := g, board := Some (case board a of None \<Rightarrow> mounted | Some d \<Rightarrow> d)\<rparr>)"

definition auth_changed :: "string option \<Rightarrow> app \<Rightarrow> app" where
  "auth_changed u a =
     (case route a of
        AtLogin \<Rightarrow> if on_auth_login u then navigate_root a else a
      | AtApp \<Rightarrow> gate_changed u a)"

section \<open>The login page in the application\<close>

definition submit_login :: "app \<Rightarrow> app" where
  "submit_login a =
     a\<lparr>login := handleSubmit (login a), sent := sent a @ [submit_request (login a)],
       submits := (submits a)(next_submit a \<mapsto> login_id a),
       next_submit := Suc (next_submit a)\<rparr>"

definition login_settled :: "nat \<Rightarrow> nat \<Rightarrow> unit outcome \<Rightarrow> app \<Rightarrow> app" where
  "login_settled tid k out a =
     (let (p, nav) = submit_settled out (login a);
          a' = a\<lparr>submits := (submits a)(tid := None)\<rparr>;
          a'' = (if route a = AtLogin \<and> login_id a = k then a'\<lparr>login := p\<rparr> else a')
      in if nav then navigate_root a'' else a'')"

section \<open>Steps\<close>

definition at_login :: "app \<Rightarrow> app \<Rightarrow> app option" where
  "at_login a a' = (if route a = AtLogin then Some a' else None)"

fun app_step :: "app \<Rightarrow> app_event \<Rightarrow> app option" where
  "app_step a (AuthChanged u) = Some (auth_changed u a)"
| "app_step a (SetEmail v) = at_login a (a\<lparr>login := set_email v (login a)\<rparr>)"
| "app_step a (SetPassword v) = at_login a (a\<lparr>login := set_password v (login a)\<rparr>)"
| "app_step a ToggleRegister = at_login a (a\<lparr>login := toggle_register (login a)\<rparr>)"
| "app_step a SubmitLogin = at_login a (submit_login a)"
| "app_step a (LoginSettled tid out) =
     (case submits a tid of None \<Rightarrow> None | Some k \<Rightarrow> Some (login_settled tid k out a))"
| "app_step a (Board e) =
     (case board a of
        None \<Rightarrow> None
      | Some d \<Rightarrow> map_option (\<lambda>d'. a\<lparr>board := Some d'\<rparr>) (step d e))"
| "app_step a (Departed i e) =
     (if i < length (departed a) \<and> \<not> user_event e
      then map_option (\<lambda>d'. a\<lparr>departed := (departed a)[i := d']\<rparr>) (step (departed a ! i) e)
      else None)"

fun app_run :: "app \<Rightarrow> app_event list \<Rightarrow> app option" where
  "app_run a [] = Some a"
| "app_run a (e # es) = (case app_step a e of None \<Rightarrow> None | Some a' \<Rightarrow> app_run a' es)"

inductive app_reachable :: "app \<Rightarrow> bool" where
  start: "app_reachable (opened r)"
| after: "app_reachable a \<Longrightarrow> app_step a e = Some a' \<Longrightarrow> app_reachable a'"

lemmas app_defs =
  opened_def navigate_root_def navigate_login_def gate_changed_def auth_changed_def
  submit_login_def login_settled_def at_login_def

section \<open>Runs\<close>

lemma at_login_Some_iff [simp]: "at_login a a' = Some b \<longleftrightarrow> route a = AtLogin \<and> b = a'"
  by (auto simp: at_login_def)

lemma app_run_append:
  "app_run a (es @ es') = (case app_run a es of None \<Rightarrow> None | Some a' \<Rightarrow> app_run a' es')"
  by (induction es arbitrary: a) (auto split: option.splits)

lemma app_run_reachable: "app_reachable a \<Longrightarrow> app_run a es = Some a' \<Longrightarrow> app_reachable a'"
  by (induction es arbitrary: a) (auto split: option.splits intro: app_reachable.after)

lemma app_run_Board:
  "board a = Some d \<Longrightarrow> run d es = Some d' \<Longrightarrow>
   app_run a (map Board es) = Some (a\<lparr>board := Some d'\<rparr>)"
  by (induction es arbitrary: a d) (auto split: option.splits)

section \<open>The invariant of the application\<close>

text \<open>
  A dashboard is on the screen exactly when the gate is on the screen and knows a user.
  Every dashboard, on the screen or not, is in a state the component can reach from
  its mount. A call of the identity provider in flight was made by a mount of the login
  page that has happened.
\<close>

definition boards :: "app \<Rightarrow> sys list" where
  "boards a = (case board a of None \<Rightarrow> [] | Some d \<Rightarrow> [d]) @ departed a"

definition app_inv :: "app \<Rightarrow> bool" where
  "app_inv a \<longleftrightarrow>
     (board a \<noteq> None \<longleftrightarrow> route a = AtApp \<and> gate_render (gate a) = Children) \<and>
     (route a = AtApp \<longrightarrow> gate a \<noteq> NoUser) \<and>
     (\<forall>d \<in> set (boards a). reachable d) \<and>
     (\<forall>tid k. submits a tid = Some k \<longrightarrow> tid < next_submit a \<and> k \<le> login_id a)"

lemma app_inv_opened: "app_inv (opened r)"
  by (simp add: app_inv_def opened_def boards_def)

lemma app_inv_navigate_root: "app_inv a \<Longrightarrow> app_inv (navigate_root a)"
  by (auto simp: app_inv_def navigate_root_def boards_def split: route.splits)

lemma app_inv_navigate_login:
  "app_inv a \<Longrightarrow> route a = AtApp \<Longrightarrow> app_inv (navigate_login (a\<lparr>gate := g\<rparr>))"
  by (fastforce simp: app_inv_def navigate_login_def boards_def split: option.splits)

lemma app_inv_gate_changed: "app_inv a \<Longrightarrow> route a = AtApp \<Longrightarrow> app_inv (gate_changed u a)"
  unfolding gate_changed_def Let_def
  by (cases u)
    (auto simp: on_auth_gate_def intro: app_inv_navigate_login,
      auto simp: app_inv_def boards_def intro: reachable.start split: option.splits)

lemma app_inv_login:
  "app_inv a \<Longrightarrow> app_inv (a\<lparr>login := p\<rparr>)"
  by (simp add: app_inv_def boards_def)

lemma app_inv_submit_login: "app_inv a \<Longrightarrow> app_inv (submit_login a)"
  by (auto simp: app_inv_def submit_login_def boards_def less_Suc_eq split: if_splits)

lemma app_inv_settle: "app_inv a \<Longrightarrow> app_inv (a\<lparr>submits := (submits a)(tid := None)\<rparr>)"
  by (auto simp: app_inv_def boards_def split: if_splits)

lemma app_inv_login_settled: "app_inv a \<Longrightarrow> app_inv (login_settled tid k out a)"
  by (auto simp: login_settled_def Let_def split: prod.splits
      intro!: app_inv_navigate_root app_inv_login app_inv_settle)

lemma app_inv_board:
  "app_inv a \<Longrightarrow> board a = Some d \<Longrightarrow> step d e = Some d' \<Longrightarrow> app_inv (a\<lparr>board := Some d'\<rparr>)"
  by (auto simp: app_inv_def boards_def intro: reachable.after)

lemma app_inv_departed:
  assumes "app_inv a" and "i < length (departed a)" and "step (departed a ! i) e = Some d'"
  shows "app_inv (a\<lparr>departed := (departed a)[i := d']\<rparr>)"
proof -
  from assms have "reachable d'"
    by (auto simp: app_inv_def boards_def intro: reachable.after)
  with assms(1) show ?thesis
    by (auto simp: app_inv_def boards_def dest!: set_update_subset_insert [THEN subsetD]
        split: option.splits)
qed

lemma app_inv_step:
  assumes "app_inv a" and "app_step a e = Some a'"
  shows "app_inv a'"
proof (cases e)
  case (AuthChanged u)
  with assms show ?thesis
    by (cases "route a")
      (auto simp: auth_changed_def intro: app_inv_navigate_root app_inv_gate_changed)
next
  case (LoginSettled tid out)
  with assms show ?thesis by (auto split: option.splits intro: app_inv_login_settled)
next
  case (Board e)
  with assms show ?thesis by (auto split: option.splits intro: app_inv_board)
next
  case (Departed i e)
  with assms show ?thesis by (auto split: if_splits intro: app_inv_departed)
qed (use assms in \<open>auto intro: app_inv_login app_inv_submit_login\<close>)

lemma reachable_app_inv: "app_reachable a \<Longrightarrow> app_inv a"
  by (induction rule: app_reachable.induct) (auto intro: app_inv_opened app_inv_step)

section \<open>Scenarios\<close>

text \<open>
  \<open>signed_in\<close>: the application opened at the root, after the identity provider named
  a user. \<open>typed\<close>: the login page with an address and a password typed in.
\<close>

definition signed_in :: app where
  "signed_in = (opened AtApp)\<lparr>gate := User ''ada'', board := Some mounted\<rparr>"

definition typed :: app where
  "typed = (opened AtLogin)\<lparr>login := initial_login\<lparr>email := ''ada@example.org'',
     password := ''secret''\<rparr>\<rparr>"

lemma signed_in_run: "app_run (opened AtApp) [AuthChanged (Some ''ada'')] = Some signed_in"
  by (simp add: signed_in_def app_defs auth_defs)

lemma typed_run:
  "app_run (opened AtLogin) [SetEmail ''ada@example.org'', SetPassword ''secret''] = Some typed"
  by (simp add: typed_def app_defs auth_defs)

lemma signed_in_reachable: "app_reachable signed_in"
  using app_run_reachable [OF app_reachable.start signed_in_run] .

lemma typed_reachable: "app_reachable typed"
  using app_run_reachable [OF app_reachable.start typed_run] .

section \<open>What the gate guarantees\<close>

text \<open>
  C13. In every state the application can reach, a dashboard is on the screen exactly when
  the route of the gate is shown and the gate holds a user; and every dashboard, on the
  screen or unmounted, is in a state that \<^verbatim>\<open>Dashboard\<close> reaches from its mount.
\<close>

theorem dashboard_behind_gate:
  assumes "app_reachable a"
  shows "(board a \<noteq> None \<longleftrightarrow> route a = AtApp \<and> (\<exists>u. gate a = User u)) \<and>
         (\<forall>d \<in> set (boards a). reachable d)"
  using reachable_app_inv [OF assms] by (simp add: app_inv_def gate_render_Children_iff)

theorem dashboard_behind_gate_witness:
  "app_reachable signed_in \<and>
   (board signed_in \<noteq> None \<longleftrightarrow> route signed_in = AtApp \<and> (\<exists>u. gate signed_in = User u)) \<and>
   list_all reachable (boards signed_in)"
  using dashboard_behind_gate [OF signed_in_reachable] signed_in_reachable
  by (simp add: list_all_iff)

text \<open>
  C36. Signing in from the login page: the submission sends one request to the identity
  provider, for an account or for a session as the switch says, with the address and
  the password typed; when it succeeds the gate is mounted knowing nothing, and when the
  provider then names the user a fresh dashboard is mounted.
\<close>

theorem sign_in_mounts_dashboard:
  assumes "route a = AtLogin"
  shows "app_run a [SubmitLogin, LoginSettled (next_submit a) (Resolved ()),
           AuthChanged (Some u)] =
         Some (a\<lparr>route := AtApp, login := handleSubmit (login a), gate := User u,
           board := Some mounted, submits := (submits a)(next_submit a := None),
           next_submit := Suc (next_submit a),
           sent := sent a @ [submit_request (login a)]\<rparr>)"
  using assms by (simp add: app_defs auth_defs)

theorem sign_in_mounts_dashboard_witness:
  "route typed = AtLogin \<and>
   (case app_run typed [SubmitLogin, LoginSettled 0 (Resolved ()), AuthChanged (Some ''ada'')] of
      None \<Rightarrow> False
    | Some a \<Rightarrow> board a = Some mounted \<and> gate a = User ''ada'' \<and>
        sent a = [SignIn ''ada@example.org'' ''secret''])"
proof -
  have "next_submit typed = 0" and "route typed = AtLogin"
    by (simp_all add: typed_def opened_def)
  with sign_in_mounts_dashboard [of typed "''ada''"] show ?thesis
    by (simp add: typed_def opened_def auth_defs)
qed

text \<open>
  C37. A submission that the identity provider rejects leaves the login page on the
  screen with what was typed, and shows the message of the rejection, unless the message
  is empty; while the request is in flight the page shows no error.
\<close>

theorem sign_in_rejected:
  assumes "route a = AtLogin"
  shows "\<exists>a1 a2. app_step a SubmitLogin = Some a1 \<and> shown_error (login a1) = None \<and>
           app_step a1 (LoginSettled (next_submit a) (Rejected msg)) = Some a2 \<and>
           route a2 = AtLogin \<and> board a2 = board a \<and>
           login a2 = (login a)\<lparr>error := msg\<rparr> \<and>
           shown_error (login a2) = (if msg = [] then None else Some msg)"
  using assms by (simp add: app_defs auth_defs)

theorem sign_in_rejected_witness:
  "route typed = AtLogin \<and>
   (\<exists>a1 a2. app_step typed SubmitLogin = Some a1 \<and> shown_error (login a1) = None \<and>
      app_step a1 (LoginSettled (next_submit typed) (Rejected ''auth/wrong-password'')) =
        Some a2 \<and>
      route a2 = AtLogin \<and> board a2 = board typed \<and>
      login a2 = (login typed)\<lparr>error := ''auth/wrong-password''\<rparr> \<and>
      shown_error (login a2) =
        (if ''auth/wrong-password'' = [] then None else Some ''auth/wrong-password''))"
proof -
  have "route typed = AtLogin" by (simp add: typed_def opened_def)
  with sign_in_rejected [of typed "''auth/wrong-password''"] show ?thesis by blast
qed

text \<open>
  C35. Signing out does not stop what the dashboard had started. An answer of the device
  or of the backend that the dashboard would have taken on the screen, it takes after
  the gate has unmounted it, with the same effects: the two orders of the answer and of
  the provider's notice end in the same state.
\<close>

theorem sign_out_keeps_handlers:
  assumes "route a = AtApp" and "board a = Some d" and "step d e = Some d'"
    and "\<not> user_event e"
  shows "app_run a [AuthChanged None, Departed (length (departed a)) e] =
           app_run a [Board e, AuthChanged None] \<and>
         app_run a [AuthChanged None, Departed (length (departed a)) e] =
           Some (a\<lparr>route := AtLogin, login := initial_login, login_id := Suc (login_id a),
             gate := NoUser, board := None, departed := departed a @ [d']\<rparr>)"
  using assms by (simp add: app_defs auth_defs)

theorem sign_out_keeps_handlers_witness:
  "route signed_in = AtApp \<and> board signed_in = Some mounted \<and>
   \<not> user_event (Geo (Position 52 13)) \<and>
   (case app_run signed_in [AuthChanged None, Departed 0 (Geo (Position 52 13))] of
      None \<Rightarrow> False
    | Some a \<Rightarrow> route a = AtLogin \<and>
        map (\<lambda>d. requests_of (effects d)) (departed a) =
          [[GetListings 52 13 nearby_radius, GetUrgentNearby 52 13 nearby_radius]])"
proof -
  obtain d where d: "step mounted (Geo (Position 52 13)) = Some d"
    and r: "requests_of (effects d) =
      [GetListings 52 13 nearby_radius, GetUrgentNearby 52 13 nearby_radius]"
    by (simp add: on_geo_def mounted_def refreshData_def suspend_def setState_def)
  have s: "route signed_in = AtApp" "board signed_in = Some mounted" "departed signed_in = []"
    "\<not> user_event (Geo (Position 52 13))"
    by (simp_all add: signed_in_def opened_def user_event_def)
  note k = sign_out_keeps_handlers [OF s(1,2) d s(4), unfolded s(3) list.size, THEN conjunct2]
  show ?thesis unfolding k using s r by simp
qed

end
