(* ===== verification/Render.thy ===== *)
theory Render
  imports Client
begin

text \<open>
  What \<^verbatim>\<open>Dashboard\<close> returns (\<^verbatim>\<open>App.js\<close>, lines 228 to 453), as the list of the
  things on the screen in document order. An \<open>item\<close> is a text, or a control with the
  event it raises: a button with its click handler, an input with its change handler, a
  submit button with the submit handler of its form and whether the browser lets the
  form through. Texts are lists of \<open>piece\<close>s: literal strings, symbols outside ASCII
  by their code point, counters, and numbers of kilometres. Class names, placeholders and
  the nesting of the elements are left out.

  \<open>render\<close> is the whole screen; \<open>raises\<close> says which events a control can raise, and
  \<open>offers\<close> whether some item of a list does. The theorems relate \<open>render\<close> to \<open>step\<close>:
  the user can raise exactly the events that \<open>step\<close> accepts.
\<close>

section \<open>Items\<close>

datatype piece = Lit string | Glyph nat | Count jsnum | Km real

datatype field = QueryField | TitleField | DescriptionField | UrgentTitleField
  | UrgentDescriptionField

datatype box = FreeBox | TradeBox

datatype item =
    Text "piece list"
  | Button "piece list" event
  | Overlay event
  | TextInput field string
  | Select "string list" string
  | Checkbox box bool
  | NumberInput real
  | Submit "piece list" bool event
  | Link "piece list" string

fun edited :: "event \<Rightarrow> field option" where
  "edited (SetChatbotQuery v) = Some QueryField"
| "edited (SetFormTitle v) = Some TitleField"
| "edited (SetFormDescription v) = Some DescriptionField"
| "edited (SetUrgentTitle v) = Some UrgentTitleField"
| "edited (SetUrgentDescription v) = Some UrgentDescriptionField"
| "edited e = None"

fun ticked :: "event \<Rightarrow> box option" where
  "ticked (SetFormIsFree v) = Some FreeBox"
| "ticked (SetFormIsTrade v) = Some TradeBox"
| "ticked e = None"

fun chosen :: "event \<Rightarrow> string option" where
  "chosen (SetFormType v) = Some v"
| "chosen e = None"

fun turned :: "event \<Rightarrow> bool" where
  "turned (SetUrgentRadius v) = True"
| "turned e = False"

fun raises :: "item \<Rightarrow> event \<Rightarrow> bool" where
  "raises (Button t e) x \<longleftrightarrow> x = e"
| "raises (Overlay e) x \<longleftrightarrow> x = e"
| "raises (Submit t ok e) x \<longleftrightarrow> ok \<and> x = e"
| "raises (TextInput f v) x \<longleftrightarrow> edited x = Some f"
| "raises (Select opts v) x \<longleftrightarrow> (case chosen x of None \<Rightarrow> False | Some w \<Rightarrow> w \<in> set opts)"
| "raises (Checkbox b v) x \<longleftrightarrow> ticked x = Some b"
| "raises (NumberInput v) x \<longleftrightarrow> turned x"
| "raises (Text t) x \<longleftrightarrow> False"
| "raises (Link t h) x \<longleftrightarrow> False"

definition offers :: "item list \<Rightarrow> event \<Rightarrow> bool" where
  "offers its x \<longleftrightarrow> list_ex (\<lambda>i. raises i x) its"

section \<open>Texts\<close>

text \<open>\<^verbatim>\<open>toUpperCase\<close> on the letters of ASCII.\<close>

definition upper_char :: "char \<Rightarrow> char" where
  "upper_char c =
     (let n = of_char c :: nat in if 97 \<le> n \<and> n \<le> 122 then char_of (n - 32) else c)"

definition js_upper :: "string \<Rightarrow> string" where
  "js_upper = map upper_char"

definition middot :: "piece list" where
  "middot = [Lit '' '', Glyph 183, Lit '' '']"

text \<open>
  A counter in a button, \<^verbatim>\<open>{listingReactions.like}\<close>: React renders a number, also
  \<^verbatim>\<open>NaN\<close>, and nothing for \<^verbatim>\<open>undefined\<close>.
\<close>

definition counter :: "counts \<Rightarrow> string \<Rightarrow> piece list" where
  "counter c ty = (case c ty of None \<Rightarrow> [] | Some n \<Rightarrow> [Count n])"

section \<open>The parts of the screen\<close>

definition topbar :: "dashboard \<Rightarrow> item list" where
  "topbar d =
     [Text [Lit ''Neighbour Node''],
      Button (if showChatbot d then [Glyph 10060, Lit '' Close Chatbot'']
              else [Glyph 129302, Lit '' Ask Chatbot'']) ToggleChatbot,
      Button [Lit ''Log out''] ClickLogout]"

text \<open>
  Line 261, \<^verbatim>\<open>{s.distance_km && <span>...</span>}\<close>: for a distance of 0 the expression is
  the number 0, which React renders as text.
\<close>

definition suggestion_item :: "suggestion \<Rightarrow> item" where
  "suggestion_item s =
     Text ([Lit (s_title s), Lit '' - '', Lit (s_description s)] @
       (case s_distance_km s of
          None \<Rightarrow> []
        | Some k \<Rightarrow> if k = 0 then [Km 0] else [Lit '' ('', Km k, Lit '' km away)'']))"

definition link_item :: "external_link \<Rightarrow> item" where
  "link_item k = Link [Lit (k_icon k), Lit '' '', Lit (k_platform k)] (k_url k)"

definition chatbot_answer :: "chatbot_response \<Rightarrow> item list" where
  "chatbot_answer r =
     Text [Lit (response r)] #
     (if shown_suggestions r = [] then []
      else Text [Lit ''Local Listings:''] # map suggestion_item (shown_suggestions r)) @
     (if shown_links r = [] then []
      else Text [Lit ''Check Delivery Platforms:''] # map link_item (shown_links r))"

definition chatbot_panel :: "dashboard \<Rightarrow> item list" where
  "chatbot_panel d =
     (if showChatbot d then
        [Text [Glyph 129302, Lit '' Search Assistant''],
         Text [Lit ''Ask me to find items in nearby listings or check delivery platforms!''],
         TextInput QueryField (chatbotQuery d),
         Submit [Lit ''Search''] True SubmitChatbot] @
        (case chatbotResponse d of None \<Rightarrow> [] | Some r \<Rightarrow> chatbot_answer r)
      else [])"

definition listing_form_items :: "dashboard \<Rightarrow> item list" where
  "listing_form_items d =
     [Text [Lit ''Share something''],
      TextInput TitleField (f_title (form d)),
      TextInput DescriptionField (f_description (form d)),
      Text [Lit ''Type:''], Select listing_types (f_type (form d)),
      Text [Lit ''Free?''], Checkbox FreeBox (f_is_free (form d)),
      Text [Lit ''Open to trade?''], Checkbox TradeBox (f_is_trade (form d)),
      Submit [Lit ''Post listing''] (listing_form_valid (form d)) SubmitListing]"

definition reaction_buttons :: "counts \<Rightarrow> ident \<Rightarrow> item list" where
  "reaction_buttons c lid =
     [Button ([Glyph 128077, Lit '' ''] @ counter c ''like'') (ClickReaction ''like'' lid),
      Button ([Glyph 9989, Lit '' ''] @ counter c ''helpful'') (ClickReaction ''helpful'' lid),
      Button ([Glyph 10003, Lit '' Available ''] @ counter c ''available'')
        (ClickReaction ''available'' lid),
      Button ([Glyph 10007, Lit '' Used ''] @ counter c ''unavailable'')
        (ClickReaction ''unavailable'' lid)]"

definition status_buttons :: "listing \<Rightarrow> item list" where
  "status_buttons l =
     (if status_actions l then
        [Button [Lit ''Mark as Reserved''] (ClickStatus (l_id l) MarkReserved),
         Button [Lit ''Mark as Used Up''] (ClickStatus (l_id l) MarkUsedUp)]
      else [])"

definition listing_card :: "dashboard \<Rightarrow> listing \<Rightarrow> item list" where
  "listing_card d l =
     [Text [Lit (l_title l)], Text [Lit (l_description l)],
      Text ([Lit (js_upper (l_type l))] @ middot @
            [Lit (if l_is_free l then ''Free'' else ''Paid/Trade'')] @ middot @
            [Lit ''Status: '', Lit (l_status l)])] @
     reaction_buttons (shown_counts d l) (l_id l) @ status_buttons l"

definition listing_list :: "dashboard \<Rightarrow> item list" where
  "listing_list d =
     Text [Lit ''Nearby listings''] # concat (map (listing_card d) (listings d)) @
     (if listings d = [] then [Text [Lit ''No nearby listings yet.'']] else [])"

definition urgent_form_items :: "dashboard \<Rightarrow> item list" where
  "urgent_form_items d =
     [Text [Lit ''Urgent need''],
      TextInput UrgentTitleField (uf_title (urgentForm d)),
      TextInput UrgentDescriptionField (uf_description (urgentForm d)),
      Text [Lit ''Radius (km)''], NumberInput (uf_radius_km (urgentForm d)),
      Submit [Lit ''Broadcast urgent need''] (urgent_form_valid (urgentForm d)) SubmitUrgent]"

definition urgent_card :: "urgent_need \<Rightarrow> item list" where
  "urgent_card u =
     [Text [Lit (u_title u)], Text [Lit (u_description u)],
      Text [Lit ''Within '', Km (u_radius_km u), Lit '' km''],
      Button [Glyph 128203, Lit '' Respond with my listing''] (ClickRespond (u_id u))]"

definition urgent_list :: "dashboard \<Rightarrow> item list" where
  "urgent_list d =
     Text [Lit ''Urgent needs near you''] # concat (map urgent_card (urgent d)) @
     (if urgent d = [] then [Text [Lit ''No active urgent needs nearby.'']] else [])"

definition candidate_item :: "listing \<Rightarrow> item list" where
  "candidate_item l =
     [Text [Lit (l_title l)], Text [Lit (l_description l)],
      Text ([Lit (l_type l)] @ middot @ [Lit (if l_is_free l then ''Free'' else ''Paid'')]),
      Button [Lit ''Use this listing''] (ClickUseListing (l_id l))]"

definition dialogue :: "dashboard \<Rightarrow> item list" where
  "dialogue d =
     (case modal d of
        None \<Rightarrow> []
      | Some (u, ls) \<Rightarrow>
          [Overlay CloseModal, Text [Lit ''Select a listing to respond with:'']] @
          (if ls = [] then [Text [Lit ''No matching listings found. Create a listing first!'']]
           else concat (map candidate_item ls)) @
          [Button [Lit ''Close''] CloseModal])"

definition render :: "dashboard \<Rightarrow> item list" where
  "render d =
     topbar d @ chatbot_panel d @ listing_form_items d @ listing_list d @
     urgent_form_items d @ urgent_list d @ dialogue d"

lemmas render_defs =
  topbar_def suggestion_item_def link_item_def chatbot_answer_def chatbot_panel_def
  listing_form_items_def reaction_buttons_def status_buttons_def listing_card_def
  listing_list_def urgent_form_items_def urgent_card_def urgent_list_def candidate_item_def
  dialogue_def middot_def counter_def

section \<open>What a list of items offers\<close>

lemma offers_Nil [simp]: "\<not> offers [] x"
  by (simp add: offers_def)

lemma offers_Cons [simp]: "offers (i # its) x \<longleftrightarrow> raises i x \<or> offers its x"
  by (simp add: offers_def)

lemma offers_append [simp]: "offers (its @ its') x \<longleftrightarrow> offers its x \<or> offers its' x"
  by (simp add: offers_def)

lemma offers_concat_map: "offers (concat (map f ys)) x \<longleftrightarrow> (\<exists>y \<in> set ys. offers (f y) x)"
  by (induction ys) auto

lemma offers_iff: "offers its x \<longleftrightarrow> (\<exists>i \<in> set its. raises i x)"
  by (simp add: offers_def list_ex_iff)

section \<open>What each part offers\<close>

lemma offers_topbar: "offers (topbar d) x \<longleftrightarrow> x = ToggleChatbot \<or> x = ClickLogout"
  by (simp add: topbar_def)

lemma offers_chatbot_answer: "\<not> offers (chatbot_answer r) x"
  by (auto simp: chatbot_answer_def offers_iff suggestion_item_def link_item_def)

lemma offers_chatbot_panel:
  "offers (chatbot_panel d) x \<longleftrightarrow> showChatbot d \<and> (edited x = Some QueryField \<or> x = SubmitChatbot)"
  by (auto simp: chatbot_panel_def offers_chatbot_answer split: option.splits)

lemma offers_listing_form_items:
  "offers (listing_form_items d) x \<longleftrightarrow>
     edited x = Some TitleField \<or> edited x = Some DescriptionField \<or>
     (\<exists>w \<in> set listing_types. chosen x = Some w) \<or> ticked x \<noteq> None \<or>
     listing_form_valid (form d) \<and> x = SubmitListing"
  by (cases "ticked x"; cases "chosen x") (auto simp: listing_form_items_def, (metis box.exhaust)+)

lemma offers_listing_card:
  "offers (listing_card d l) x \<longleftrightarrow>
     (\<exists>ty \<in> set known_types. x = ClickReaction ty (l_id l)) \<or>
     status_actions l \<and> (\<exists>st. x = ClickStatus (l_id l) st)"
  by (auto simp: listing_card_def reaction_buttons_def status_buttons_def known_types_def
      intro: status_change.exhaust)

lemma offers_listing_list:
  "offers (listing_list d) x \<longleftrightarrow> (\<exists>l \<in> set (listings d). offers (listing_card d l) x)"
  by (simp add: listing_list_def offers_concat_map)

lemma offers_urgent_form_items:
  "offers (urgent_form_items d) x \<longleftrightarrow>
     edited x = Some UrgentTitleField \<or> edited x = Some UrgentDescriptionField \<or> turned x \<or>
     urgent_form_valid (urgentForm d) \<and> x = SubmitUrgent"
  by (auto simp: urgent_form_items_def)

lemma offers_urgent_list:
  "offers (urgent_list d) x \<longleftrightarrow> (\<exists>u \<in> set (urgent d). x = ClickRespond (u_id u))"
  by (simp add: urgent_list_def offers_concat_map urgent_card_def)

lemma offers_dialogue:
  "offers (dialogue d) x \<longleftrightarrow>
     (case modal d of
        None \<Rightarrow> False
      | Some (u, ls) \<Rightarrow> x = CloseModal \<or> (\<exists>l \<in> set ls. x = ClickUseListing (l_id l)))"
  by (auto simp: dialogue_def offers_concat_map candidate_item_def split: option.splits)

lemmas offers_render =
  render_def offers_append offers_topbar offers_chatbot_panel offers_listing_form_items
  offers_listing_list offers_listing_card offers_urgent_form_items offers_urgent_list
  offers_dialogue

section \<open>The screen and the steps\<close>

lemma offers_user_event: "offers (render d) e \<Longrightarrow> user_event e"
  by (cases e) (auto simp: offers_render user_event_def split: option.splits)

text \<open>
  C14. The user can raise exactly the events the client accepts. An event is raised by
  some control of the screen of a state exactly when it is an event of the user that
  \<open>step\<close> takes in that state: every control that is rendered has its handler run, and
  no handler runs for a control that is not there or a form the browser holds back.
\<close>

theorem offered_iff_enabled:
  "offers (render (dash s)) e \<longleftrightarrow> user_event e \<and> (\<exists>s'. step s e = Some s')"
  by (cases e) (auto simp: offers_render user_event_def split: option.splits)

text \<open>
  A suggestion of the chatbot at distance 0 is followed by the digit 0: line 261 renders
  the left operand of \<^verbatim>\<open>&&\<close> when it is falsy, and React shows the number 0.
\<close>

lemma zero_distance_shown:
  "s_distance_km s = Some 0 \<Longrightarrow>
     suggestion_item s = Text [Lit (s_title s), Lit '' - '', Lit (s_description s), Km 0]"
  by (simp add: suggestion_item_def)

text \<open>A button of a card shows its counter as a number when the counters are well formed.\<close>

lemma counter_shown:
  "counts_wf c \<Longrightarrow> ty \<in> set known_types \<Longrightarrow>
     \<exists>n \<le> max_exact. counter c ty = [Count (Num n)]"
  by (auto simp: counts_wf_def counter_def known_types_def split: option.splits jsnum.splits)

end
