(* ===== verification/Overlap.thy ===== *)
theory Overlap
  imports Scenario
begin

text \<open>
  Two calls of \<^verbatim>\<open>refreshData\<close> (\<^verbatim>\<open>App.js\<close>, lines 119 to 149) whose answers arrive
  in any order. A \<open>call\<close> is a refresh with the answers the backend gives it; \<open>events_of\<close>
  are these answers in the order the handler can take them. The handler reads nothing
  of the state but its own entry of the pool: \<open>task_at c k\<close> is that entry after \<open>k\<close>
  answers, \<open>write_at c k\<close> what the next answer writes to the component state and
  \<open>sent_at c k\<close> what it sends (lemma \<open>step_at\<close>). \<open>replay\<close> applies the writes of two
  calls in the order of an interleaving of their answers. The theorems say that every
  interleaving runs to the end, what it sends, and which call's answers the state holds
  at the end.
\<close>

section \<open>One call, answer by answer\<close>

record call =
  c_tid :: nat
  c_arrival :: arrival
  c_listings :: "listing list"
  c_urgent :: "urgent_need list"
  c_outs :: "reaction list outcome list"

definition events_of :: "call \<Rightarrow> event list" where
  "events_of c = refresh_events (c_arrival c) (c_tid c) (c_listings c) (c_urgent c) (c_outs c)"

definition counted :: "call \<Rightarrow> string \<rightharpoonup> counts" where
  "counted c = reactions_after (c_listings c) (c_outs c) Map.empty"

definition task_at :: "call \<Rightarrow> nat \<Rightarrow> task option" where
  "task_at c k =
     (if k = 0 then Some (RefreshAll (Gather None None))
      else if k = 1 then
        Some (RefreshAll (case c_arrival c of
                ListingsFirst \<Rightarrow> Gather (Some (c_listings c)) None
              | UrgentFirst \<Rightarrow> Gather None (Some (c_urgent c))))
      else if k - 2 < length (c_listings c) then
        Some (RefreshLoop (drop (k - 2) (c_listings c))
                (reactions_after (c_listings c) (take (k - 2) (c_outs c)) Map.empty))
      else None)"

definition write_at :: "call \<Rightarrow> nat \<Rightarrow> dashboard \<Rightarrow> dashboard" where
  "write_at c k d =
     (if k = 0 then d
      else if k = 1 then
        (if c_listings c = []
         then d\<lparr>listings := c_listings c, urgent := c_urgent c, reactions := Map.empty\<rparr>
         else d\<lparr>listings := c_listings c, urgent := c_urgent c\<rparr>)
      else if k = Suc (length (c_listings c)) then d\<lparr>reactions := counted c\<rparr>
      else d)"

definition sent_at :: "call \<Rightarrow> nat \<Rightarrow> effect list" where
  "sent_at c k =
     (if 0 < k \<and> k - 1 < length (c_listings c)
      then [Sent (c_tid c) (GetReactions (listing_key (c_listings c ! (k - 1))))] else [])"

fun settles :: "event \<Rightarrow> nat option" where
  "settles (ListingsSettled tid out) = Some tid"
| "settles (UrgentSettled tid out) = Some tid"
| "settles (ReactionsSettled tid out) = Some tid"
| "settles (MatchingSettled tid out) = Some tid"
| "settles (ChatbotSettled tid out) = Some tid"
| "settles (PostSettled tid out) = Some tid"
| "settles e = None"

lemma length_events_of [simp]: "length (events_of c) = Suc (Suc (length (c_outs c)))"
  by (cases "c_arrival c") (simp_all add: events_of_def refresh_events_def)

lemma settles_events_of: "e \<in> set (events_of c) \<Longrightarrow> settles e = Some (c_tid c)"
  by (cases "c_arrival c") (auto simp: events_of_def refresh_events_def)

lemma events_of_nth:
  "events_of c ! 0 = hd (nearby_events (c_arrival c) (c_tid c) (Resolved (c_listings c))
     (Resolved (c_urgent c)))"
  "events_of c ! Suc 0 = nearby_events (c_arrival c) (c_tid c) (Resolved (c_listings c))
     (Resolved (c_urgent c)) ! Suc 0"
  "j < length (c_outs c) \<Longrightarrow> events_of c ! Suc (Suc j) = ReactionsSettled (c_tid c) (c_outs c ! j)"
  by (cases "c_arrival c"; simp add: events_of_def refresh_events_def)+

lemma reactions_after_take_Suc:
  "j < length ls \<Longrightarrow> j < length outs \<Longrightarrow>
     reactions_after ls (take (Suc j) outs) m =
       store_counts (ls ! j) (outs ! j) (reactions_after ls (take j outs) m)"
proof (induction j arbitrary: ls outs m)
  case 0
  then show ?case by (cases ls; cases outs) simp_all
next
  case (Suc j)
  then show ?case by (cases ls; cases outs) simp_all
qed

text \<open>
  The answer number \<open>k\<close> of a call, taken in a state where the handler of the call has
  had \<open>k\<close> answers: it changes the entry of the handler, the component state by
  \<open>write_at\<close> and the log by \<open>sent_at\<close>, whatever the rest of the state is.
\<close>

definition took :: "call \<Rightarrow> nat \<Rightarrow> sys \<Rightarrow> sys" where
  "took c k s =
     s\<lparr>dash := write_at c k (dash s), tasks := (tasks s)(c_tid c := task_at c (Suc k)),
       effects := effects s @ sent_at c k\<rparr>"

lemma step_at_first:
  assumes "tasks s (c_tid c) = task_at c 0"
  shows "step s (events_of c ! 0) = Some (took c 0 s)"
  using assms
  by (cases "c_arrival c")
    (simp_all add: events_of_nth task_at_def took_def write_at_def sent_at_def
      on_listings_first on_urgent_first prim_defs)

lemma step_at_second:
  assumes "tasks s (c_tid c) = task_at c (Suc 0)"
  shows "step s (events_of c ! Suc 0) = Some (took c (Suc 0) s)"
  using assms
  by (cases "c_arrival c"; cases "c_listings c")
    (simp_all add: events_of_nth task_at_def took_def write_at_def sent_at_def
      on_listings_second on_urgent_second refresh_loaded_def refresh_loop_def prim_defs)

lemma step_at_loop:
  assumes t: "tasks s (c_tid c) = task_at c (Suc (Suc j))" and j: "j < length (c_listings c)"
    and len: "length (c_outs c) = length (c_listings c)"
  shows "step s (events_of c ! Suc (Suc j)) = Some (took c (Suc (Suc j)) s)"
proof -
  let ?ls = "c_listings c" and ?outs = "c_outs c"
  let ?m = "reactions_after ?ls (take j ?outs) Map.empty"
  from j have d: "drop j ?ls = ?ls ! j # drop (Suc j) ?ls" by (simp add: Cons_nth_drop_Suc)
  from t j d have "tasks s (c_tid c) = Some (RefreshLoop (?ls ! j # drop (Suc j) ?ls) ?m)"
    by (simp add: task_at_def)
  then have st: "step s (events_of c ! Suc (Suc j)) =
      Some (refresh_loop (c_tid c) (drop (Suc j) ?ls) (store_counts (?ls ! j) (?outs ! j) ?m) s)"
    using j len by (simp add: events_of_nth on_reactions_loop)
  have m: "store_counts (?ls ! j) (?outs ! j) ?m = reactions_after ?ls (take (Suc j) ?outs) Map.empty"
    using j len by (simp add: reactions_after_take_Suc)
  show ?thesis
  proof (cases "Suc j < length ?ls")
    case True
    then have "drop (Suc j) ?ls = ?ls ! Suc j # drop (Suc (Suc j)) ?ls"
      by (simp add: Cons_nth_drop_Suc)
    with True show ?thesis unfolding st m
      by (simp add: refresh_loop_def took_def write_at_def sent_at_def task_at_def prim_defs)
  next
    case False
    with j have "Suc j = length ?ls" and "?ls \<noteq> []" by auto
    with len show ?thesis unfolding st m
      by (simp add: refresh_loop_def took_def write_at_def sent_at_def task_at_def prim_defs
          counted_def)
  qed
qed

lemma step_at:
  assumes "tasks s (c_tid c) = task_at c k" and "k < length (events_of c)"
    and "length (c_outs c) = length (c_listings c)"
  shows "step s (events_of c ! k) = Some (took c k s)"
proof -
  consider "k = 0" | "k = Suc 0" | j where "k = Suc (Suc j)" "j < length (c_listings c)"
    using assms(2,3) by (cases k; cases "k - 1") auto
  then show ?thesis
    using assms by cases (auto intro: step_at_first step_at_second step_at_loop)
qed

section \<open>Two calls, their answers interleaved\<close>

definition complete :: "call \<Rightarrow> bool" where
  "complete c \<longleftrightarrow> length (c_outs c) = length (c_listings c)"

fun replay :: "call \<Rightarrow> call \<Rightarrow> event list \<Rightarrow> nat \<Rightarrow> nat \<Rightarrow> dashboard \<Rightarrow> dashboard" where
  "replay c1 c2 [] k1 k2 d = d"
| "replay c1 c2 (e # es) k1 k2 d =
     (if settles e = Some (c_tid c1) then replay c1 c2 es (Suc k1) k2 (write_at c1 k1 d)
      else replay c1 c2 es k1 (Suc k2) (write_at c2 k2 d))"

definition owed_requests :: "call \<Rightarrow> nat \<Rightarrow> effect list" where
  "owed_requests c k = concat (map (sent_at c) [k..<length (events_of c)])"

lemma append_shuffles_left: "zs \<in> shuffles xs ys \<Longrightarrow> ws @ zs \<in> shuffles (ws @ xs) ys"
  by (induction ws) (auto intro: Cons_in_shuffles_leftI)

lemma append_shuffles_right: "zs \<in> shuffles xs ys \<Longrightarrow> ws @ zs \<in> shuffles xs (ws @ ys)"
  by (induction ws) (auto intro: Cons_in_shuffles_rightI)

lemma owed_requests_step:
  "k < length (events_of c) \<Longrightarrow> owed_requests c k = sent_at c k @ owed_requests c (Suc k)"
  by (simp add: owed_requests_def upt_conv_Cons del: length_events_of)

lemma owed_requests_done [simp]: "length (events_of c) \<le> k \<Longrightarrow> owed_requests c k = []"
  by (simp add: owed_requests_def)

lemma task_at_done: "complete c \<Longrightarrow> length (events_of c) \<le> k \<Longrightarrow> task_at c k = None"
  by (auto simp: task_at_def complete_def)

lemma took_frame [simp]:
  "tasks (took c k s) = (tasks s)(c_tid c := task_at c (Suc k))"
  "dash (took c k s) = write_at c k (dash s)"
  "effects (took c k s) = effects s @ sent_at c k"
  "next_tid (took c k s) = next_tid s"
  "geo_pending (took c k s) = geo_pending s"
  by (simp_all add: took_def)

text \<open>
  The result of an interleaving, described without the handlers: \<open>ended c1 c2 es k1 k2 s\<close>
  is the state \<open>s\<close> with both entries of the pool cleared, the writes of \<open>es\<close> replayed
  and the log extended by some interleaving of what the two calls still had to send.
\<close>

definition ended :: "call \<Rightarrow> call \<Rightarrow> event list \<Rightarrow> nat \<Rightarrow> nat \<Rightarrow> sys \<Rightarrow> sys \<Rightarrow> bool" where
  "ended c1 c2 es k1 k2 s s' \<longleftrightarrow>
     dash s' = replay c1 c2 es k1 k2 (dash s) \<and>
     tasks s' = (tasks s)(c_tid c1 := None, c_tid c2 := None) \<and>
     next_tid s' = next_tid s \<and> geo_pending s' = geo_pending s \<and>
     (\<exists>fx \<in> shuffles (owed_requests c1 k1) (owed_requests c2 k2). effects s' = effects s @ fx)"

lemma ended_left:
  assumes "ended c1 c2 es (Suc k1) k2 (took c1 k1 s) s'" and "k1 < length (events_of c1)"
    and "settles e = Some (c_tid c1)"
  shows "ended c1 c2 (e # es) k1 k2 s s'"
  using assms
  by (auto simp: ended_def owed_requests_step intro!: bexI [OF _ append_shuffles_left])

lemma ended_right:
  assumes "ended c1 c2 es k1 (Suc k2) (took c2 k2 s) s'" and "k2 < length (events_of c2)"
    and "settles e = Some (c_tid c2)" and "c_tid c1 \<noteq> c_tid c2"
  shows "ended c1 c2 (e # es) k1 k2 s s'"
  using assms
  by (auto simp: ended_def owed_requests_step fun_upd_twist
      intro!: bexI [OF _ append_shuffles_right])

lemma run_shuffled:
  assumes ne: "c_tid c1 \<noteq> c_tid c2" and c1: "complete c1" and c2: "complete c2"
  shows "es \<in> shuffles (drop k1 (events_of c1)) (drop k2 (events_of c2)) \<Longrightarrow>
     tasks s (c_tid c1) = task_at c1 k1 \<Longrightarrow> tasks s (c_tid c2) = task_at c2 k2 \<Longrightarrow>
     \<exists>s'. run s es = Some s' \<and> ended c1 c2 es k1 k2 s s'"
proof (induction es arbitrary: s k1 k2)
  case Nil
  then have "length (events_of c1) \<le> k1" and "length (events_of c2) \<le> k2" by simp_all
  with Nil c1 c2 show ?case by (auto simp: ended_def task_at_done)
next
  case (Cons e es)
  from Cons.prems(1) consider
      (left) "k1 < length (events_of c1)" "e = events_of c1 ! k1"
        "es \<in> shuffles (drop (Suc k1) (events_of c1)) (drop k2 (events_of c2))"
    | (right) "k2 < length (events_of c2)" "e = events_of c2 ! k2"
        "es \<in> shuffles (drop k1 (events_of c1)) (drop (Suc k2) (events_of c2))"
    by (auto simp: Cons_in_shuffles_iff hd_drop_conv_nth drop_Suc tl_drop simp del: length_events_of)
  then show ?case
  proof cases
    case left
    from left(1,2) have e: "settles e = Some (c_tid c1)" by (auto intro: settles_events_of)
    from Cons.prems(2) left(1) c1 have st: "step s e = Some (took c1 k1 s)"
      unfolding left(2) complete_def by (rule step_at)
    from Cons.prems(3) ne obtain s' where "run (took c1 k1 s) es = Some s'"
      and "ended c1 c2 es (Suc k1) k2 (took c1 k1 s) s'"
      using Cons.IH [OF left(3), of "took c1 k1 s"] by auto
    with st left(1) e show ?thesis by (auto intro: ended_left)
  next
    case right
    from right(1,2) have e: "settles e = Some (c_tid c2)" by (auto intro: settles_events_of)
    from Cons.prems(3) right(1) c2 have st: "step s e = Some (took c2 k2 s)"
      unfolding right(2) complete_def by (rule step_at)
    from Cons.prems(2) ne obtain s' where "run (took c2 k2 s) es = Some s'"
      and "ended c1 c2 es k1 (Suc k2) (took c2 k2 s) s'"
      using Cons.IH [OF right(3), of "took c2 k2 s"] by auto
    with st right(1) e ne show ?thesis by (auto intro: ended_right)
  qed
qed

section \<open>What the replay leaves\<close>

text \<open>
  \<open>owner c1 c2 e\<close> is the call an answer belongs to, and \<open>loads c1 c2 e\<close> says that \<open>e\<close>
  is the answer that completes the \<^verbatim>\<open>Promise.all\<close> of one of the calls: its second.
\<close>

definition owner :: "call \<Rightarrow> call \<Rightarrow> event \<Rightarrow> call" where
  "owner c1 c2 e = (if settles e = Some (c_tid c1) then c1 else c2)"

definition loads :: "call \<Rightarrow> call \<Rightarrow> event \<Rightarrow> bool" where
  "loads c1 c2 e \<longleftrightarrow> e = events_of c1 ! Suc 0 \<or> e = events_of c2 ! Suc 0"

lemma shuffled_cases [consumes 1, case_names left right]:
  assumes "e # es \<in> shuffles (drop k1 (events_of c1)) (drop k2 (events_of c2))"
  obtains
    (left) "k1 < length (events_of c1)" and "e = events_of c1 ! k1"
      and "settles e = Some (c_tid c1)"
      and "es \<in> shuffles (drop (Suc k1) (events_of c1)) (drop k2 (events_of c2))"
  | (right) "k2 < length (events_of c2)" and "e = events_of c2 ! k2"
      and "settles e = Some (c_tid c2)"
      and "es \<in> shuffles (drop k1 (events_of c1)) (drop (Suc k2) (events_of c2))"
  using assms
  by (auto simp: Cons_in_shuffles_iff hd_drop_conv_nth drop_Suc tl_drop settles_events_of
      simp del: length_events_of)

lemma events_of_second_iff:
  "k < length (events_of c) \<Longrightarrow> events_of c ! k = events_of c ! Suc 0 \<longleftrightarrow> k = Suc 0"
  by (cases "c_arrival c"; cases k; cases "k - 1")
    (auto simp: events_of_def refresh_events_def nth_append)

lemma loads_left:
  assumes "k < length (events_of c1)" and "c_tid c1 \<noteq> c_tid c2"
  shows "loads c1 c2 (events_of c1 ! k) \<longleftrightarrow> k = Suc 0"
proof -
  have "settles (events_of c1 ! k) = Some (c_tid c1)" and "settles (events_of c2 ! Suc 0) = Some (c_tid c2)"
    using assms(1) by (auto intro!: settles_events_of)
  with assms(2) have "events_of c1 ! k \<noteq> events_of c2 ! Suc 0" by auto
  with assms(1) show ?thesis by (simp add: loads_def events_of_second_iff)
qed

lemma loads_right:
  assumes "k < length (events_of c2)" and "c_tid c1 \<noteq> c_tid c2"
  shows "loads c1 c2 (events_of c2 ! k) \<longleftrightarrow> k = Suc 0"
proof -
  have "settles (events_of c2 ! k) = Some (c_tid c2)" and "settles (events_of c1 ! Suc 0) = Some (c_tid c1)"
    using assms(1) by (auto intro!: settles_events_of)
  with assms(2) have "events_of c2 ! k \<noteq> events_of c1 ! Suc 0" by auto
  with assms(1) show ?thesis by (simp add: loads_def events_of_second_iff)
qed

lemma write_at_lists:
  "listings (write_at c k d) = (if k = Suc 0 then c_listings c else listings d)"
  "urgent (write_at c k d) = (if k = Suc 0 then c_urgent c else urgent d)"
  by (simp_all add: write_at_def)

lemma write_at_last:
  "complete c \<Longrightarrow> Suc k = length (events_of c) \<Longrightarrow> reactions (write_at c k d) = counted c"
  by (auto simp: write_at_def complete_def counted_def)

lemma write_at_others:
  "write_at c k d = d\<lparr>listings := listings (write_at c k d), urgent := urgent (write_at c k d),
     reactions := reactions (write_at c k d)\<rparr>"
  by (simp add: write_at_def)

lemma replay_lists:
  assumes ne: "c_tid c1 \<noteq> c_tid c2"
  shows "es \<in> shuffles (drop k1 (events_of c1)) (drop k2 (events_of c2)) \<Longrightarrow>
     (listings (replay c1 c2 es k1 k2 d), urgent (replay c1 c2 es k1 k2 d)) =
       (case filter (loads c1 c2) es of
          [] \<Rightarrow> (listings d, urgent d)
        | x # xs \<Rightarrow> (let c = owner c1 c2 (last (x # xs)) in (c_listings c, c_urgent c)))"
proof (induction es arbitrary: k1 k2 d)
  case Nil
  then show ?case by simp
next
  case (Cons e es)
  from Cons.prems show ?case
  proof (cases rule: shuffled_cases)
    case left
    with ne Cons.IH [OF left(4), of "write_at c1 k1 d"] show ?thesis
      by (auto simp: loads_left write_at_lists owner_def Let_def split: list.splits)
  next
    case right
    with ne Cons.IH [OF right(4), of "write_at c2 k2 d"] show ?thesis
      by (auto simp: loads_right write_at_lists owner_def Let_def split: list.splits)
  qed
qed

lemma replay_counts:
  assumes ne: "c_tid c1 \<noteq> c_tid c2" and c1: "complete c1" and c2: "complete c2"
  shows "es \<in> shuffles (drop k1 (events_of c1)) (drop k2 (events_of c2)) \<Longrightarrow> es \<noteq> [] \<Longrightarrow>
     reactions (replay c1 c2 es k1 k2 d) = counted (owner c1 c2 (last es))"
proof (induction es arbitrary: k1 k2 d)
  case Nil
  then show ?case by simp
next
  case (Cons e es)
  from Cons.prems(1) show ?case
  proof (cases rule: shuffled_cases)
    case left
    show ?thesis
    proof (cases "es = []")
      case True
      with left(4) have "Suc k1 = length (events_of c1)"
        using left(1) by (simp del: length_events_of)
      with True left(3) c1 show ?thesis by (simp add: owner_def write_at_last)
    next
      case False
      with left(3) Cons.IH [OF left(4) False] show ?thesis by simp
    qed
  next
    case right
    show ?thesis
    proof (cases "es = []")
      case True
      with right(4) have "Suc k2 = length (events_of c2)"
        using right(1) by (simp del: length_events_of)
      with True right(3) ne c2 show ?thesis by (simp add: owner_def write_at_last)
    next
      case False
      with right(3) ne Cons.IH [OF right(4) False] show ?thesis by simp
    qed
  qed
qed

lemma replay_writes:
  "\<exists>ls us m. replay c1 c2 es k1 k2 d = d\<lparr>listings := ls, urgent := us, reactions := m\<rparr>"
proof (induction es arbitrary: k1 k2 d)
  case Nil
  have "d = d\<lparr>listings := listings d, urgent := urgent d, reactions := reactions d\<rparr>" by simp
  then show ?case unfolding replay.simps by blast
next
  case (Cons e es)
  have "\<exists>ls us m. replay c1 c2 es j1 j2 (write_at c k d) =
      d\<lparr>listings := ls, urgent := us, reactions := m\<rparr>" for c k j1 j2
    using Cons [of j1 j2 "write_at c k d"] by (subst (asm) write_at_others) simp
  then show ?case by simp
qed

lemma replay_others:
  "replay c1 c2 es k1 k2 d =
     d\<lparr>listings := listings (replay c1 c2 es k1 k2 d), urgent := urgent (replay c1 c2 es k1 k2 d),
       reactions := reactions (replay c1 c2 es k1 k2 d)\<rparr>"
proof -
  obtain ls us m where "replay c1 c2 es k1 k2 d = d\<lparr>listings := ls, urgent := us, reactions := m\<rparr>"
    using replay_writes by blast
  then show ?thesis by simp
qed

section \<open>Every interleaving\<close>

lemma owed_requests_Suc:
  assumes "complete c"
  shows "j \<le> length (c_listings c) \<Longrightarrow>
     owed_requests c (Suc j) = reaction_requests (c_tid c) (drop j (c_listings c))"
proof (induction "length (c_listings c) - j" arbitrary: j)
  case 0
  with assms show ?case
    by (simp add: owed_requests_step sent_at_def complete_def)
next
  case (Suc n)
  then have j: "j < length (c_listings c)" by simp
  with Suc.hyps(1) [of "Suc j"] Suc.hyps(2) assms show ?case
    by (simp add: owed_requests_step sent_at_def complete_def Cons_nth_drop_Suc [symmetric])
qed

lemma owed_requests_all:
  "complete c \<Longrightarrow> owed_requests c 0 = reaction_requests (c_tid c) (c_listings c)"
  using owed_requests_Suc [of c 0] by (simp add: owed_requests_step sent_at_def)

definition loaded_last :: "call \<Rightarrow> call \<Rightarrow> event list \<Rightarrow> call" where
  "loaded_last c1 c2 es = owner c1 c2 (last (filter (loads c1 c2) es))"

definition ended_last :: "call \<Rightarrow> call \<Rightarrow> event list \<Rightarrow> call" where
  "ended_last c1 c2 es = owner c1 c2 (last es)"

lemma replay_shuffled:
  assumes ne: "c_tid c1 \<noteq> c_tid c2" and c1: "complete c1" and c2: "complete c2"
    and es: "es \<in> shuffles (events_of c1) (events_of c2)"
  shows "replay c1 c2 es 0 0 d =
     d\<lparr>listings := c_listings (loaded_last c1 c2 es), urgent := c_urgent (loaded_last c1 c2 es),
       reactions := counted (ended_last c1 c2 es)\<rparr>"
proof -
  from es have es0: "es \<in> shuffles (drop 0 (events_of c1)) (drop 0 (events_of c2))" by simp
  have "events_of c1 ! Suc 0 \<in> set es"
    using set_shuffles [OF es] by (auto simp: in_set_conv_nth intro!: exI [of _ "Suc 0"])
  then have "filter (loads c1 c2) es \<noteq> []"
    by (auto simp: filter_empty_conv loads_def)
  then obtain x xs where f: "filter (loads c1 c2) es = x # xs" by (cases "filter (loads c1 c2) es") auto
  from es have "es \<noteq> []" using length_shuffles [OF es] by auto
  from replay_counts [OF ne c1 c2 es0 this] replay_lists [OF ne es0, of d] f
  have "listings (replay c1 c2 es 0 0 d) = c_listings (loaded_last c1 c2 es)"
    and "urgent (replay c1 c2 es 0 0 d) = c_urgent (loaded_last c1 c2 es)"
    and "reactions (replay c1 c2 es 0 0 d) = counted (ended_last c1 c2 es)"
    by (simp_all add: loaded_last_def ended_last_def Let_def)
  with replay_others [of c1 c2 es 0 0 d] show ?thesis by simp
qed

text \<open>
  C2. Two refreshes in flight, their answers in any order. Both handlers return. The
  state then holds the listings and urgent needs of the call whose two range answers
  were complete last, and the counters of the call whose last answer came last; nothing
  else of the component state has changed, and the reaction queries sent are those of
  the two calls, each in its order. Which call was issued last plays no part, and the
  lists and the counters can be those of different calls.
\<close>

theorem refresh_interleaved:
  assumes t1: "tasks s (c_tid c1) = Some (RefreshAll (Gather None None))"
    and t2: "tasks s (c_tid c2) = Some (RefreshAll (Gather None None))"
    and ne: "c_tid c1 \<noteq> c_tid c2" and c1: "complete c1" and c2: "complete c2"
    and es: "es \<in> shuffles (events_of c1) (events_of c2)"
  shows "\<exists>s'. run s es = Some s' \<and>
     tasks s' = (tasks s)(c_tid c1 := None, c_tid c2 := None) \<and>
     dash s' = (dash s)\<lparr>listings := c_listings (loaded_last c1 c2 es),
       urgent := c_urgent (loaded_last c1 c2 es), reactions := counted (ended_last c1 c2 es)\<rparr> \<and>
     (\<exists>fx \<in> shuffles (reaction_requests (c_tid c1) (c_listings c1))
        (reaction_requests (c_tid c2) (c_listings c2)). effects s' = effects s @ fx)"
proof -
  from es have "es \<in> shuffles (drop 0 (events_of c1)) (drop 0 (events_of c2))" by simp
  moreover from t1 t2 have "tasks s (c_tid c1) = task_at c1 0" "tasks s (c_tid c2) = task_at c2 0"
    by (simp_all add: task_at_def)
  ultimately obtain s' where "run s es = Some s'" and "ended c1 c2 es 0 0 s s'"
    using run_shuffled [OF ne c1 c2] by blast
  with c1 c2 show ?thesis
    by (auto simp: ended_def owed_requests_all replay_shuffled [OF ne c1 c2 es])
qed

text \<open>
  The refresh after a listing was created overlaps the first one. The older call, which
  does not see the new listing, is answered first but its last reaction answer comes
  last: the new listing is shown, with the counters the older call collected.
\<close>

definition older :: call where
  "older = \<lparr>c_tid = 0, c_arrival = ListingsFirst, c_listings = [drill], c_urgent = [],
     c_outs = [Rejected ''503'']\<rparr>"

definition newer :: call where
  "newer = \<lparr>c_tid = 2, c_arrival = UrgentFirst, c_listings = [ladder], c_urgent = [jump_leads],
     c_outs = [Resolved [\<lparr>reaction_type = ''like''\<rparr>]]\<rparr>"

definition torn :: "event list" where
  "torn = [ListingsSettled 0 (Resolved [drill]), UrgentSettled 2 (Resolved [jump_leads]),
     UrgentSettled 0 (Resolved []), ListingsSettled 2 (Resolved [ladder]),
     ReactionsSettled 2 (Resolved [\<lparr>reaction_type = ''like''\<rparr>]),
     ReactionsSettled 0 (Rejected ''503'')]"

lemma torn_shuffle: "torn \<in> shuffles (events_of older) (events_of newer)"
  by (simp add: torn_def older_def newer_def events_of_def refresh_events_def
      Cons_in_shuffles_iff)

theorem refresh_interleaved_witness:
  "\<exists>s s'. run mounted [Geo PositionError, SetFormTitle ''Ladder'', SetFormDescription ''3 m'',
       SubmitListing, PostSettled 1 (Resolved ())] = Some s \<and>
     run s torn = Some s' \<and> tasks s' = Map.empty \<and>
     listings (dash s') = [ladder] \<and> urgent (dash s') = [jump_leads] \<and>
     reactions (dash s') = [''2'' \<mapsto> zero_counts]"
proof -
  obtain s where s: "run mounted [Geo PositionError, SetFormTitle ''Ladder'',
       SetFormDescription ''3 m'', SubmitListing, PostSettled 1 (Resolved ())] = Some s"
    and ts: "tasks s = [0 \<mapsto> RefreshAll (Gather None None), 2 \<mapsto> RefreshAll (Gather None None)]"
    by (simp add: handler_defs prim_defs listing_form_valid_def initial_form_def numeral_2_eq_2)
  from ts have t: "tasks s (c_tid older) = Some (RefreshAll (Gather None None))"
    "tasks s (c_tid newer) = Some (RefreshAll (Gather None None))"
    "c_tid older \<noteq> c_tid newer" "complete older" "complete newer"
    by (simp_all add: older_def newer_def complete_def)
  have l: "loaded_last older newer torn = newer" "ended_last older newer torn = older"
    by (simp_all add: loaded_last_def ended_last_def loads_def owner_def torn_def older_def
        newer_def events_of_def refresh_events_def)
  have c: "counted older = [''2'' \<mapsto> zero_counts]"
    by (simp add: counted_def older_def store_counts_def counts_of_outcome_def scenario_defs)
  from refresh_interleaved [OF t torn_shuffle] s ts show ?thesis
    unfolding l c by (auto simp: older_def newer_def)
qed

end
