(* ===== verification/Spec2Isabelle.thy ===== *)
theory Spec2Isabelle
  imports Workflow_Refinement Handlers Progress App Render Overlap
begin

text \<open>
  \<^bold>\<open>Neighbour Node, the client.\<close> A verification development for
  \<^verbatim>\<open>src/frontend/src/App.js\<close>, the single source file of the repository: a React
  client in which people near each other post listings, broadcast urgent needs, react to
  listings and answer an urgent need with one of their own listings.

  \<^bold>\<open>The program.\<close> \<^verbatim>\<open>App\<close> routes between \<^verbatim>\<open>LoginPage\<close> and \<^verbatim>\<open>Dashboard\<close>
  behind \<^verbatim>\<open>AuthGate\<close>; the gate and the login page subscribe to the identity
  provider, and the gate mounts the dashboard when the provider names a user and
  redirects to the login page when it names none. All of the data orchestration is in
  \<^verbatim>\<open>Dashboard\<close>: eleven
  state variables, a geolocation effect that runs once, \<^verbatim>\<open>refreshData\<close> (two
  concurrent range queries, then one reaction query per listing, in sequence, each
  aggregated into four counters), and the handlers that create a listing or an urgent
  need, react, change a status, ask the chatbot, open the respond dialogue and send a
  response. Every handler is asynchronous: it runs to its next \<^verbatim>\<open>await\<close>, and the
  rest of it runs when the backend answers, with the values its closure captured when it
  started. Nothing else orders two handlers.

  \<^bold>\<open>How the code is modelled.\<close> The component state is the record \<open>dashboard\<close>, one
  field per \<^verbatim>\<open>useState\<close>. A handler is cut at its awaits: the part that runs at the
  event keeps the name of the source (\<open>handleCreateListing\<close>, \<open>refreshData\<close>, ...), the
  part that runs when the request settles is a second function (\<open>listing_created\<close>,
  \<open>on_listings\<close>, ...). Between the two the handler is a \<open>task\<close> in the pool of the
  session state \<open>sys\<close>, holding what its closure captured. A request settles with an
  \<open>outcome\<close>, fulfilled or rejected; every \<^verbatim>\<open>catch\<close> of the source, and every
  handler without one, is a branch on it. What a handler does to the outside (requests,
  alerts, console errors, unhandled rejections) is appended to the log \<open>effects\<close>.
  \<open>step\<close> runs the code bound to one \<open>event\<close> and is \<open>None\<close> when the event cannot
  happen; \<open>run\<close> and \<open>reachable\<close> are its closure.

  \<^bold>\<open>The theories.\<close>
  \<^item> \<open>JS_Prelude\<close>: what the code uses of JavaScript itself: identifiers, their
    truthiness and string form, \<^verbatim>\<open>trim\<close>, counters as doubles, settled promises; the
    shared lemma collections.
  \<^item> \<open>Reactions\<close>: the reaction aggregator, lines 134 to 139. \<open>count_reaction\<close> is the
    body of the \<^verbatim>\<open>forEach\<close>, \<open>aggregate\<close> the loop, \<open>counts_spec\<close> the reference it is
    proved equal to.
  \<^item> \<open>Promises\<close>: \<^verbatim>\<open>Promise.all\<close> over two promises, lines 122 to 125.
  \<^item> \<open>Entities\<close>: listings, urgent needs, the chatbot answer, the two forms, requests
    (one constructor per call of \<^verbatim>\<open>apiGet\<close> or \<^verbatim>\<open>apiPost\<close>) and effects.
  \<^item> \<open>Session\<close>: \<open>dashboard\<close> (lines 81 to 102), \<open>task\<close>, \<open>sys\<close>, and the five
    primitives every handler is built from.
  \<^item> \<open>Refresh\<close>: the data sync engine, \<^verbatim>\<open>refreshData\<close> (lines 119 to 149), with the
    reference \<open>reactions_after\<close> for its loop; the loop ends, and a failed reaction query
    touches one entry only.
  \<^item> \<open>Location\<close>: the geolocation effect (lines 104 to 117).
  \<^item> \<open>Lifecycle\<close>: the creating, reacting and status handlers (lines 151 to 189) and
    the inline handlers of the two forms.
  \<^item> \<open>Matching\<close>: the matching workflow (lines 206 to 226) and the condition of the
    dialogue (line 419). \<open>Chatbot\<close>: the chatbot handler (lines 191 to 204).
  \<^item> \<open>View\<close>: what the JSX decides: default counters, when the status buttons are
    there, validity of the forms.
  \<^item> \<open>Client\<close>: events, \<open>step\<close>, \<open>run\<close>, \<open>reachable\<close>, and what each kind of event
    leaves unchanged.
  \<^item> \<open>Invariants\<close>: \<open>session_inv\<close> and the proof that every reachable state has it.
  \<^item> \<open>Sync\<close>: whole runs of a refresh against the contract \<open>refreshed\<close>; two
    refreshes that overlap.
  \<^item> \<open>Scenario\<close>: two reachable sessions the theorems are tried on.
  \<^item> \<open>Overlap\<close>: two refreshes whose answers arrive in any order. \<open>task_at\<close>,
    \<open>write_at\<close> and \<open>sent_at\<close> give \<^verbatim>\<open>refreshData\<close> answer by answer, as a function
    of the call alone; \<open>replay\<close> applies the writes of two calls in the order of an
    interleaving (\<open>shuffles\<close>) of their answers.
  \<^item> \<open>Workflow\<close>, \<open>Handlers\<close>: runs of the matching workflow, of the lifecycle
    handlers and of the chatbot handler.
  \<^item> \<open>Workflow_Refinement\<close>: the machine closed, loading, open of the design, the
    workflow of an urgent need as a function of the session, and the refinement between
    the two.
  \<^item> \<open>Progress\<close>: what the suspended handlers still wait for, as three sums over
    the pool (\<open>owed\<close>); every answer of the backend lowers it lexicographically, and
    from every reachable state the pool can be emptied.
  \<^item> \<open>Auth\<close>: \<^verbatim>\<open>AuthGate\<close> (lines 8 to 19) and \<^verbatim>\<open>LoginPage\<close> (lines 21 to 78) on
    their own: \<open>gate_user\<close>, \<open>on_auth_gate\<close>, \<open>gate_render\<close>; \<open>login_page\<close>,
    \<open>handleSubmit\<close>, \<open>submit_request\<close>, \<open>submit_settled\<close>, \<open>on_auth_login\<close> and the
    inline handlers.
  \<^item> \<open>App\<close>: the application (lines 456 to 472). The state \<open>app\<close> holds the route,
    the login page, the gate, the dashboard the gate renders (a \<open>sys\<close>), the dashboards
    that were unmounted and the sign-in calls in flight; \<open>app_step\<close> runs one
    \<open>app_event\<close>, among them every event of the dashboard; \<open>app_inv\<close> is its
    invariant.
  \<^item> \<open>Render\<close>: what \<^verbatim>\<open>Dashboard\<close> returns (lines 228 to 453) as the list of the
    texts and controls on the screen, one definition per part (\<open>topbar\<close>,
    \<open>chatbot_panel\<close>, \<open>listing_card\<close>, \<open>dialogue\<close>, ...), and \<open>raises\<close>, the events a
    control can raise.
  \<^item> \<open>Spec2Isabelle\<close> (this theory): the properties of all reachable states, and
    those that need two components.

  \<^bold>\<open>What the theorems show.\<close> A refresh alone does what its contract says, for both
  orders of arrival and any mix of reaction outcomes; a failed range query leaves the
  state alone; a failed reaction query costs one listing its counters. The counting
  loop equals its closed form. No request leaves before the location is known, and
  every request that leaves is well formed. The dialogue, the forms and the chatbot
  panel follow their handlers on both outcomes; the matching workflow of each urgent
  need refines the machine of the design as long as no second query for its candidates
  is in flight while its dialogue is open. They also show where the code differs
  from its design: of two overlapping refreshes, under every interleaving of their
  answers, the call that loads last sets the lists and the call that ends last sets the
  counters, not the last issued (\<open>refresh_interleaved\<close>); the state is replaced in
  two steps, not at once; closing the dialogue keeps the candidates; a listing or urgent need the backend refuses is not reported; an
  inherited property name as a reaction type is counted as \<^verbatim>\<open>NaN\<close>.
  Answers cannot go on for ever: from a state of the invariant every sequence of answers
  of the backend is finite (\<open>answers_terminate\<close>), and from every reachable state some
  sequence of answers returns every handler (\<open>handlers_can_finish\<close>). Counters stay
  well formed and bounded by the number of events and by \<open>2 ^ 53\<close>; the key of a
  numeric identifier reads back as the identifier. For the application: a dashboard is
  on the screen exactly behind a gate that holds a user; signing in mounts a fresh
  dashboard; a rejected sign-in shows its message; and signing out does not stop the
  handlers the dashboard had started, which still send their requests. The screen and
  the steps agree: the controls \<open>render\<close> puts on the screen raise exactly the events
  of the user that \<open>step\<close> accepts (\<open>offered_iff_enabled\<close>).

  \<^bold>\<open>Bounds.\<close> Counters are doubles: \<open>aggregate\<close> is exact below \<open>2 ^ 53\<close> events of
  one type and saturates there, and the theorems say so. Identifiers are non-negative
  integers below \<open>10 ^ 21\<close> (where \<^verbatim>\<open>ToString\<close> is the decimal numeral) or
  strings, and none is the name of a property every object inherits (the
  maps \<^verbatim>\<open>reactions\<close> and \<^verbatim>\<open>matchingListings\<close> are read as holding what was stored
  in them). Strings are byte strings; only ASCII white space is trimmed.
  No fuel is used: every function of the development is total, and the loop of a
  refresh is driven by the events that answer it, one per listing; that these are
  finitely many is theorem \<open>answers_terminate\<close>, by a measure and not by a bound. A
  user is an identifier; the identity provider may name any user at any time.

  \<^bold>\<open>Not modelled.\<close> The backend (listings, matching and the chatbot are computed
  there; the client only sees answers, which the model leaves arbitrary), the identity
  provider (the client sees its notices and the outcomes of its calls), the modules
  \<^verbatim>\<open>./api\<close> and \<^verbatim>\<open>./firebase\<close> (not in the repository's sources; \<^verbatim>\<open>apiGet\<close> and
  \<^verbatim>\<open>apiPost\<close> are promises that settle), paths other than the two routes (every path
  but \<^verbatim>\<open>/login\<close> is the gated route), class names, placeholders, keys and the nesting
  of the JSX elements, the markup of the login page beyond its heading, its error line
  and the label of its submit button, and a request that never settles (the handler
  then stays in the pool).

  \<^bold>\<open>Still to do.\<close> Interleavings of more than two refreshes, and of a refresh
  with one whose range query fails.
\<close>

section \<open>Where the session is\<close>

text \<open>
  The coordinates a sequence of events gives the session: those of the first answer
  of the geolocation service.
\<close>

fun located :: "event list \<Rightarrow> latlng option" where
  "located [] = None"
| "located (Geo a # es) = Some (resolve a)"
| "located (e # es) = located es"

lemma located_snoc:
  "located (es @ [e]) = (case located es of Some p \<Rightarrow> Some p | None \<Rightarrow> located [e])"
  by (induction es rule: located.induct) simp_all

lemma located_step:
  assumes r: "reachable s" and st: "step s e = Some s'"
  shows "coords (dash s') = (case coords (dash s) of Some p \<Rightarrow> Some p | None \<Rightarrow> located [e])"
proof (cases "cause_of e")
  case Device
  then obtain a where e: "e = Geo a" using device_event by blast
  from r have "session_inv s" by (rule reachable_session_inv)
  with st e have "coords (dash s) = None" by (auto simp: session_inv_def on_geo_def split: if_splits)
  with st e show ?thesis using on_geo_coords by auto
next
  case Backend
  with st have "coords (dash s') = coords (dash s)" by (rule backend_coords)
  with Backend show ?thesis by (cases e) (auto split: option.splits)
next
  case Edit
  with st have "coords (dash s') = coords (dash s)" by (rule edit_frame)
  with Edit show ?thesis by (cases e) (auto split: option.splits)
next
  case Action
  with st have "coords (dash s') = coords (dash s)" by (rule action_coords)
  with Action show ?thesis by (cases e) (auto split: option.splits)
qed

text \<open>
  C10. The location is resolved once. After any sequence of events, the coordinates of the
  session are those of the first answer of the geolocation service, with the fallback
  \<open>(0, 0)\<close> when that answer is an error, and there are none before that answer.
\<close>

theorem coords_of_run:
  assumes "run mounted es = Some s"
  shows "coords (dash s) = located es"
  using assms
proof (induction es arbitrary: s rule: rev_induct)
  case Nil
  then show ?case by auto
next
  case (snoc e es)
  then obtain s0 where s0: "run mounted es = Some s0" and st: "step s0 e = Some s"
    by (auto simp: run_snoc split: option.splits)
  from s0 have "reachable s0" by (rule run_reachable [OF reachable.start])
  from located_step [OF this st] snoc.IH [OF s0] show ?case
    by (simp add: located_snoc)
qed

theorem coords_of_run_witness:
  "\<exists>s. run mounted [ToggleChatbot, Geo PositionError, SetFormTitle ''Ladder''] = Some s
     \<and> coords (dash s) = Some \<lparr>lat = 0, lng = 0\<rparr>"
  using coords_of_run [of "[ToggleChatbot, Geo PositionError, SetFormTitle ''Ladder'']"]
  by (simp add: handler_defs prim_defs)

section \<open>Every reachable state\<close>

text \<open>
  C9. Nothing is asked of the backend before the location is known: as long as the
  session has no coordinates, no request has been sent, no handler is waiting, and no
  listing or urgent need is shown; a form submitted then is dropped.
\<close>

theorem no_request_before_location:
  assumes "reachable s" and "coords (dash s) = None"
  shows "requests_of (effects s) = [] \<and> tasks s = Map.empty
     \<and> listings (dash s) = [] \<and> urgent (dash s) = []"
  using reachable_session_inv [OF assms(1)] assms(2)
  by (simp add: session_inv_def dash_ok_def)

theorem no_request_before_location_witness:
  "\<exists>s. run mounted [SetFormTitle ''Ladder'', SetFormDescription ''3 m'', SubmitListing,
       ToggleChatbot, SetChatbotQuery ''drill?'', SubmitChatbot] = Some s
     \<and> requests_of (effects s) = [] \<and> tasks s = Map.empty"
proof -
  obtain s where s: "run mounted [SetFormTitle ''Ladder'', SetFormDescription ''3 m'',
       SubmitListing, ToggleChatbot, SetChatbotQuery ''drill?'', SubmitChatbot] = Some s"
    and c: "coords (dash s) = None"
    by (simp add: handler_defs prim_defs listing_form_valid_def)
  from s have "reachable s" by (rule run_reachable [OF reachable.start])
  from no_request_before_location [OF this c] s show ?thesis by simp
qed

text \<open>
  C8. Every request is well formed. Once the location is known, every request the session
  has sent carries the resolved coordinates where it carries coordinates; the range
  queries ask for the fixed radius; a listing is posted with a title, a description and
  one of the three types; an urgent need with a title, a description and a radius
  between 0.5 and 10 in steps of 0.5; a reaction has one of the four types; a status
  change asks for \<^verbatim>\<open>reserved\<close> or \<^verbatim>\<open>completed\<close>; a chatbot query is not blank.
\<close>

theorem requests_well_formed:
  assumes "reachable s" and "coords (dash s) = Some p"
  shows "list_all (request_ok p) (requests_of (effects s))"
  using reachable_session_inv [OF assms(1)] assms(2)
  by (simp add: session_inv_def)

theorem requests_well_formed_witness:
  "\<exists>s. run mounted [Geo (Position 10 20), SetUrgentTitle ''Jump leads'',
       SetUrgentDescription ''flat battery'', SetUrgentRadius 2.5, SubmitUrgent] = Some s
     \<and> list_all (request_ok \<lparr>lat = 10, lng = 20\<rparr>) (requests_of (effects s))
     \<and> length (requests_of (effects s)) = 3"
proof -
  obtain s where s: "run mounted [Geo (Position 10 20), SetUrgentTitle ''Jump leads'',
       SetUrgentDescription ''flat battery'', SetUrgentRadius 2.5, SubmitUrgent] = Some s"
    and c: "coords (dash s) = Some \<lparr>lat = 10, lng = 20\<rparr>"
    and n: "length (requests_of (effects s)) = 3"
    by (simp add: handler_defs prim_defs urgent_form_valid_def radius_valid_def)
  from s have "reachable s" by (rule run_reachable [OF reachable.start])
  from requests_well_formed [OF this c] s n show ?thesis by simp
qed

text \<open>
  C23. The dialogue has its candidates. Whenever the state names an urgent need to respond
  to, the candidates stored for it are there: the respond dialogue is rendered exactly
  when that identifier is truthy.
\<close>

theorem modal_has_candidates:
  assumes "reachable s" and "showRespondModal (dash s) = Some u"
  shows "(\<exists>ls. modal (dash s) = Some (u, ls)) \<longleftrightarrow> truthy_id u"
  using reachable_session_inv [OF assms(1)] assms(2)
  by (auto simp: session_inv_def dash_ok_def modal_def split: option.splits)

theorem modal_has_candidates_witness:
  "showRespondModal (dash answering) = Some (NumId 4)
     \<and> (\<exists>ls. modal (dash answering) = Some (NumId 4, ls))"
  using modal_has_candidates [of answering "NumId 4"] answering_reachable
  by simp



section \<open>Creating, then refreshing\<close>

text \<open>
  C16. A listing that was created is asked for again. When a valid form is posted and the
  backend accepts it, the range queries of the refresh that follows are sent after the
  answer to the post; when that refresh is answered, the state holds what the backend
  returned, with the counters of each listing, and the cleared form.
\<close>

theorem create_then_refresh:
  assumes "coords (dash s) = Some p" and "listing_form_valid (form (dash s))"
    and "length outs = length ls"
  shows "\<exists>s'. run s ([SubmitListing, PostSettled (next_tid s) (Resolved ())] @
        refresh_events a (Suc (next_tid s)) ls us outs) = Some s'
     \<and> dash s' = refreshed ls us outs ((dash s)\<lparr>form := cleared (form (dash s))\<rparr>)
     \<and> tasks s' = (tasks s)(next_tid s := None, Suc (next_tid s) := None)
     \<and> requests_of (effects s') = requests_of (effects s) @
          PostListing (form (dash s)) (lat p) (lng p) # refresh_requests p ls"
proof -
  let ?s1 = "refreshData (Some p) (setState (\<lambda>d. d\<lparr>form := cleared (form (dash s))\<rparr>)
    (finish (next_tid s) (handleCreateListing s)))"
  from assms(1,2) have 1: "run s [SubmitListing, PostSettled (next_tid s) (Resolved ())] = Some ?s1"
    by (simp add: handleCreateListing_def on_post_def listing_created_def cleared_def)
  from assms(1) have "tasks ?s1 (Suc (next_tid s)) = Some (RefreshAll (Gather None None))"
    by (simp add: refreshData_def handleCreateListing_def)
  note 2 = refresh_run [OF this assms(3), of a us]
  from assms(1) show ?thesis
    unfolding run_append 1 option.case 2
    by (simp add: refreshData_def handleCreateListing_def refresh_requests_def refreshed_def)
qed

theorem create_then_refresh_witness:
  "\<exists>s s'. run browsing [SetFormTitle ''Saw'', SetFormDescription ''hand saw''] = Some s
     \<and> run s ([SubmitListing, PostSettled 1 (Resolved ())] @ refresh_events ListingsFirst 2
          [ladder, \<lparr>l_id = NumId 3, l_title = ''Saw'', l_description = ''hand saw'',
             l_type = ''offer'', l_is_free = True, l_status = ''active''\<rparr>] [] [Rejected ''503'',
           Resolved []]) = Some s'
     \<and> map l_title (listings (dash s')) = [''Ladder'', ''Saw'']
     \<and> form (dash s') = initial_form \<and> tasks s' = Map.empty"
proof -
  obtain s where s: "run browsing [SetFormTitle ''Saw'', SetFormDescription ''hand saw''] = Some s"
    and c: "coords (dash s) = Some fallback"
    and f: "form (dash s) = initial_form\<lparr>f_title := ''Saw'', f_description := ''hand saw''\<rparr>"
    and t: "tasks s = Map.empty" "next_tid s = 1"
    by (simp add: form_defs)
  from f have "listing_form_valid (form (dash s))"
    by (simp add: listing_form_valid_def)
  from create_then_refresh [OF c this, of "[Rejected ''503'', Resolved []]"
      "[ladder, \<lparr>l_id = NumId 3, l_title = ''Saw'', l_description = ''hand saw'',
             l_type = ''offer'', l_is_free = True, l_status = ''active''\<rparr>]" ListingsFirst "[]"]
    s f t
  show ?thesis
    by (auto simp: refreshed_def cleared_def initial_form_def ladder_def numeral_2_eq_2)
qed

end
